(* ===== verification/Relayd_Prelude.thy ===== *)
theory Relayd_Prelude
  imports Main "HOL-Library.Word" "HOL-Library.AList" "HOL-Library.Char_ord"
    "HOL-Library.List_Lexorder" "HOL-Library.Product_Lexorder"
begin

text \<open>
  The shared vocabulary of the development: the machine types of the Rust sources, the
  result type and the early-return operator, state-passing actions, the string functions of
  the Rust standard library the sources call (\<open>parse\<close>, \<open>to_string\<close>, \<open>split_once\<close>, ...) and
  the arithmetic of fixed-width integers, with the lemmas the components share.
\<close>

unbundle bit_operations_syntax

subsection \<open>Machine types\<close>

text \<open>
  Unsigned integers are words of their width. The signed column and timestamp types
  (\<open>i32\<close>, \<open>i64\<close>) are integers whose range is written out where it matters; \<open>usize\<close> counts
  are natural numbers.
\<close>

type_synonym u8 = "8 word"
type_synonym u16 = "16 word"
type_synonym u32 = "32 word"
type_synonym u64 = "64 word"
type_synonym i32 = int
type_synonym i64 = int
type_synonym usize = nat

named_theorems op_defs \<open>definitions of the operations of a component\<close>
named_theorems frame_simps \<open>what an operation leaves unchanged\<close>
named_theorems wf_intros \<open>operations keep the well-formedness invariants\<close>

subsection \<open>Results and early return\<close>

type_synonym ('e, 'a) result = "'e + 'a"

abbreviation Ok :: "'a \<Rightarrow> 'e + 'a" where "Ok \<equiv> Inr"
abbreviation Err :: "'e \<Rightarrow> 'e + 'a" where "Err \<equiv> Inl"

fun map_err :: "('e \<Rightarrow> 'f) \<Rightarrow> 'e + 'a \<Rightarrow> 'f + 'a" where
  "map_err f (Inl e) = Inl (f e)"
| "map_err f (Inr x) = Inr x"

fun map_ok :: "('a \<Rightarrow> 'b) \<Rightarrow> 'e + 'a \<Rightarrow> 'e + 'b" where
  "map_ok f (Inl e) = Inl e"
| "map_ok f (Inr x) = Inr (f x)"

fun ok_or :: "'a option \<Rightarrow> 'e \<Rightarrow> 'e + 'a" where
  "ok_or None e = Inl e"
| "ok_or (Some x) e = Inr x"

fun question :: "'e + 'a \<Rightarrow> ('a \<Rightarrow> 'e + 'b) \<Rightarrow> 'e + 'b" where
  "question (Inl e) k = Inl e"
| "question (Inr x) k = k x"

fun transpose_result :: "('e + 'a) option \<Rightarrow> 'e + 'a option" where
  "transpose_result None = Inr None"
| "transpose_result (Some (Inl e)) = Inl e"
| "transpose_result (Some (Inr x)) = Inr (Some x)"

fun or_else :: "'a option \<Rightarrow> 'a option \<Rightarrow> 'a option" where
  "or_else None y = y"
| "or_else (Some x) y = Some x"

fun unwrap_or :: "'a option \<Rightarrow> 'a \<Rightarrow> 'a" where
  "unwrap_or None d = d"
| "unwrap_or (Some x) d = x"

text \<open>Collecting an iterator of results stops at the first error.\<close>

fun collect_results :: "('e + 'a) list \<Rightarrow> 'e + 'a list" where
  "collect_results [] = Inr []"
| "collect_results (r # rs) = question r (\<lambda>x. map_ok ((#) x) (collect_results rs))"

lemma map_err_eq_Err: "map_err f r = Inl e \<longleftrightarrow> (\<exists>e'. r = Inl e' \<and> e = f e')"
  by (cases r) auto

lemma map_err_eq_Ok [simp]: "map_err f r = Inr x \<longleftrightarrow> r = Inr x"
  by (cases r) auto

lemma map_ok_eq_Ok: "map_ok f r = Inr y \<longleftrightarrow> (\<exists>x. r = Inr x \<and> y = f x)"
  by (cases r) auto

lemma map_ok_eq_Err [simp]: "map_ok f r = Inl e \<longleftrightarrow> r = Inl e"
  by (cases r) auto

lemma question_eq_Ok: "question r k = Inr y \<longleftrightarrow> (\<exists>x. r = Inr x \<and> k x = Inr y)"
  by (cases r) auto

lemma transpose_result_eq_Ok:
  "transpose_result r = Inr y \<longleftrightarrow> (r = None \<and> y = None) \<or> (\<exists>x. r = Some (Inr x) \<and> y = Some x)"
  by (cases r rule: option.exhaust; cases "the r") auto

lemma or_else_None [simp]: "or_else x None = x"
  by (cases x) auto

lemma ok_or_eq_Ok [simp]: "ok_or x e = Inr y \<longleftrightarrow> x = Some y"
  by (cases x) auto

lemma collect_results_map_Ok [simp]: "collect_results (map (\<lambda>x. Inr (f x)) xs) = Inr (map f xs)"
  by (induction xs) auto

lemma collect_results_eq_Ok: "collect_results rs = Inr xs \<longleftrightarrow> rs = map Inr xs"
proof (induction rs arbitrary: xs)
  case Nil
  then show ?case by auto
next
  case (Cons r rs)
  then show ?case by (cases r; cases xs) (auto simp: map_ok_eq_Ok)
qed

subsection \<open>State-passing actions\<close>

type_synonym ('s, 'e, 'a) action = "'s \<Rightarrow> ('e + 'a) \<times> 's"

definition return :: "'a \<Rightarrow> ('s, 'e, 'a) action" where
  "return x s = (Inr x, s)"

definition throw :: "'e \<Rightarrow> ('s, 'e, 'a) action" where
  "throw e s = (Inl e, s)"

definition and_then :: "('s, 'e, 'a) action \<Rightarrow> ('a \<Rightarrow> ('s, 'e, 'b) action) \<Rightarrow> ('s, 'e, 'b) action" where
  "and_then m k s = (case m s of (Inl e, s') \<Rightarrow> (Inl e, s') | (Inr x, s') \<Rightarrow> k x s')"

lemma return_apply [simp]: "return x s = (Inr x, s)"
  by (simp add: return_def)

lemma throw_apply [simp]: "throw e s = (Inl e, s)"
  by (simp add: throw_def)

lemma and_then_Ok [simp]: "m s = (Inr x, s') \<Longrightarrow> and_then m k s = k x s'"
  by (simp add: and_then_def)

lemma and_then_Err [simp]: "m s = (Inl e, s') \<Longrightarrow> and_then m k s = (Inl e, s')"
  by (simp add: and_then_def)

lemma and_then_cases:
  assumes "and_then m k s = (r, t)"
  obtains (err) e where "m s = (Inl e, t)" and "r = Inl e"
  | (ok) x s' where "m s = (Inr x, s')" and "k x s' = (r, t)"
  using assms by (auto simp: and_then_def split: prod.splits sum.splits)

text \<open>Running an action on a part of a larger state, with its error embedded.\<close>

definition zoom :: "('s \<Rightarrow> 't) \<Rightarrow> ('t \<Rightarrow> 's \<Rightarrow> 's) \<Rightarrow> ('e \<Rightarrow> 'f) \<Rightarrow>
    ('t, 'e, 'a) action \<Rightarrow> ('s, 'f, 'a) action" where
  "zoom get_part put_part emb m s = (case m (get_part s) of (r, t) \<Rightarrow> (map_err emb r, put_part t s))"

text \<open>
  Triples for actions: from a state in \<open>P\<close>, a result satisfies \<open>Q\<close> and an error \<open>E\<close>, each
  with the state it leaves.
\<close>

definition valid :: "('s \<Rightarrow> bool) \<Rightarrow> ('s, 'e, 'a) action \<Rightarrow> ('a \<Rightarrow> 's \<Rightarrow> bool) \<Rightarrow> ('e \<Rightarrow> 's \<Rightarrow> bool) \<Rightarrow> bool" where
  "valid P m Q E \<longleftrightarrow> (\<forall>s. P s \<longrightarrow> (case m s of (Inl e, s') \<Rightarrow> E e s' | (Inr x, s') \<Rightarrow> Q x s'))"

lemma validI:
  "(\<And>s x s'. P s \<Longrightarrow> m s = (Inr x, s') \<Longrightarrow> Q x s') \<Longrightarrow> (\<And>s e s'. P s \<Longrightarrow> m s = (Inl e, s') \<Longrightarrow> E e s') \<Longrightarrow>
     valid P m Q E"
  unfolding valid_def by (auto split: prod.splits sum.splits)

lemma valid_Ok: "valid P m Q E \<Longrightarrow> P s \<Longrightarrow> m s = (Inr x, s') \<Longrightarrow> Q x s'"
  unfolding valid_def by fastforce

lemma valid_Err: "valid P m Q E \<Longrightarrow> P s \<Longrightarrow> m s = (Inl e, s') \<Longrightarrow> E e s'"
  unfolding valid_def by fastforce

lemma valid_result: "valid P m (\<lambda>_. I) (\<lambda>_. I) \<Longrightarrow> P s \<Longrightarrow> m s = (res, s') \<Longrightarrow> I s'"
  by (cases res) (auto dest: valid_Ok valid_Err)

lemma valid_return [wf_intros]: "(\<And>s. P s \<Longrightarrow> Q x s) \<Longrightarrow> valid P (return x) Q E"
  unfolding valid_def by simp

lemma valid_throw [wf_intros]: "(\<And>s. P s \<Longrightarrow> E e s) \<Longrightarrow> valid P (throw e) Q E"
  unfolding valid_def by simp

lemma valid_and_then:
  assumes m: "valid P m R E" and k: "\<And>x. valid (R x) (k x) Q E"
  shows "valid P (and_then m k) Q E"
proof (rule validI)
  fix s y s' assume P: "P s" and run: "and_then m k s = (Inr y, s')"
  from run show "Q y s'"
  proof (cases rule: and_then_cases)
    case (ok x t)
    show ?thesis by (rule valid_Ok [OF k valid_Ok [OF m P ok(1)] ok(2)])
  qed simp
next
  fix s e s' assume P: "P s" and run: "and_then m k s = (Inl e, s')"
  from run show "E e s'"
  proof (cases rule: and_then_cases)
    case (err e')
    then show ?thesis using valid_Err [OF m P err(1)] by simp
  next
    case (ok x t)
    show ?thesis by (rule valid_Err [OF k valid_Ok [OF m P ok(1)] ok(2)])
  qed
qed

lemma valid_pre: "valid P' m Q E \<Longrightarrow> (\<And>s. P s \<Longrightarrow> P' s) \<Longrightarrow> valid P m Q E"
  unfolding valid_def by simp

lemma valid_post:
  assumes "valid P m Q' E" and "\<And>x s. Q' x s \<Longrightarrow> Q x s"
  shows "valid P m Q E"
  by (rule validI) (rule assms(2), erule (1) valid_Ok [OF assms(1)], erule (1) valid_Err [OF assms(1)])

lemma valid_weaken:
  assumes "valid P' m Q' E'" and "\<And>s. P s \<Longrightarrow> P' s" and "\<And>x s. Q' x s \<Longrightarrow> Q x s" and "\<And>e s. E' e s \<Longrightarrow> E e s"
  shows "valid P m Q E"
  by (rule validI) (rule assms(3), erule (1) valid_Ok [OF assms(1) assms(2)], rule assms(4), erule (1) valid_Err [OF assms(1) assms(2)])

lemma valid_state_arg: "(\<And>t. valid P (m t) Q E) \<Longrightarrow> valid P (\<lambda>s. m (g s) s) Q E"
  unfolding valid_def by simp

text \<open>A fact that the precondition implies may be used in the proof of the triple.\<close>

lemma valid_knows: "(\<And>s. P s \<Longrightarrow> F) \<Longrightarrow> (F \<Longrightarrow> valid P m Q E) \<Longrightarrow> valid P m Q E"
  unfolding valid_def by (cases F) auto

lemma valid_fact: "(F \<Longrightarrow> valid P m Q E) \<Longrightarrow> valid (\<lambda>s. F \<and> P s) m Q E"
  unfolding valid_def by simp

subsection \<open>Fixed-width arithmetic of the standard library\<close>

definition checked_add :: "'a::len word \<Rightarrow> 'a word \<Rightarrow> 'a word option" where
  "checked_add a b = (if unat a + unat b < 2 ^ LENGTH('a) then Some (a + b) else None)"

definition saturating_add :: "'a::len word \<Rightarrow> 'a word \<Rightarrow> 'a word" where
  "saturating_add a b = (if unat a + unat b < 2 ^ LENGTH('a) then a + b else - 1)"

definition saturating_sub_i64 :: "i64 \<Rightarrow> i64 \<Rightarrow> i64" where
  "saturating_sub_i64 a b = max (- (2 ^ 63)) (min (2 ^ 63 - 1) (a - b))"

lemma checked_add_Some:
  "checked_add a b = Some c \<longleftrightarrow> unat a + unat b < 2 ^ LENGTH('a) \<and> c = a + b"
  for a b c :: "'a::len word"
  by (auto simp: checked_add_def)

lemma unat_add_no_overflow:
  "unat a + unat b < 2 ^ LENGTH('a) \<Longrightarrow> unat (a + b) = unat a + unat b" for a b :: "'a::len word"
  by (metis unat_add_lem)

lemma unat_checked_add:
  "checked_add a b = Some c \<Longrightarrow> unat c = unat a + unat b" for a b c :: "'a::len word"
  by (auto simp: checked_add_Some unat_add_no_overflow)

lemma unat_saturating_add:
  "unat (saturating_add a b) = min (unat a + unat b) (2 ^ LENGTH('a) - 1)" for a b :: "'a::len word"
proof (cases "unat a + unat b < 2 ^ LENGTH('a)")
  case True
  then show ?thesis by (simp add: saturating_add_def unat_add_no_overflow)
next
  case False
  have "unat (- 1 :: 'a word) = 2 ^ LENGTH('a) - 1"
    by (simp add: unsigned_minus_1_eq_mask mask_eq_exp_minus_1)
  with False show ?thesis by (simp add: saturating_add_def)
qed

lemma unat_u16_less [simp]: "unat (p :: u16) < 65536"
  using unsigned_less [of p] by simp

lemma uint_u16_less [simp]: "uint (p :: u16) < 65536" "0 \<le> uint (p :: u16)"
  using unsigned_less [where ?'a = int, of p] by simp_all

subsection \<open>Strings\<close>

text \<open>
  A Rust \<open>String\<close> is its UTF-8 bytes, one \<open>char\<close> per byte. The ASCII-only functions below
  leave bytes above 127 alone, as the standard library does.
\<close>

definition ascii_lower :: "char \<Rightarrow> char" where
  "ascii_lower c = (if 65 \<le> (of_char c :: nat) \<and> (of_char c :: nat) \<le> 90
     then char_of ((of_char c :: nat) + 32) else c)"

definition to_ascii_lowercase :: "string \<Rightarrow> string" where
  "to_ascii_lowercase s = map ascii_lower s"

fun strip_prefix :: "string \<Rightarrow> string \<Rightarrow> string option" where
  "strip_prefix [] s = Some s"
| "strip_prefix (p # ps) [] = None"
| "strip_prefix (p # ps) (c # cs) = (if p = c then strip_prefix ps cs else None)"

text \<open>The position of the first (\<open>find\<close>) and the last (\<open>rfind\<close>) occurrence of a character.\<close>

fun str_find :: "char \<Rightarrow> string \<Rightarrow> nat option" where
  "str_find x [] = None"
| "str_find x (c # cs) = (if c = x then Some 0 else map_option Suc (str_find x cs))"

fun str_rfind :: "char \<Rightarrow> string \<Rightarrow> nat option" where
  "str_rfind x [] = None"
| "str_rfind x (c # cs) =
     (case str_rfind x cs of Some i \<Rightarrow> Some (Suc i) | None \<Rightarrow> if c = x then Some 0 else None)"

fun split_once :: "char \<Rightarrow> string \<Rightarrow> (string \<times> string) option" where
  "split_once x [] = None"
| "split_once x (c # cs) =
     (if c = x then Some ([], cs) else map_option (\<lambda>(a, b). (c # a, b)) (split_once x cs))"

lemma strip_prefix_Some: "strip_prefix p s = Some r \<longleftrightarrow> s = p @ r"
  by (induction p s rule: strip_prefix.induct) auto

lemma split_once_Some: "split_once x s = Some (a, b) \<longleftrightarrow> s = a @ x # b \<and> x \<notin> set a"
proof (induction s arbitrary: a)
  case Nil
  then show ?case by simp
next
  case (Cons c cs)
  then show ?case by (cases a) auto
qed

lemma split_once_append [simp]: "x \<notin> set a \<Longrightarrow> split_once x (a @ x # b) = Some (a, b)"
  by (simp add: split_once_Some)

lemma split_once_None: "split_once x s = None \<longleftrightarrow> x \<notin> set s"
  by (induction s) auto

lemma str_find_append [simp]: "x \<notin> set a \<Longrightarrow> str_find x (a @ x # b) = Some (length a)"
  by (induction a) auto

lemma str_find_None: "str_find x s = None \<longleftrightarrow> x \<notin> set s"
  by (induction s) auto

lemma str_rfind_None: "str_rfind x s = None \<longleftrightarrow> x \<notin> set s"
  by (induction s) (auto split: option.splits)

lemma str_rfind_append [simp]: "x \<notin> set b \<Longrightarrow> str_rfind x (a @ x # b) = Some (length a)"
proof (induction a)
  case Nil
  then have "str_rfind x b = None" by (simp add: str_rfind_None)
  then show ?case by simp
qed simp

subsection \<open>Decimal numbers\<close>

definition digit_value :: "char \<Rightarrow> nat option" where
  "digit_value c = (if 48 \<le> (of_char c :: nat) \<and> (of_char c :: nat) \<le> 57
     then Some (of_char c - 48) else None)"

definition digit_char :: "nat \<Rightarrow> char" where
  "digit_char d = char_of (48 + d)"

text \<open>\<open>u32::to_string\<close> and its kin.\<close>

fun show_nat :: "nat \<Rightarrow> string" where
  "show_nat n = (if n < 10 then [digit_char n] else show_nat (n div 10) @ [digit_char (n mod 10)])"

declare show_nat.simps [simp del]

text \<open>
  \<open>str::parse\<close> for an unsigned type below \<open>bound\<close>: an optional plus sign, at least one digit,
  an error as soon as the accumulated value leaves the type.
\<close>

fun parse_digits :: "nat \<Rightarrow> nat \<Rightarrow> string \<Rightarrow> nat option" where
  "parse_digits bound acc [] = Some acc"
| "parse_digits bound acc (c # cs) =
     (case digit_value c of
        None \<Rightarrow> None
      | Some d \<Rightarrow> if acc * 10 + d < bound then parse_digits bound (acc * 10 + d) cs else None)"

definition parse_uint :: "nat \<Rightarrow> string \<Rightarrow> nat option" where
  "parse_uint bound s =
     (case s of
        [] \<Rightarrow> None
      | c # cs \<Rightarrow> if c = CHR ''+''
          then (if cs = [] then None else parse_digits bound 0 cs)
          else parse_digits bound 0 s)"

lemma digit_value_char [simp]: "d < 10 \<Longrightarrow> digit_value (digit_char d) = Some d"
  by (auto simp: digit_value_def digit_char_def)

lemma digit_char_inject: "a < 10 \<Longrightarrow> b < 10 \<Longrightarrow> digit_char a = digit_char b \<longleftrightarrow> a = b"
  by (metis digit_value_char option.inject)

lemma show_nat_nonempty [simp]: "show_nat n \<noteq> []"
  by (subst show_nat.simps) simp

lemma show_nat_digits: "c \<in> set (show_nat n) \<Longrightarrow> digit_value c \<noteq> None"
proof (induction n rule: show_nat.induct)
  case (1 n)
  show ?case
  proof (cases "n < 10")
    case True
    with "1.prems" show ?thesis by (simp add: show_nat.simps [of n])
  next
    case False
    with "1.prems" have "c \<in> set (show_nat (n div 10)) \<or> c = digit_char (n mod 10)"
      by (auto simp: show_nat.simps [of n])
    with "1.IH" False show ?thesis by auto
  qed
qed

lemma show_nat_not_sign: "digit_value c = None \<Longrightarrow> c \<notin> set (show_nat n)"
  using show_nat_digits by blast

lemma parse_digits_append:
  "parse_digits bound acc (s @ t) = Option.bind (parse_digits bound acc s) (\<lambda>a. parse_digits bound a t)"
  by (induction s arbitrary: acc) (auto split: option.splits)

lemma parse_digits_show_nat: "n < bound \<Longrightarrow> parse_digits bound 0 (show_nat n) = Some n"
proof (induction n rule: show_nat.induct)
  case (1 n)
  show ?case
  proof (cases "n < 10")
    case True
    with "1.prems" show ?thesis by (subst show_nat.simps) simp
  next
    case False
    with "1.prems" have "n div 10 < bound" by (meson div_le_dividend le_less_trans)
    with "1.IH" False have "parse_digits bound 0 (show_nat (n div 10)) = Some (n div 10)" by simp
    with False "1.prems" show ?thesis
      by (subst show_nat.simps) (simp add: parse_digits_append)
  qed
qed

lemma parse_uint_show_nat: "n < bound \<Longrightarrow> parse_uint bound (show_nat n) = Some n"
proof -
  assume n: "n < bound"
  have "CHR ''+'' \<notin> set (show_nat n)" by (rule show_nat_not_sign) (simp add: digit_value_def)
  moreover obtain c cs where "show_nat n = c # cs" by (cases "show_nat n") auto
  ultimately show ?thesis
    using parse_digits_show_nat [OF n] by (auto simp: parse_uint_def)
qed

lemma parse_digits_less: "acc < bound \<Longrightarrow> parse_digits bound acc s = Some n \<Longrightarrow> n < bound"
  by (induction s arbitrary: acc) (auto split: option.splits if_splits)

lemma parse_digits_bound_0: "s \<noteq> [] \<Longrightarrow> parse_digits 0 acc s = None"
  by (cases s) (auto split: option.splits)

lemma parse_uint_cases:
  assumes "parse_uint bound s = Some n"
  obtains ds where "ds \<noteq> []" and "parse_digits bound 0 ds = Some n"
  using assms by (cases s) (auto simp: parse_uint_def simp del: parse_digits.simps split: if_splits)

lemma parse_uint_less: "parse_uint bound s = Some n \<Longrightarrow> n < bound"
  by (erule parse_uint_cases, cases "bound = 0")
    (auto simp: parse_digits_bound_0 dest: parse_digits_less)

end
