(* ===== verification/Relayd_Ip.thy ===== *)
theory Relayd_Ip
  imports Relayd_Prelude "HOL-Library.Monad_Syntax"
begin

text \<open>
  \<open>std::net::IpAddr\<close> of the Rust standard library, as far as relayd uses it: parsing an
  address literal (\<open>IpAddr::from_str\<close>, called by \<open>parse_ip_literal\<close>, by the runtimes'
  \<open>bind_addr\<close> and by the netlink runtime's \<open>bound_target\<close>) and printing one (\<open>to_string\<close>, used by the
  netlink runtime's snapshot). A parser is a function from the remaining input to the value
  read and the rest of the input; a failed read consumes nothing.
\<close>

datatype ip_addr = V4 u8 u8 u8 u8 | V6 "u16 list"

fun ip_wf :: "ip_addr \<Rightarrow> bool" where
  "ip_wf (V4 _ _ _ _) = True"
| "ip_wf (V6 gs) = (length gs = 8)"

fun is_ipv6 :: "ip_addr \<Rightarrow> bool" where
  "is_ipv6 (V4 _ _ _ _) = False"
| "is_ipv6 (V6 _) = True"

subsection \<open>Parsing\<close>

definition to_digit :: "nat \<Rightarrow> char \<Rightarrow> nat option" where
  "to_digit radix c =
     (let n = (of_char c :: nat);
          v = (if 48 \<le> n \<and> n \<le> 57 then Some (n - 48)
               else if 97 \<le> n \<and> n \<le> 122 then Some (n - 87)
               else if 65 \<le> n \<and> n \<le> 90 then Some (n - 55)
               else None)
      in case v of None \<Rightarrow> None | Some d \<Rightarrow> if d < radix then Some d else None)"

fun read_digits :: "nat \<Rightarrow> nat \<Rightarrow> nat \<Rightarrow> nat \<Rightarrow> string \<Rightarrow> (nat \<times> nat \<times> string) option" where
  "read_digits radix max_digits count acc [] = Some (count, acc, [])"
| "read_digits radix max_digits count acc (c # cs) =
     (case to_digit radix c of
        None \<Rightarrow> Some (count, acc, c # cs)
      | Some d \<Rightarrow>
          if max_digits < count + 1 then None
          else read_digits radix max_digits (count + 1) (acc * radix + d) cs)"

definition read_number :: "nat \<Rightarrow> nat \<Rightarrow> bool \<Rightarrow> nat \<Rightarrow> string \<Rightarrow> (nat \<times> string) option" where
  "read_number radix max_digits allow_zero_prefix bound s =
     (case read_digits radix max_digits 0 0 s of
        None \<Rightarrow> None
      | Some (count, v, rest) \<Rightarrow>
          if count = 0 then None
          else if \<not> allow_zero_prefix \<and> take 1 s = ''0'' \<and> 1 < count then None
          else if v < bound then Some (v, rest) else None)"

definition read_separator :: "char \<Rightarrow> nat \<Rightarrow> (string \<Rightarrow> ('a \<times> string) option) \<Rightarrow> string \<Rightarrow> ('a \<times> string) option" where
  "read_separator sep i inner s =
     (if 0 < i then (case s of [] \<Rightarrow> None | c # cs \<Rightarrow> if c = sep then inner cs else None)
      else inner s)"

definition read_octet :: "string \<Rightarrow> (nat \<times> string) option" where
  "read_octet = read_number 10 3 False 256"

definition read_ipv4_addr :: "string \<Rightarrow> ((u8 \<times> u8 \<times> u8 \<times> u8) \<times> string) option" where
  "read_ipv4_addr s0 = do {
     (a, s1) \<leftarrow> read_separator CHR ''.'' 0 read_octet s0;
     (b, s2) \<leftarrow> read_separator CHR ''.'' 1 read_octet s1;
     (c, s3) \<leftarrow> read_separator CHR ''.'' 2 read_octet s2;
     (d, s4) \<leftarrow> read_separator CHR ''.'' 3 read_octet s3;
     Some ((of_nat a, of_nat b, of_nat c, of_nat d), s4)
   }"

definition be_u16 :: "u8 \<Rightarrow> u8 \<Rightarrow> u16" where
  "be_u16 hi lo = of_nat (256 * unat hi + unat lo)"

text \<open>
  \<open>read_groups r i s\<close> reads the groups \<open>i\<close>, \<open>i + 1\<close>, ... with \<open>r\<close> slots left; the flag says
  that the last two slots came from an embedded IPv4 address.
\<close>

fun read_groups :: "nat \<Rightarrow> nat \<Rightarrow> string \<Rightarrow> u16 list \<times> bool \<times> string" where
  "read_groups 0 i s = ([], False, s)"
| "read_groups (Suc r) i s =
     (case (if 0 < r then read_separator CHR '':'' i read_ipv4_addr s else None) of
        Some ((a, b, c, d), rest) \<Rightarrow> ([be_u16 a b, be_u16 c d], True, rest)
      | None \<Rightarrow>
          (case read_separator CHR '':'' i (read_number 16 4 True 65536) s of
             None \<Rightarrow> ([], False, s)
           | Some (g, rest) \<Rightarrow>
               (case read_groups r (Suc i) rest of
                  (gs, v4, rest') \<Rightarrow> (of_nat g # gs, v4, rest'))))"

definition read_ipv6_addr :: "string \<Rightarrow> (u16 list \<times> string) option" where
  "read_ipv6_addr s =
     (case read_groups 8 0 s of
        (head, head_ipv4, s1) \<Rightarrow>
          if length head = 8 then Some (head, s1)
          else if head_ipv4 then None
          else (case strip_prefix ''::'' s1 of
                  None \<Rightarrow> None
                | Some s2 \<Rightarrow>
                    (case read_groups (8 - (length head + 1)) 0 s2 of
                       (tail, _, s3) \<Rightarrow>
                         Some (head @ replicate (8 - length head - length tail) 0 @ tail, s3))))"

definition ip_addr_from_str :: "string \<Rightarrow> ip_addr option" where
  "ip_addr_from_str s =
     (case read_ipv4_addr s of
        Some ((a, b, c, d), rest) \<Rightarrow> if rest = [] then Some (V4 a b c d) else None
      | None \<Rightarrow>
          (case read_ipv6_addr s of
             Some (gs, rest) \<Rightarrow> if rest = [] then Some (V6 gs) else None
           | None \<Rightarrow> None))"

subsection \<open>Printing\<close>

definition hex_char :: "nat \<Rightarrow> char" where
  "hex_char d = (if d < 10 then char_of (48 + d) else char_of (87 + d))"

fun show_hex :: "nat \<Rightarrow> string" where
  "show_hex n = (if n < 16 then [hex_char n] else show_hex (n div 16) @ [hex_char (n mod 16)])"

declare show_hex.simps [simp del]

fun fmt_subslice :: "u16 list \<Rightarrow> string" where
  "fmt_subslice [] = []"
| "fmt_subslice [g] = show_hex (unat g)"
| "fmt_subslice (g # gs) = show_hex (unat g) @ '':'' @ fmt_subslice gs"

text \<open>The first longest run of zero segments: the scan keeps the longest and the current span.\<close>

fun zero_span :: "nat \<Rightarrow> nat \<times> nat \<Rightarrow> nat \<times> nat \<Rightarrow> u16 list \<Rightarrow> nat \<times> nat" where
  "zero_span i longest current [] = longest"
| "zero_span i longest current (g # gs) =
     (if g = 0 then
        (let current' = (if snd current = 0 then i else fst current, snd current + 1)
         in zero_span (Suc i) (if snd longest < snd current' then current' else longest) current' gs)
      else zero_span (Suc i) longest (0, 0) gs)"

definition show_ipv4 :: "u8 \<Rightarrow> u8 \<Rightarrow> u8 \<Rightarrow> u8 \<Rightarrow> string" where
  "show_ipv4 a b c d =
     show_nat (unat a) @ ''.'' @ show_nat (unat b) @ ''.'' @ show_nat (unat c) @ ''.'' @ show_nat (unat d)"

definition show_ipv6 :: "u16 list \<Rightarrow> string" where
  "show_ipv6 gs =
     (if take 6 gs = [0, 0, 0, 0, 0, 0xFFFF] \<and> length gs = 8 then
        ''::ffff:'' @ show_ipv4 (of_nat (unat (gs ! 6) div 256)) (of_nat (unat (gs ! 6) mod 256))
                               (of_nat (unat (gs ! 7) div 256)) (of_nat (unat (gs ! 7) mod 256))
      else
        (case zero_span 0 (0, 0) (0, 0) gs of
           (start, len) \<Rightarrow>
             if 1 < len then fmt_subslice (take start gs) @ ''::'' @ fmt_subslice (drop (start + len) gs)
             else fmt_subslice gs))"

fun ip_to_string :: "ip_addr \<Rightarrow> string" where
  "ip_to_string (V4 a b c d) = show_ipv4 a b c d"
| "ip_to_string (V6 gs) = show_ipv6 gs"

subsection \<open>Lemmas\<close>

lemma to_digit_digit_char [simp]: "d < 10 \<Longrightarrow> to_digit 10 (digit_char d) = Some d"
  by (simp add: to_digit_def digit_char_def)

lemma show_nat_1: "n < 10 \<Longrightarrow> show_nat n = [digit_char n]"
  by (simp add: show_nat.simps)

lemma show_nat_2: "10 \<le> n \<Longrightarrow> n < 100 \<Longrightarrow> show_nat n = [digit_char (n div 10), digit_char (n mod 10)]"
  by (subst show_nat.simps) (simp add: show_nat_1)

lemma show_nat_3:
  "100 \<le> n \<Longrightarrow> n < 1000 \<Longrightarrow>
     show_nat n = [digit_char (n div 100), digit_char (n div 10 mod 10), digit_char (n mod 10)]"
  by (subst show_nat.simps) (simp add: show_nat_2 div_mult2_eq [symmetric])

lemma digit_char_neq_0: "0 < d \<Longrightarrow> d < 10 \<Longrightarrow> digit_char d \<noteq> CHR ''0''"
proof -
  assume "0 < d" "d < 10"
  moreover have "CHR ''0'' = digit_char 0" by code_simp
  ultimately show ?thesis by (simp add: digit_char_inject)
qed

definition no_digit_ahead :: "string \<Rightarrow> bool" where
  "no_digit_ahead rest = (case rest of [] \<Rightarrow> True | c # _ \<Rightarrow> to_digit 10 c = None)"

lemma read_digits_stop: "no_digit_ahead rest \<Longrightarrow> read_digits 10 m count acc rest = Some (count, acc, rest)"
  by (cases rest) (auto simp: no_digit_ahead_def)

lemma read_octet_digits:
  assumes "no_digit_ahead rest"
  shows "d < 10 \<Longrightarrow> read_octet (digit_char d # rest) = Some (d, rest)"
    and "0 < c \<Longrightarrow> c < 10 \<Longrightarrow> d < 10 \<Longrightarrow>
      read_octet (digit_char c # digit_char d # rest) = Some (c * 10 + d, rest)"
    and "0 < b \<Longrightarrow> b < 10 \<Longrightarrow> c < 10 \<Longrightarrow> d < 10 \<Longrightarrow> (b * 10 + c) * 10 + d < 256 \<Longrightarrow>
      read_octet (digit_char b # digit_char c # digit_char d # rest) = Some ((b * 10 + c) * 10 + d, rest)"
  by (simp_all add: read_octet_def read_number_def digit_char_neq_0 read_digits_stop [OF assms])

lemma read_octet_show_nat:
  assumes n: "n < 256" and rest: "no_digit_ahead rest"
  shows "read_octet (show_nat n @ rest) = Some (n, rest)"
proof -
  consider "n < 10" | "10 \<le> n" "n < 100" | "100 \<le> n" "n < 1000" using n by linarith
  then show ?thesis
  proof cases
    case 1
    then show ?thesis by (simp add: show_nat_1 read_octet_digits [OF rest])
  next
    case 2
    then show ?thesis
      using read_octet_digits(2) [OF rest, of "n div 10" "n mod 10"] by (simp add: show_nat_2)
  next
    case 3
    have "n div 100 = n div 10 div 10" by (simp add: div_mult2_eq [symmetric])
    then have eq: "(n div 100 * 10 + n div 10 mod 10) * 10 + n mod 10 = n"
      by (simp only: div_mult_mod_eq)
    show ?thesis
      using read_octet_digits(3) [OF rest, of "n div 100" "n div 10 mod 10" "n mod 10", unfolded eq] 3 n
      by (simp add: show_nat_3)
  qed
qed

lemma no_digit_ahead_dot [simp]: "no_digit_ahead (CHR ''.'' # s)"
  by (simp add: no_digit_ahead_def to_digit_def)

lemma no_digit_ahead_Nil [simp]: "no_digit_ahead []"
  by (simp add: no_digit_ahead_def)

lemma read_ipv4_show:
  assumes "no_digit_ahead rest"
  shows "read_ipv4_addr (show_ipv4 a b c d @ rest) = Some ((a, b, c, d), rest)"
proof -
  have bound: "unat (x :: u8) < 256" for x using unsigned_less [of x] by simp
  show ?thesis
    using assms
    by (simp add: read_ipv4_addr_def read_separator_def show_ipv4_def read_octet_show_nat bound)
qed

lemma length_read_groups: "length (fst (read_groups r i s)) \<le> r"
proof (induction r i s rule: read_groups.induct)
  case (2 r i s)
  then show ?case by (auto split: option.splits prod.splits) fastforce?
qed simp

lemma length_read_ipv6_addr:
  assumes "read_ipv6_addr s = Some (gs, rest)"
  shows "length gs = 8"
proof -
  obtain head v4 s1 where h: "read_groups 8 0 s = (head, v4, s1)" by (metis prod_cases3)
  have le: "length head \<le> 8" using length_read_groups [of 8 0 s] h by simp
  show ?thesis
  proof (cases "length head = 8")
    case True
    with assms h show ?thesis by (simp add: read_ipv6_addr_def)
  next
    case False
    with assms h obtain s2 where s2: "strip_prefix ''::'' s1 = Some s2" "\<not> v4"
      by (auto simp: read_ipv6_addr_def split: option.splits if_splits)
    obtain tail v s3 where t: "read_groups (8 - (length head + 1)) 0 s2 = (tail, v, s3)"
      by (metis prod_cases3)
    have "length tail \<le> 8 - (length head + 1)"
      using length_read_groups [of "8 - (length head + 1)" 0 s2] t by simp
    moreover have "gs = head @ replicate (8 - length head - length tail) 0 @ tail"
      using assms h False s2 t by (simp add: read_ipv6_addr_def)
    ultimately show ?thesis using le False by simp
  qed
qed

lemma ip_addr_from_str_wf: "ip_addr_from_str s = Some a \<Longrightarrow> ip_wf a"
  by (auto simp: ip_addr_from_str_def dest: length_read_ipv6_addr split: option.splits if_splits prod.splits)

end
