(* ===== verification/Relayd_Config.thy ===== *)
theory Relayd_Config
  imports Relayd_Ip
begin

text \<open>
  Configuration (\<open>src/src/config.rs\<close>): the parsers for listen addresses, port ranges and
  ports, and \<open>Config::from_env_map\<close>, which reads every setting from an environment map. The
  model fixes the Linux build of the binary (\<open>cfg!(target_os = "linux")\<close> is true).
\<close>

record http_listen =
  hl_host :: string
  hl_port :: u16

record port_range =
  pr_start :: u16
  pr_end :: u16

definition port_range_contains :: "port_range \<Rightarrow> u16 \<Rightarrow> bool" where
  "port_range_contains r port \<longleftrightarrow> pr_start r \<le> port \<and> port \<le> pr_end r"

datatype runtime_mode = Proxy | Netlink

fun runtime_mode_as_str :: "runtime_mode \<Rightarrow> string" where
  "runtime_mode_as_str Proxy = ''proxy''"
| "runtime_mode_as_str Netlink = ''netlink''"

datatype config_error =
    MissingEnv string
  | EmptyAuthToken
  | InvalidHttpListen
  | InvalidPortRange
  | InvalidPort
  | InvalidHost
  | InvalidInteger string
  | InvalidRuntimeMode
  | InvalidNftablesName string

definition runtime_mode_from_str :: "string \<Rightarrow> config_error + runtime_mode" where
  "runtime_mode_from_str value =
     (let l = to_ascii_lowercase value
      in if l = ''proxy'' then Ok Proxy
         else if l = ''netlink'' then Ok Netlink
         else Err InvalidRuntimeMode)"

record config =
  http_listen_host :: string
  http_listen_port :: u16
  proxy_listen_host :: string
  port_range_cfg :: port_range
  auth_token :: string
  tcp_session_model_enabled :: bool
  tcp_session_model_workers :: u32
  tcp_session_model_accept_balanced :: bool
  tcp_session_model_sharded_accept :: bool
  tcp_session_model_max_active :: u32
  tcp_splice_enabled :: bool
  force_tcp_copy_fallback :: bool
  udp_session_workers :: u32
  udp_io_uring_enabled :: bool
  udp_gro_enabled :: bool
  udp_dataplane_redesign_enabled :: bool
  udp_fast_path_enabled :: bool
  udp_fast_path_segment_size :: u32
  udp_fast_path_gso_burst :: u32
  udp_max_sessions :: usize
  udp_batch_enabled :: bool
  udp_socket_recv_buffer_bytes :: u32
  udp_socket_send_buffer_bytes :: u32
  runtime_apply_timeout_ms :: u32
  restore_sweep_timeout_ms :: u32
  runtime_mode_cfg :: runtime_mode
  nftables_table :: string
  nftables_chain :: string
  db_path :: string

type_synonym env_map = "string \<rightharpoonup> string"

definition parse_port :: "string \<Rightarrow> config_error + u16" where
  "parse_port raw =
     (if raw = [] then Err InvalidPort
      else case parse_uint (2 ^ 32) raw of
             None \<Rightarrow> Err InvalidPort
           | Some parsed \<Rightarrow>
               if parsed = 0 \<or> 65535 < parsed then Err InvalidPort else Ok (of_nat parsed))"

definition parse_ip_literal :: "string \<Rightarrow> config_error + ip_addr" where
  "parse_ip_literal host = ok_or (ip_addr_from_str host) InvalidHost"

definition parse_http_listen :: "string \<Rightarrow> config_error + http_listen" where
  "parse_http_listen raw =
     (if raw = [] then Err InvalidHttpListen
      else case strip_prefix '':'' raw of
        Some port \<Rightarrow>
          question (parse_port port) (\<lambda>p. Ok \<lparr>hl_host = ''127.0.0.1'', hl_port = p\<rparr>)
      | None \<Rightarrow>
          if take 1 raw = ''['' then
            question (ok_or (str_find CHR '']'' raw) InvalidHttpListen) (\<lambda>end_ix.
              if take 1 (drop (end_ix + 1) raw) \<noteq> '':'' then Err InvalidHttpListen
              else
                let host = drop 1 (take end_ix raw)
                in question (parse_ip_literal host) (\<lambda>_.
                     question (parse_port (drop (end_ix + 2) raw)) (\<lambda>p.
                       Ok \<lparr>hl_host = host, hl_port = p\<rparr>)))
          else
            question (ok_or (str_rfind CHR '':'' raw) InvalidHttpListen) (\<lambda>idx.
              let host = take idx raw
              in if host = [] then Err InvalidHttpListen
                 else question (parse_ip_literal host) (\<lambda>_.
                        question (parse_port (drop (idx + 1) raw)) (\<lambda>p.
                          Ok \<lparr>hl_host = host, hl_port = p\<rparr>))))"

definition parse_port_range :: "string \<Rightarrow> config_error + port_range" where
  "parse_port_range raw =
     question (ok_or (split_once CHR ''-'' raw) InvalidPortRange) (\<lambda>(s, e).
       question (map_err (\<lambda>_. InvalidPortRange) (parse_port s)) (\<lambda>start_port.
         question (map_err (\<lambda>_. InvalidPortRange) (parse_port e)) (\<lambda>end_port.
           if end_port < start_port then Err InvalidPortRange
           else Ok \<lparr>pr_start = start_port, pr_end = end_port\<rparr>)))"

definition env_bool_with_default :: "env_map \<Rightarrow> string \<Rightarrow> bool \<Rightarrow> bool" where
  "env_bool_with_default env name default_value =
     (case env name of
        None \<Rightarrow> default_value
      | Some value \<Rightarrow> to_ascii_lowercase value \<in> {''1'', ''true'', ''yes'', ''on''})"

definition env_bool :: "env_map \<Rightarrow> string \<Rightarrow> bool" where
  "env_bool env name = env_bool_with_default env name False"

definition env_u32 :: "env_map \<Rightarrow> string \<Rightarrow> u32 \<Rightarrow> config_error + u32" where
  "env_u32 env name default_value =
     (case env name of
        Some value \<Rightarrow> map_ok of_nat (ok_or (parse_uint (2 ^ 32) value) (InvalidInteger name))
      | None \<Rightarrow> Ok default_value)"

definition env_nonzero_usize :: "env_map \<Rightarrow> string \<Rightarrow> usize \<Rightarrow> config_error + usize" where
  "env_nonzero_usize env name default_value =
     (case env name of
        Some value \<Rightarrow>
          (case parse_uint (2 ^ 64) value of
             Some parsed \<Rightarrow> if 0 < parsed then Ok parsed else Err (InvalidInteger name)
           | None \<Rightarrow> Err (InvalidInteger name))
      | None \<Rightarrow> Ok default_value)"

definition env_nonempty_string :: "env_map \<Rightarrow> string \<Rightarrow> string \<Rightarrow> config_error + string" where
  "env_nonempty_string env name default_value =
     (let value = unwrap_or (env name) default_value
      in if value = [] then Err (InvalidNftablesName name) else Ok value)"

definition target_os_linux :: bool where
  "target_os_linux = True"

definition from_env_map :: "env_map \<Rightarrow> config_error + config" where
  "from_env_map env =
     question (parse_http_listen (unwrap_or (env ''HTTP_LISTEN'') '':8080'')) (\<lambda>listen.
     let proxy_host = unwrap_or (env ''PROXY_LISTEN_HOST'') ''0.0.0.0'' in
     question (parse_ip_literal proxy_host) (\<lambda>_.
     question (parse_port_range (unwrap_or (env ''PORT_RANGE'') ''10000-30000'')) (\<lambda>range.
     question (ok_or (env ''AUTH_TOKEN'') (MissingEnv ''AUTH_TOKEN'')) (\<lambda>token.
     if token = [] then Err EmptyAuthToken else
     question (env_u32 env ''TCP_SESSION_MODEL_WORKERS'' 0) (\<lambda>workers.
     question (env_u32 env ''TCP_SESSION_MODEL_MAX_ACTIVE'' 256) (\<lambda>max_active.
     question (env_u32 env ''UDP_SESSION_WORKERS'' 0) (\<lambda>udp_workers.
     question (env_u32 env ''UDP_FAST_PATH_SEGMENT_SIZE'' 1472) (\<lambda>segment_size.
     question (env_u32 env ''UDP_FAST_PATH_GSO_BURST'' 16) (\<lambda>gso_burst.
     question (env_nonzero_usize env ''UDP_MAX_SESSIONS'' 65536) (\<lambda>max_sessions.
     question (env_u32 env ''UDP_SOCKET_RCVBUF_BYTES'' (8 * 1024 * 1024)) (\<lambda>rcvbuf.
     question (env_u32 env ''UDP_SOCKET_SNDBUF_BYTES'' (8 * 1024 * 1024)) (\<lambda>sndbuf.
     question (env_u32 env ''RUNTIME_APPLY_TIMEOUT_MS'' 2000) (\<lambda>apply_timeout.
     question (env_u32 env ''RESTORE_SWEEP_TIMEOUT_MS'' 30000) (\<lambda>restore_timeout.
     question (runtime_mode_from_str (unwrap_or (env ''RELAYD_RUNTIME_MODE'') ''proxy'')) (\<lambda>mode.
     question (env_nonempty_string env ''RELAYD_NFTABLES_TABLE'' ''relayd'') (\<lambda>table.
     question (env_nonempty_string env ''RELAYD_NFTABLES_CHAIN'' ''mapping'') (\<lambda>chain.
     Ok \<lparr>
       http_listen_host = hl_host listen,
       http_listen_port = hl_port listen,
       proxy_listen_host = proxy_host,
       port_range_cfg = range,
       auth_token = token,
       tcp_session_model_enabled = env_bool env ''TCP_SESSION_MODEL_ENABLED'',
       tcp_session_model_workers = workers,
       tcp_session_model_accept_balanced = env_bool env ''TCP_SESSION_MODEL_ACCEPT_BALANCED'',
       tcp_session_model_sharded_accept = env_bool env ''TCP_SESSION_MODEL_SHARDED_ACCEPT'',
       tcp_session_model_max_active = max_active,
       tcp_splice_enabled = env_bool env ''TCP_SPLICE_ENABLED'',
       force_tcp_copy_fallback = env_bool env ''FORCE_TCP_COPY_FALLBACK'',
       udp_session_workers = udp_workers,
       udp_io_uring_enabled = env_bool env ''UDP_IO_URING_ENABLED'',
       udp_gro_enabled = env_bool env ''UDP_GRO_ENABLED'',
       udp_dataplane_redesign_enabled = env_bool env ''UDP_DATAPLANE_REDESIGN_ENABLED'',
       udp_fast_path_enabled = env_bool env ''UDP_FAST_PATH_ENABLED'',
       udp_fast_path_segment_size = segment_size,
       udp_fast_path_gso_burst = gso_burst,
       udp_max_sessions = max_sessions,
       udp_batch_enabled = env_bool_with_default env ''UDP_BATCH_ENABLED'' target_os_linux,
       udp_socket_recv_buffer_bytes = rcvbuf,
       udp_socket_send_buffer_bytes = sndbuf,
       runtime_apply_timeout_ms = apply_timeout,
       restore_sweep_timeout_ms = restore_timeout,
       runtime_mode_cfg = mode,
       nftables_table = table,
       nftables_chain = chain,
       db_path = unwrap_or (env ''SQLITE_PATH'') ''relayd.sqlite3''
     \<rparr>)))))))))))))))))"

subsection \<open>Lemmas\<close>

lemma unat_of_nat_u16: "n < 65536 \<Longrightarrow> unat (of_nat n :: u16) = n"
  by (simp add: unat_of_nat take_bit_nat_eq_self_iff unsigned_of_nat)

lemma parse_port_eq_Ok:
  "parse_port raw = Ok p \<longleftrightarrow>
     (\<exists>n. parse_uint (2 ^ 32) raw = Some n \<and> 0 < n \<and> n \<le> 65535 \<and> p = of_nat n)"
  by (auto simp: parse_port_def parse_uint_def split: option.splits list.splits)

lemma parse_port_nonzero: "parse_port raw = Ok p \<Longrightarrow> p \<noteq> 0"
proof -
  assume "parse_port raw = Ok p"
  then obtain n where "0 < n" "n \<le> 65535" "p = of_nat n" by (auto simp: parse_port_eq_Ok)
  then have "unat p = n" by (simp add: unat_of_nat_u16)
  with \<open>0 < n\<close> show ?thesis by auto
qed

lemma parse_port_show_nat:
  "parse_port (show_nat n) = (if 0 < n \<and> n \<le> 65535 then Ok (of_nat n) else Err InvalidPort)"
  if "n < 2 ^ 32"
  using parse_uint_show_nat [OF that] by (auto simp: parse_port_def)

lemma parse_ip_literal_eq_Ok [simp]: "parse_ip_literal h = Ok a \<longleftrightarrow> ip_addr_from_str h = Some a"
  by (simp add: parse_ip_literal_def)

lemma loopback_literal [simp]: "ip_addr_from_str ''127.0.0.1'' = Some (V4 127 0 0 1)"
  by code_simp

lemma parse_http_listen_Ok:
  assumes "parse_http_listen raw = Ok l"
  shows "(\<exists>a. ip_addr_from_str (hl_host l) = Some a) \<and> hl_port l \<noteq> 0"
  using assms
  by (auto simp: parse_http_listen_def question_eq_Ok Let_def dest: parse_port_nonzero
      split: option.splits if_splits)

lemma parse_port_range_eq_Ok:
  "parse_port_range raw = Ok r \<longleftrightarrow>
     (\<exists>s e. split_once CHR ''-'' raw = Some (s, e) \<and> parse_port s = Ok (pr_start r) \<and>
        parse_port e = Ok (pr_end r) \<and> pr_start r \<le> pr_end r)"
  by (cases r) (auto simp: parse_port_range_def question_eq_Ok not_less split: if_splits)

text \<open>What every configuration that \<open>from_env_map\<close> accepts satisfies.\<close>

definition config_wf :: "config \<Rightarrow> bool" where
  "config_wf c \<longleftrightarrow>
     ip_addr_from_str (http_listen_host c) \<noteq> None \<and> http_listen_port c \<noteq> 0 \<and>
     ip_addr_from_str (proxy_listen_host c) \<noteq> None \<and>
     pr_start (port_range_cfg c) \<noteq> 0 \<and> pr_start (port_range_cfg c) \<le> pr_end (port_range_cfg c) \<and>
     auth_token c \<noteq> [] \<and> 0 < udp_max_sessions c \<and>
     nftables_table c \<noteq> [] \<and> nftables_chain c \<noteq> []"

lemma env_nonzero_usize_Ok: "env_nonzero_usize env n d = Ok v \<Longrightarrow> 0 < d \<Longrightarrow> 0 < v"
  by (auto simp: env_nonzero_usize_def split: option.splits if_splits)

lemma env_nonempty_string_Ok: "env_nonempty_string env n d = Ok v \<Longrightarrow> v \<noteq> []"
  by (auto simp: env_nonempty_string_def Let_def split: if_splits)

lemma from_env_map_Ok:
  assumes "from_env_map env = Ok c"
  shows "config_wf c \<and> env ''AUTH_TOKEN'' = Some (auth_token c)"
proof -
  from assms obtain l r where listen: "parse_http_listen (unwrap_or (env ''HTTP_LISTEN'') '':8080'') = Ok l"
      "http_listen_host c = hl_host l" "http_listen_port c = hl_port l"
    and range: "parse_port_range (unwrap_or (env ''PORT_RANGE'') ''10000-30000'') = Ok r" "port_range_cfg c = r"
    and token: "env ''AUTH_TOKEN'' = Some (auth_token c)" "auth_token c \<noteq> []"
    and proxy: "parse_ip_literal (proxy_listen_host c) = Ok (the (ip_addr_from_str (proxy_listen_host c)))"
    and sessions: "env_nonzero_usize env ''UDP_MAX_SESSIONS'' 65536 = Ok (udp_max_sessions c)"
    and names: "env_nonempty_string env ''RELAYD_NFTABLES_TABLE'' ''relayd'' = Ok (nftables_table c)"
      "env_nonempty_string env ''RELAYD_NFTABLES_CHAIN'' ''mapping'' = Ok (nftables_chain c)"
    unfolding from_env_map_def Let_def by (auto simp: question_eq_Ok split: if_splits)
  show ?thesis
    using parse_http_listen_Ok [OF listen(1)] listen(2,3) range token proxy env_nonzero_usize_Ok [OF sessions]
      names [THEN env_nonempty_string_Ok] parse_port_nonzero
    by (auto simp: config_wf_def parse_port_range_eq_Ok)
qed

end
