(* ===== verification/Relayd_Metrics.thy ===== *)
theory Relayd_Metrics
  imports Relayd_Prelude
begin

text \<open>
  The process-wide counters (\<open>src/src/metrics.rs\<close>). A \<open>Counter\<close> and a \<open>Gauge\<close> are atomic
  64-bit cells whose relaxed \<open>fetch_add\<close> and \<open>fetch_sub\<close> wrap around. Fields of
  \<open>Metrics\<close> keep their names behind the prefix \<open>m_\<close>, fields of the JSON snapshot behind \<open>jm_\<close>.
\<close>

type_synonym counter = u64
type_synonym gauge = u64

definition counter_add :: "u64 \<Rightarrow> counter \<Rightarrow> counter" where
  "counter_add amount c = c + amount"

definition counter_inc :: "counter \<Rightarrow> counter" where
  "counter_inc = counter_add 1"

definition counter_load :: "counter \<Rightarrow> u64" where
  "counter_load c = c"

definition gauge_inc :: "gauge \<Rightarrow> gauge" where
  "gauge_inc g = g + 1"

definition gauge_dec :: "gauge \<Rightarrow> gauge" where
  "gauge_dec g = g - 1"

definition gauge_load :: "gauge \<Rightarrow> u64" where
  "gauge_load g = g"

record metrics =
  m_allocations_total :: counter
  m_runtime_apply_total :: counter
  m_restore_failures_total :: counter
  m_rejected_no_host_total :: counter
  m_bind_fail_total :: counter
  m_tcp_splice_fast_path_total :: counter
  m_tcp_copy_fallback_total :: counter
  m_tcp_splice_attempt_total :: counter
  m_tcp_splice_success_total :: counter
  m_tcp_splice_fallback_total :: counter
  m_tcp_splice_hard_failure_total :: counter
  m_tcp_splice_fallback_forced_total :: counter
  m_tcp_splice_fallback_unsupported_total :: counter
  m_tcp_splice_fallback_runtime_error_total :: counter
  m_tcp_session_create_total :: counter
  m_tcp_session_close_total :: counter
  m_tcp_session_event_total :: counter
  m_tcp_session_worker_dispatch_total :: counter
  m_tcp_session_worker0_dispatch_total :: counter
  m_tcp_session_worker1_dispatch_total :: counter
  m_tcp_accept_handoff_total :: counter
  m_tcp_accept_handoff_worker0_total :: counter
  m_tcp_accept_handoff_worker1_total :: counter
  m_tcp_accept_handoff_worker2_total :: counter
  m_tcp_accept_handoff_worker3_total :: counter
  m_tcp_listener_accept_total :: counter
  m_tcp_listener_accept_worker0_total :: counter
  m_tcp_listener_accept_worker1_total :: counter
  m_tcp_listener_accept_worker2_total :: counter
  m_tcp_listener_accept_worker3_total :: counter
  m_tcp_upstream_connect_total :: counter
  m_tcp_upstream_connect_fail_total :: counter
  m_tcp_active_sessions :: gauge
  m_udp_packets_in_total :: counter
  m_udp_packets_out_total :: counter
  m_udp_bytes_in_total :: counter
  m_udp_bytes_out_total :: counter
  m_udp_recv_errors_total :: counter
  m_udp_send_errors_total :: counter
  m_udp_session_create_total :: counter
  m_udp_session_expire_total :: counter
  m_udp_batch_calls_total :: counter
  m_udp_batch_messages_total :: counter
  m_udp_drop_total :: counter
  m_udp_reply_primary_total :: counter
  m_udp_reply_drop_total :: counter
  m_udp_reply_stale_total :: counter
  m_udp_worker_packets_in_total :: counter
  m_udp_worker_packets_out_total :: counter
  m_udp_worker0_packets_in_total :: counter
  m_udp_worker1_packets_in_total :: counter
  m_udp_worker2_packets_in_total :: counter
  m_udp_worker3_packets_in_total :: counter
  m_udp_worker0_packets_out_total :: counter
  m_udp_worker1_packets_out_total :: counter
  m_udp_worker2_packets_out_total :: counter
  m_udp_worker3_packets_out_total :: counter
  m_udp_dataplane_redesign_packets_in_total :: counter
  m_udp_dataplane_redesign_packets_out_total :: counter
  m_udp_io_uring_submit_total :: counter
  m_udp_io_uring_cqe_total :: counter
  m_udp_io_uring_multishot_total :: counter
  m_udp_io_uring_buf_release_total :: counter
  m_udp_io_uring_fallback_total :: counter
  m_udp_fast_path_packets_in_total :: counter
  m_udp_fast_path_packets_out_total :: counter
  m_udp_fast_path_gso_send_total :: counter
  m_udp_fast_path_gro_recv_total :: counter
  m_udp_fast_path_fallback_total :: counter
  m_udp_fast_path_drop_total :: counter
  m_udp_active_sessions :: gauge
  m_restore_timeout_total :: counter
  m_http_non_loopback_bind_total :: counter

record json_metrics =
  jm_allocations_total :: u64
  jm_runtime_apply_total :: u64
  jm_restore_failures_total :: u64
  jm_rejected_no_host_total :: u64
  jm_bind_fail_total :: u64
  jm_tcp_splice_fast_path_total :: u64
  jm_tcp_copy_fallback_total :: u64
  jm_tcp_splice_attempt_total :: u64
  jm_tcp_splice_success_total :: u64
  jm_tcp_splice_fallback_total :: u64
  jm_tcp_splice_hard_failure_total :: u64
  jm_tcp_splice_fallback_forced_total :: u64
  jm_tcp_splice_fallback_unsupported_total :: u64
  jm_tcp_splice_fallback_runtime_error_total :: u64
  jm_tcp_session_create_total :: u64
  jm_tcp_session_close_total :: u64
  jm_tcp_session_event_total :: u64
  jm_tcp_session_worker_dispatch_total :: u64
  jm_tcp_session_worker0_dispatch_total :: u64
  jm_tcp_session_worker1_dispatch_total :: u64
  jm_tcp_accept_handoff_total :: u64
  jm_tcp_accept_handoff_worker0_total :: u64
  jm_tcp_accept_handoff_worker1_total :: u64
  jm_tcp_accept_handoff_worker2_total :: u64
  jm_tcp_accept_handoff_worker3_total :: u64
  jm_tcp_listener_accept_total :: u64
  jm_tcp_listener_accept_worker0_total :: u64
  jm_tcp_listener_accept_worker1_total :: u64
  jm_tcp_listener_accept_worker2_total :: u64
  jm_tcp_listener_accept_worker3_total :: u64
  jm_tcp_upstream_connect_total :: u64
  jm_tcp_upstream_connect_fail_total :: u64
  jm_tcp_active_sessions :: u64
  jm_udp_packets_in_total :: u64
  jm_udp_packets_out_total :: u64
  jm_udp_bytes_in_total :: u64
  jm_udp_bytes_out_total :: u64
  jm_udp_recv_errors_total :: u64
  jm_udp_send_errors_total :: u64
  jm_udp_session_create_total :: u64
  jm_udp_session_expire_total :: u64
  jm_udp_batch_calls_total :: u64
  jm_udp_batch_messages_total :: u64
  jm_udp_drop_total :: u64
  jm_udp_reply_primary_total :: u64
  jm_udp_reply_drop_total :: u64
  jm_udp_reply_stale_total :: u64
  jm_udp_worker_packets_in_total :: u64
  jm_udp_worker_packets_out_total :: u64
  jm_udp_worker0_packets_in_total :: u64
  jm_udp_worker1_packets_in_total :: u64
  jm_udp_worker2_packets_in_total :: u64
  jm_udp_worker3_packets_in_total :: u64
  jm_udp_worker0_packets_out_total :: u64
  jm_udp_worker1_packets_out_total :: u64
  jm_udp_worker2_packets_out_total :: u64
  jm_udp_worker3_packets_out_total :: u64
  jm_udp_dataplane_redesign_packets_in_total :: u64
  jm_udp_dataplane_redesign_packets_out_total :: u64
  jm_udp_io_uring_submit_total :: u64
  jm_udp_io_uring_cqe_total :: u64
  jm_udp_io_uring_multishot_total :: u64
  jm_udp_io_uring_buf_release_total :: u64
  jm_udp_io_uring_fallback_total :: u64
  jm_udp_fast_path_packets_in_total :: u64
  jm_udp_fast_path_packets_out_total :: u64
  jm_udp_fast_path_gso_send_total :: u64
  jm_udp_fast_path_gro_recv_total :: u64
  jm_udp_fast_path_fallback_total :: u64
  jm_udp_fast_path_drop_total :: u64
  jm_udp_active_sessions :: u64
  jm_restore_timeout_total :: u64
  jm_http_non_loopback_bind_total :: u64

definition metrics_default :: metrics where
  "metrics_default = \<lparr>
     m_allocations_total = 0,
     m_runtime_apply_total = 0,
     m_restore_failures_total = 0,
     m_rejected_no_host_total = 0,
     m_bind_fail_total = 0,
     m_tcp_splice_fast_path_total = 0,
     m_tcp_copy_fallback_total = 0,
     m_tcp_splice_attempt_total = 0,
     m_tcp_splice_success_total = 0,
     m_tcp_splice_fallback_total = 0,
     m_tcp_splice_hard_failure_total = 0,
     m_tcp_splice_fallback_forced_total = 0,
     m_tcp_splice_fallback_unsupported_total = 0,
     m_tcp_splice_fallback_runtime_error_total = 0,
     m_tcp_session_create_total = 0,
     m_tcp_session_close_total = 0,
     m_tcp_session_event_total = 0,
     m_tcp_session_worker_dispatch_total = 0,
     m_tcp_session_worker0_dispatch_total = 0,
     m_tcp_session_worker1_dispatch_total = 0,
     m_tcp_accept_handoff_total = 0,
     m_tcp_accept_handoff_worker0_total = 0,
     m_tcp_accept_handoff_worker1_total = 0,
     m_tcp_accept_handoff_worker2_total = 0,
     m_tcp_accept_handoff_worker3_total = 0,
     m_tcp_listener_accept_total = 0,
     m_tcp_listener_accept_worker0_total = 0,
     m_tcp_listener_accept_worker1_total = 0,
     m_tcp_listener_accept_worker2_total = 0,
     m_tcp_listener_accept_worker3_total = 0,
     m_tcp_upstream_connect_total = 0,
     m_tcp_upstream_connect_fail_total = 0,
     m_tcp_active_sessions = 0,
     m_udp_packets_in_total = 0,
     m_udp_packets_out_total = 0,
     m_udp_bytes_in_total = 0,
     m_udp_bytes_out_total = 0,
     m_udp_recv_errors_total = 0,
     m_udp_send_errors_total = 0,
     m_udp_session_create_total = 0,
     m_udp_session_expire_total = 0,
     m_udp_batch_calls_total = 0,
     m_udp_batch_messages_total = 0,
     m_udp_drop_total = 0,
     m_udp_reply_primary_total = 0,
     m_udp_reply_drop_total = 0,
     m_udp_reply_stale_total = 0,
     m_udp_worker_packets_in_total = 0,
     m_udp_worker_packets_out_total = 0,
     m_udp_worker0_packets_in_total = 0,
     m_udp_worker1_packets_in_total = 0,
     m_udp_worker2_packets_in_total = 0,
     m_udp_worker3_packets_in_total = 0,
     m_udp_worker0_packets_out_total = 0,
     m_udp_worker1_packets_out_total = 0,
     m_udp_worker2_packets_out_total = 0,
     m_udp_worker3_packets_out_total = 0,
     m_udp_dataplane_redesign_packets_in_total = 0,
     m_udp_dataplane_redesign_packets_out_total = 0,
     m_udp_io_uring_submit_total = 0,
     m_udp_io_uring_cqe_total = 0,
     m_udp_io_uring_multishot_total = 0,
     m_udp_io_uring_buf_release_total = 0,
     m_udp_io_uring_fallback_total = 0,
     m_udp_fast_path_packets_in_total = 0,
     m_udp_fast_path_packets_out_total = 0,
     m_udp_fast_path_gso_send_total = 0,
     m_udp_fast_path_gro_recv_total = 0,
     m_udp_fast_path_fallback_total = 0,
     m_udp_fast_path_drop_total = 0,
     m_udp_active_sessions = 0,
     m_restore_timeout_total = 0,
     m_http_non_loopback_bind_total = 0\<rparr>"

definition metrics_snapshot :: "metrics \<Rightarrow> json_metrics" where
  "metrics_snapshot m = \<lparr>
     jm_allocations_total = counter_load (m_allocations_total m),
     jm_runtime_apply_total = counter_load (m_runtime_apply_total m),
     jm_restore_failures_total = counter_load (m_restore_failures_total m),
     jm_rejected_no_host_total = counter_load (m_rejected_no_host_total m),
     jm_bind_fail_total = counter_load (m_bind_fail_total m),
     jm_tcp_splice_fast_path_total = counter_load (m_tcp_splice_fast_path_total m),
     jm_tcp_copy_fallback_total = counter_load (m_tcp_copy_fallback_total m),
     jm_tcp_splice_attempt_total = counter_load (m_tcp_splice_attempt_total m),
     jm_tcp_splice_success_total = counter_load (m_tcp_splice_success_total m),
     jm_tcp_splice_fallback_total = counter_load (m_tcp_splice_fallback_total m),
     jm_tcp_splice_hard_failure_total = counter_load (m_tcp_splice_hard_failure_total m),
     jm_tcp_splice_fallback_forced_total = counter_load (m_tcp_splice_fallback_forced_total m),
     jm_tcp_splice_fallback_unsupported_total = counter_load (m_tcp_splice_fallback_unsupported_total m),
     jm_tcp_splice_fallback_runtime_error_total = counter_load (m_tcp_splice_fallback_runtime_error_total m),
     jm_tcp_session_create_total = counter_load (m_tcp_session_create_total m),
     jm_tcp_session_close_total = counter_load (m_tcp_session_close_total m),
     jm_tcp_session_event_total = counter_load (m_tcp_session_event_total m),
     jm_tcp_session_worker_dispatch_total = counter_load (m_tcp_session_worker_dispatch_total m),
     jm_tcp_session_worker0_dispatch_total = counter_load (m_tcp_session_worker0_dispatch_total m),
     jm_tcp_session_worker1_dispatch_total = counter_load (m_tcp_session_worker1_dispatch_total m),
     jm_tcp_accept_handoff_total = counter_load (m_tcp_accept_handoff_total m),
     jm_tcp_accept_handoff_worker0_total = counter_load (m_tcp_accept_handoff_worker0_total m),
     jm_tcp_accept_handoff_worker1_total = counter_load (m_tcp_accept_handoff_worker1_total m),
     jm_tcp_accept_handoff_worker2_total = counter_load (m_tcp_accept_handoff_worker2_total m),
     jm_tcp_accept_handoff_worker3_total = counter_load (m_tcp_accept_handoff_worker3_total m),
     jm_tcp_listener_accept_total = counter_load (m_tcp_listener_accept_total m),
     jm_tcp_listener_accept_worker0_total = counter_load (m_tcp_listener_accept_worker0_total m),
     jm_tcp_listener_accept_worker1_total = counter_load (m_tcp_listener_accept_worker1_total m),
     jm_tcp_listener_accept_worker2_total = counter_load (m_tcp_listener_accept_worker2_total m),
     jm_tcp_listener_accept_worker3_total = counter_load (m_tcp_listener_accept_worker3_total m),
     jm_tcp_upstream_connect_total = counter_load (m_tcp_upstream_connect_total m),
     jm_tcp_upstream_connect_fail_total = counter_load (m_tcp_upstream_connect_fail_total m),
     jm_tcp_active_sessions = gauge_load (m_tcp_active_sessions m),
     jm_udp_packets_in_total = counter_load (m_udp_packets_in_total m),
     jm_udp_packets_out_total = counter_load (m_udp_packets_out_total m),
     jm_udp_bytes_in_total = counter_load (m_udp_bytes_in_total m),
     jm_udp_bytes_out_total = counter_load (m_udp_bytes_out_total m),
     jm_udp_recv_errors_total = counter_load (m_udp_recv_errors_total m),
     jm_udp_send_errors_total = counter_load (m_udp_send_errors_total m),
     jm_udp_session_create_total = counter_load (m_udp_session_create_total m),
     jm_udp_session_expire_total = counter_load (m_udp_session_expire_total m),
     jm_udp_batch_calls_total = counter_load (m_udp_batch_calls_total m),
     jm_udp_batch_messages_total = counter_load (m_udp_batch_messages_total m),
     jm_udp_drop_total = counter_load (m_udp_drop_total m),
     jm_udp_reply_primary_total = counter_load (m_udp_reply_primary_total m),
     jm_udp_reply_drop_total = counter_load (m_udp_reply_drop_total m),
     jm_udp_reply_stale_total = counter_load (m_udp_reply_stale_total m),
     jm_udp_worker_packets_in_total = counter_load (m_udp_worker_packets_in_total m),
     jm_udp_worker_packets_out_total = counter_load (m_udp_worker_packets_out_total m),
     jm_udp_worker0_packets_in_total = counter_load (m_udp_worker0_packets_in_total m),
     jm_udp_worker1_packets_in_total = counter_load (m_udp_worker1_packets_in_total m),
     jm_udp_worker2_packets_in_total = counter_load (m_udp_worker2_packets_in_total m),
     jm_udp_worker3_packets_in_total = counter_load (m_udp_worker3_packets_in_total m),
     jm_udp_worker0_packets_out_total = counter_load (m_udp_worker0_packets_out_total m),
     jm_udp_worker1_packets_out_total = counter_load (m_udp_worker1_packets_out_total m),
     jm_udp_worker2_packets_out_total = counter_load (m_udp_worker2_packets_out_total m),
     jm_udp_worker3_packets_out_total = counter_load (m_udp_worker3_packets_out_total m),
     jm_udp_dataplane_redesign_packets_in_total = counter_load (m_udp_dataplane_redesign_packets_in_total m),
     jm_udp_dataplane_redesign_packets_out_total = counter_load (m_udp_dataplane_redesign_packets_out_total m),
     jm_udp_io_uring_submit_total = counter_load (m_udp_io_uring_submit_total m),
     jm_udp_io_uring_cqe_total = counter_load (m_udp_io_uring_cqe_total m),
     jm_udp_io_uring_multishot_total = counter_load (m_udp_io_uring_multishot_total m),
     jm_udp_io_uring_buf_release_total = counter_load (m_udp_io_uring_buf_release_total m),
     jm_udp_io_uring_fallback_total = counter_load (m_udp_io_uring_fallback_total m),
     jm_udp_fast_path_packets_in_total = counter_load (m_udp_fast_path_packets_in_total m),
     jm_udp_fast_path_packets_out_total = counter_load (m_udp_fast_path_packets_out_total m),
     jm_udp_fast_path_gso_send_total = counter_load (m_udp_fast_path_gso_send_total m),
     jm_udp_fast_path_gro_recv_total = counter_load (m_udp_fast_path_gro_recv_total m),
     jm_udp_fast_path_fallback_total = counter_load (m_udp_fast_path_fallback_total m),
     jm_udp_fast_path_drop_total = counter_load (m_udp_fast_path_drop_total m),
     jm_udp_active_sessions = gauge_load (m_udp_active_sessions m),
     jm_restore_timeout_total = counter_load (m_restore_timeout_total m),
     jm_http_non_loopback_bind_total = counter_load (m_http_non_loopback_bind_total m)\<rparr>"

lemma gauge_dec_inc [simp]: "gauge_dec (gauge_inc g) = g" "gauge_inc (gauge_dec g) = g"
  by (simp_all add: gauge_dec_def gauge_inc_def)

end
