(* ===== verification/Relayd_Model.thy ===== *)
theory Relayd_Model
  imports Relayd_Prelude
begin

text \<open>
  The data of the control plane (\<open>src/src/model.rs\<close>): protocols, runtime states, allocations,
  bindings and the views the API returns.
\<close>

datatype protocol = Tcp | Udp | Both

fun protocol_as_str :: "protocol \<Rightarrow> string" where
  "protocol_as_str Tcp = ''tcp''"
| "protocol_as_str Udp = ''udp''"
| "protocol_as_str Both = ''both''"

datatype model_error = InvalidProtocol string

definition protocol_from_str :: "string \<Rightarrow> model_error + protocol" where
  "protocol_from_str value =
     (let l = to_ascii_lowercase value
      in if l = ''tcp'' then Ok Tcp
         else if l = ''udp'' then Ok Udp
         else if l = ''both'' then Ok Both
         else Err (InvalidProtocol value))"

datatype runtime_status =
    Active
  | RejectingNoHost
  | DegradedBindFailed
  | DegradedApplyFailed
  | DegradedCloseFailed

fun runtime_status_as_str :: "runtime_status \<Rightarrow> string" where
  "runtime_status_as_str Active = ''active''"
| "runtime_status_as_str RejectingNoHost = ''rejecting_no_host''"
| "runtime_status_as_str DegradedBindFailed = ''degraded_bind_failed''"
| "runtime_status_as_str DegradedApplyFailed = ''degraded_apply_failed''"
| "runtime_status_as_str DegradedCloseFailed = ''degraded_close_failed''"

datatype error_kind = BindFailed | ApplyFailed | CloseFailed | RestoreFailed | InvalidInput

fun error_kind_as_str :: "error_kind \<Rightarrow> string" where
  "error_kind_as_str BindFailed = ''bind_failed''"
| "error_kind_as_str ApplyFailed = ''apply_failed''"
| "error_kind_as_str CloseFailed = ''close_failed''"
| "error_kind_as_str RestoreFailed = ''restore_failed''"
| "error_kind_as_str InvalidInput = ''invalid_input''"

record allocation =
  a_id :: string
  a_protocol :: protocol
  a_port :: u16
  a_target_port :: "u16 option"
  a_host :: "string option"
  a_created_at_ms :: i64
  a_updated_at_ms :: i64

record binding =
  b_allocation_id :: string
  b_target_port :: u16
  b_host :: "string option"
  b_created_at_ms :: i64
  b_updated_at_ms :: i64

record allocation_resource =
  ar_id :: string
  ar_protocol :: protocol
  ar_port :: u16
  ar_created_at_ms :: i64
  ar_updated_at_ms :: i64

record binding_view =
  bv_allocation_id :: string
  bv_host :: "string option"
  bv_target_port :: u16
  bv_effective_target_port :: "u16 option"
  bv_effective_host :: "string option"
  bv_runtime_status :: runtime_status
  bv_error_kind :: "error_kind option"
  bv_last_error :: "string option"
  bv_created_at_ms :: i64
  bv_updated_at_ms :: i64

record allocation_view =
  av_id :: string
  av_protocol :: protocol
  av_port :: u16
  av_target_port :: "u16 option"
  av_host :: "string option"
  av_effective_target_port :: "u16 option"
  av_effective_host :: "string option"
  av_host_configured :: bool
  av_runtime_status :: runtime_status
  av_error_kind :: "error_kind option"
  av_last_error :: "string option"
  av_created_at_ms :: i64
  av_updated_at_ms :: i64

definition is_host_configured :: "string option \<Rightarrow> bool" where
  "is_host_configured host = (case host of None \<Rightarrow> False | Some value \<Rightarrow> value \<noteq> [])"

subsection \<open>Protocols share a port unless one of them is \<open>Both\<close> or they are equal\<close>

text \<open>
  Which existing protocols occupy a port for a requested one: the condition that the three
  SQL statements of \<open>find_available_allocation_port\<close> spell out.
\<close>

fun protocols_conflict :: "protocol \<Rightarrow> protocol \<Rightarrow> bool" where
  "protocols_conflict Tcp Udp = False"
| "protocols_conflict Udp Tcp = False"
| "protocols_conflict _ _ = True"

lemma protocols_conflict_sym: "protocols_conflict p q = protocols_conflict q p"
  by (cases p; cases q) auto

lemma protocols_conflict_refl [simp]: "protocols_conflict p p"
  by (cases p) auto

lemma protocol_as_str_inject [simp]: "protocol_as_str p = protocol_as_str q \<longleftrightarrow> p = q"
  by (cases p; cases q) auto

lemma protocol_from_as_str [simp]: "protocol_from_str (protocol_as_str p) = Ok p"
  by (cases p) (simp_all add: protocol_from_str_def to_ascii_lowercase_def ascii_lower_def)

end
