(* ===== verification/Relayd_Storage.thy ===== *)
theory Relayd_Storage
  imports Relayd_Model
begin

text \<open>
  The repository (\<open>src/src/storage/sqlite.rs\<close>). The two SQL tables are lists of rows in
  insertion order; each SQL statement of the source is a function on the database with the
  constraint errors its schema raises. A repository carries the database and the outcome of
  every round trip to SQLite (\<open>faults\<close>): any statement, \<open>BEGIN\<close> or \<open>COMMIT\<close> may fail with an
  I/O error, and a transaction that is not committed leaves the database as it was.
\<close>

subsection \<open>Rows, tables, errors\<close>

record allocation_row =
  row_id :: string
  row_protocol :: string
  row_port :: i32
  row_target_port :: i32
  row_host :: "string option"
  row_created_at_ms :: i64
  row_updated_at_ms :: i64

record binding_row =
  brow_allocation_id :: string
  brow_target_port :: i32
  brow_host :: "string option"
  brow_created_at_ms :: i64
  brow_updated_at_ms :: i64

record database =
  allocations :: "allocation_row list"
  bindings :: "binding_row list"

datatype sql_error = SqlIo | UniqueViolation | RowNotFound

datatype repository_error =
    DbError sql_error
  | SqlxError sql_error
  | ModelFailed model_error
  | FileIo string
  | InvalidDbPort string i32
  | PortConversion

record repository =
  db :: database
  faults :: "nat \<Rightarrow> bool"
  round_trips :: nat

subsection \<open>Statements and transactions\<close>

definition round_trip :: "(sql_error \<Rightarrow> repository_error) \<Rightarrow> (repository, repository_error, unit) action" where
  "round_trip emb r =
     (if faults r (round_trips r) then Err (emb SqlIo) else Ok (),
      r\<lparr>round_trips := round_trips r + 1\<rparr>)"

definition run_sql :: "(sql_error \<Rightarrow> repository_error) \<Rightarrow> (database \<Rightarrow> (sql_error + 'a) \<times> database) \<Rightarrow>
    (repository, repository_error, 'a) action" where
  "run_sql emb stmt =
     and_then (round_trip emb) (\<lambda>_ r.
       case stmt (db r) of
         (Inl e, _) \<Rightarrow> (Err (emb e), r)
       | (Inr x, d) \<Rightarrow> (Ok x, r\<lparr>db := d\<rparr>))"

definition rollback :: "database \<Rightarrow> (repository_error + 'a) \<times> repository \<Rightarrow> (repository_error + 'a) \<times> repository" where
  "rollback d res = (case res of (Inl e, r) \<Rightarrow> (Inl e, r\<lparr>db := d\<rparr>) | (Inr x, r) \<Rightarrow> (Inr x, r))"

definition in_transaction :: "(repository, repository_error, 'a) action \<Rightarrow> (repository, repository_error, 'a) action" where
  "in_transaction body r =
     rollback (db r)
       (and_then (round_trip SqlxError) (\<lambda>_.
          and_then body (\<lambda>x. and_then (round_trip SqlxError) (\<lambda>_. return x))) r)"

definition insert_allocation_stmt :: "allocation_row \<Rightarrow> database \<Rightarrow> (sql_error + unit) \<times> database" where
  "insert_allocation_stmt row d =
     (if \<exists>r \<in> set (allocations d). row_id r = row_id row \<or>
           (row_protocol r = row_protocol row \<and> row_port r = row_port row)
      then (Err UniqueViolation, d)
      else (Ok (), d\<lparr>allocations := allocations d @ [row]\<rparr>))"

definition insert_binding_stmt :: "binding_row \<Rightarrow> database \<Rightarrow> (sql_error + unit) \<times> database" where
  "insert_binding_stmt row d =
     (if \<exists>b \<in> set (bindings d). brow_allocation_id b = brow_allocation_id row
      then (Err UniqueViolation, d)
      else (Ok (), d\<lparr>bindings := bindings d @ [row]\<rparr>))"

text \<open>\<open>INSERT ... ON CONFLICT(allocation_id) DO UPDATE\<close>: the creation time of an existing row stays.\<close>

definition upsert_binding_stmt :: "binding_row \<Rightarrow> database \<Rightarrow> (sql_error + unit) \<times> database" where
  "upsert_binding_stmt row d =
     (if \<exists>b \<in> set (bindings d). brow_allocation_id b = brow_allocation_id row
      then (Ok (), d\<lparr>bindings := map (\<lambda>b.
              if brow_allocation_id b = brow_allocation_id row
              then b\<lparr>brow_target_port := brow_target_port row, brow_host := brow_host row,
                     brow_updated_at_ms := brow_updated_at_ms row\<rparr>
              else b) (bindings d)\<rparr>)
      else (Ok (), d\<lparr>bindings := bindings d @ [row]\<rparr>))"

definition update_allocation_stmt :: "string \<Rightarrow> i32 \<Rightarrow> string option \<Rightarrow> i64 \<Rightarrow> database \<Rightarrow> (sql_error + unit) \<times> database" where
  "update_allocation_stmt aid tp host upd d =
     (Ok (), d\<lparr>allocations := map (\<lambda>r.
        if row_id r = aid then r\<lparr>row_target_port := tp, row_host := host, row_updated_at_ms := upd\<rparr> else r)
        (allocations d)\<rparr>)"

text \<open>The two \<open>DELETE\<close> statements return the number of affected rows.\<close>

definition delete_bindings_stmt :: "string \<Rightarrow> database \<Rightarrow> (sql_error + nat) \<times> database" where
  "delete_bindings_stmt aid d =
     (Ok (length (filter (\<lambda>b. brow_allocation_id b = aid) (bindings d))),
      d\<lparr>bindings := filter (\<lambda>b. brow_allocation_id b \<noteq> aid) (bindings d)\<rparr>)"

definition delete_allocations_stmt :: "string \<Rightarrow> database \<Rightarrow> (sql_error + nat) \<times> database" where
  "delete_allocations_stmt aid d =
     (Ok (length (filter (\<lambda>r. row_id r = aid) (allocations d))),
      d\<lparr>allocations := filter (\<lambda>r. row_id r \<noteq> aid) (allocations d)\<rparr>)"

definition query_stmt :: "(database \<Rightarrow> 'a) \<Rightarrow> database \<Rightarrow> (sql_error + 'a) \<times> database" where
  "query_stmt q d = (Ok (q d), d)"

subsection \<open>Decoding rows\<close>

definition port_from_i32 :: "string \<Rightarrow> i32 \<Rightarrow> repository_error + u16" where
  "port_from_i32 field value =
     (if value < 0 then Err (InvalidDbPort field value)
      else if 65535 < value then Err PortConversion
      else Ok (of_int value))"

definition legacy_target_port :: "i32 \<Rightarrow> repository_error + u16 option" where
  "legacy_target_port v = (if 0 < v then map_ok Some (port_from_i32 ''target_port'' v) else Ok None)"

definition model_to_allocation :: "allocation_row \<Rightarrow> binding_row option \<Rightarrow> repository_error + allocation" where
  "model_to_allocation a b =
     question (map_err ModelFailed (protocol_from_str (row_protocol a))) (\<lambda>protocol.
     question (port_from_i32 ''port'' (row_port a)) (\<lambda>port.
     question (case b of
         Some bd \<Rightarrow> map_ok Some (port_from_i32 ''binding.target_port'' (brow_target_port bd))
       | None \<Rightarrow> legacy_target_port (row_target_port a)) (\<lambda>target_port.
     Ok \<lparr>a_id = row_id a, a_protocol = protocol, a_port = port, a_target_port = target_port,
         a_host = or_else (Option.bind b brow_host) (row_host a),
         a_created_at_ms = row_created_at_ms a, a_updated_at_ms = row_updated_at_ms a\<rparr>)))"

text \<open>
  \<open>AllocationJoinRow\<close> and \<open>AllocationBindingJoinRow\<close> are an allocation row with the columns of
  the binding the \<open>LEFT JOIN\<close> matched, if any.
\<close>

type_synonym join_row = "allocation_row \<times> binding_row option"

definition row_to_allocation :: "join_row \<Rightarrow> repository_error + allocation" where
  "row_to_allocation j =
     (case j of (a, b) \<Rightarrow>
       question (case b of
           Some bd \<Rightarrow> map_ok Some (port_from_i32 ''binding.target_port'' (brow_target_port bd))
         | None \<Rightarrow> legacy_target_port (row_target_port a)) (\<lambda>target_port.
       question (map_err ModelFailed (protocol_from_str (row_protocol a))) (\<lambda>protocol.
       question (port_from_i32 ''port'' (row_port a)) (\<lambda>port.
       Ok \<lparr>a_id = row_id a, a_protocol = protocol, a_port = port, a_target_port = target_port,
           a_host = or_else (Option.bind b brow_host) (row_host a),
           a_created_at_ms = row_created_at_ms a, a_updated_at_ms = row_updated_at_ms a\<rparr>))))"

definition row_to_binding :: "binding_row \<Rightarrow> repository_error + binding" where
  "row_to_binding b =
     question (port_from_i32 ''binding.target_port'' (brow_target_port b)) (\<lambda>target_port.
     Ok \<lparr>b_allocation_id = brow_allocation_id b, b_target_port = target_port, b_host = brow_host b,
         b_created_at_ms = brow_created_at_ms b, b_updated_at_ms = brow_updated_at_ms b\<rparr>)"

definition row_to_allocation_with_binding :: "join_row \<Rightarrow> repository_error + allocation \<times> binding option" where
  "row_to_allocation_with_binding j =
     (case j of (a, b) \<Rightarrow>
       question (transpose_result (map_option row_to_binding b)) (\<lambda>bd.
       question (case bd of
           Some x \<Rightarrow> Ok (Some (b_target_port x))
         | None \<Rightarrow> legacy_target_port (row_target_port a)) (\<lambda>target_port.
       question (map_err ModelFailed (protocol_from_str (row_protocol a))) (\<lambda>protocol.
       question (port_from_i32 ''port'' (row_port a)) (\<lambda>port.
       Ok (\<lparr>a_id = row_id a, a_protocol = protocol, a_port = port, a_target_port = target_port,
            a_host = or_else (Option.bind bd b_host) (row_host a),
            a_created_at_ms = row_created_at_ms a, a_updated_at_ms = row_updated_at_ms a\<rparr>, bd))))))"

subsection \<open>Repository operations\<close>

definition allocation_to_row :: "allocation \<Rightarrow> allocation_row" where
  "allocation_to_row a =
     \<lparr>row_id = a_id a, row_protocol = protocol_as_str (a_protocol a), row_port = uint (a_port a),
      row_target_port = (case a_target_port a of Some tp \<Rightarrow> uint tp | None \<Rightarrow> 0),
      row_host = a_host a, row_created_at_ms = a_created_at_ms a, row_updated_at_ms = a_updated_at_ms a\<rparr>"

definition insert_allocation :: "allocation \<Rightarrow> (repository, repository_error, unit) action" where
  "insert_allocation a = run_sql SqlxError (insert_allocation_stmt (allocation_to_row a))"

definition insert_allocation_with_binding ::
    "allocation \<Rightarrow> binding \<Rightarrow> (repository, repository_error, unit) action" where
  "insert_allocation_with_binding a b =
     in_transaction (and_then
       (run_sql SqlxError (insert_allocation_stmt
         \<lparr>row_id = a_id a, row_protocol = protocol_as_str (a_protocol a), row_port = uint (a_port a),
          row_target_port = uint (b_target_port b), row_host = b_host b,
          row_created_at_ms = a_created_at_ms a, row_updated_at_ms = b_updated_at_ms b\<rparr>))
       (\<lambda>_. run_sql SqlxError (insert_binding_stmt
         \<lparr>brow_allocation_id = a_id a, brow_target_port = uint (b_target_port b), brow_host = b_host b,
          brow_created_at_ms = b_created_at_ms b, brow_updated_at_ms = b_updated_at_ms b\<rparr>)))"

definition binding_to_row :: "binding \<Rightarrow> binding_row" where
  "binding_to_row b =
     \<lparr>brow_allocation_id = b_allocation_id b, brow_target_port = uint (b_target_port b),
      brow_host = b_host b, brow_created_at_ms = b_created_at_ms b,
      brow_updated_at_ms = b_updated_at_ms b\<rparr>"

definition repo_put_binding :: "binding \<Rightarrow> (repository, repository_error, unit) action" where
  "repo_put_binding b =
     in_transaction (and_then
       (run_sql SqlxError (upsert_binding_stmt (binding_to_row b)))
       (\<lambda>_. run_sql SqlxError (update_allocation_stmt (b_allocation_id b) (uint (b_target_port b))
               (b_host b) (b_updated_at_ms b))))"

definition repo_delete_binding :: "string \<Rightarrow> i64 \<Rightarrow> (repository, repository_error, bool) action" where
  "repo_delete_binding aid updated_at_ms =
     in_transaction (and_then
       (run_sql SqlxError (delete_bindings_stmt aid))
       (\<lambda>affected.
          if 0 < affected
          then and_then (run_sql SqlxError (update_allocation_stmt aid 0 None updated_at_ms)) (\<lambda>_. return True)
          else return False))"

definition repo_delete_allocation :: "string \<Rightarrow> (repository, repository_error, bool) action" where
  "repo_delete_allocation aid =
     in_transaction (and_then
       (run_sql SqlxError (delete_bindings_stmt aid))
       (\<lambda>_. and_then (run_sql SqlxError (delete_allocations_stmt aid)) (\<lambda>affected. return (0 < affected))))"

definition lift_result :: "'e + 'a \<Rightarrow> ('s, 'e, 'a) action" where
  "lift_result res s = (res, s)"

definition select_binding :: "string \<Rightarrow> database \<Rightarrow> binding_row option" where
  "select_binding aid d = find (\<lambda>b. brow_allocation_id b = aid) (bindings d)"

definition select_joined :: "string \<Rightarrow> database \<Rightarrow> join_row option" where
  "select_joined aid d =
     map_option (\<lambda>a. (a, select_binding (row_id a) d)) (find (\<lambda>r. row_id r = aid) (allocations d))"

definition repo_get_binding :: "string \<Rightarrow> (repository, repository_error, binding option) action" where
  "repo_get_binding aid =
     and_then (run_sql SqlxError (query_stmt (select_binding aid)))
       (\<lambda>row. lift_result (transpose_result (map_option row_to_binding row)))"

definition repo_get_allocation :: "string \<Rightarrow> (repository, repository_error, allocation option) action" where
  "repo_get_allocation aid =
     and_then (run_sql SqlxError (query_stmt (select_joined aid)))
       (\<lambda>row. lift_result (transpose_result (map_option row_to_allocation row)))"

definition repo_get_allocation_with_binding ::
    "string \<Rightarrow> (repository, repository_error, (allocation \<times> binding option) option) action" where
  "repo_get_allocation_with_binding aid =
     and_then (run_sql SqlxError (query_stmt (select_joined aid)))
       (\<lambda>row. lift_result (transpose_result (map_option row_to_allocation_with_binding row)))"

text \<open>
  The port query: \<open>occupied\<close> are the ports in range held by a conflicting protocol,
  \<open>candidate\<close> is the start of the range and the successor of every occupied port, and the
  result is the least candidate that is not occupied.
\<close>

fun protocol_filter :: "protocol \<Rightarrow> string \<Rightarrow> bool" where
  "protocol_filter Tcp p = (p \<in> {''tcp'', ''both''})"
| "protocol_filter Udp p = (p \<in> {''udp'', ''both''})"
| "protocol_filter Both p = True"

definition occupied_ports :: "protocol \<Rightarrow> i32 \<Rightarrow> i32 \<Rightarrow> database \<Rightarrow> i32 list" where
  "occupied_ports requested lo hi d =
     remdups (map row_port (filter (\<lambda>r. protocol_filter requested (row_protocol r) \<and>
       lo \<le> row_port r \<and> row_port r \<le> hi) (allocations d)))"

definition candidate_ports :: "i32 \<Rightarrow> i32 \<Rightarrow> i32 list \<Rightarrow> i32 list" where
  "candidate_ports lo hi occupied =
     (if lo \<le> hi then [lo] else []) @ map (\<lambda>p. p + 1) (filter (\<lambda>p. p < hi) occupied)"

definition select_free_port :: "protocol \<Rightarrow> i32 \<Rightarrow> i32 \<Rightarrow> database \<Rightarrow> i32 option" where
  "select_free_port requested lo hi d =
     (let occupied = occupied_ports requested lo hi d;
          free = filter (\<lambda>p. p \<notin> set occupied) (candidate_ports lo hi occupied)
      in if free = [] then None else Some (Min (set free)))"

definition find_available_allocation_port ::
    "protocol \<Rightarrow> u16 \<Rightarrow> u16 \<Rightarrow> (repository, repository_error, u16 option) action" where
  "find_available_allocation_port requested start_port end_port =
     and_then (run_sql SqlxError (query_stmt (select_free_port requested (uint start_port) (uint end_port))))
       (\<lambda>port. lift_result (transpose_result (map_option (port_from_i32 ''port'') port)))"

definition repo_list_allocations :: "(repository, repository_error, allocation list) action" where
  "repo_list_allocations =
     and_then (run_sql DbError (query_stmt (\<lambda>d. sort_key (\<lambda>r. (row_protocol r, row_port r)) (allocations d))))
       (\<lambda>rows. and_then (run_sql DbError (query_stmt bindings)) (\<lambda>brows.
          let bindings_by_id = map_of (rev (map (\<lambda>b. (brow_allocation_id b, b)) brows))
          in lift_result (collect_results (map (\<lambda>a. model_to_allocation a (bindings_by_id (row_id a))) rows))))"

subsection \<open>Opening a database\<close>

text \<open>
  Creating a table or index that exists is a no-op; the unique index on protocol and port
  cannot be created over duplicate keys.
\<close>

definition create_unique_index_stmt :: "database \<Rightarrow> (sql_error + unit) \<times> database" where
  "create_unique_index_stmt d =
     (if distinct (map (\<lambda>r. (row_protocol r, row_port r)) (allocations d)) then (Ok (), d)
      else (Err UniqueViolation, d))"

definition setup_schema :: "(repository, repository_error, unit) action" where
  "setup_schema =
     and_then (run_sql DbError (query_stmt (\<lambda>_. ()))) (\<lambda>_.
     and_then (run_sql DbError (query_stmt (\<lambda>_. ()))) (\<lambda>_.
     and_then (run_sql DbError create_unique_index_stmt) (\<lambda>_.
     run_sql DbError (query_stmt (\<lambda>_. ())))))"

definition legacy_binding_rows :: "database \<Rightarrow> binding_row list" where
  "legacy_binding_rows d =
     map (\<lambda>r. \<lparr>brow_allocation_id = row_id r, brow_target_port = row_target_port r, brow_host = row_host r,
             brow_created_at_ms = row_created_at_ms r, brow_updated_at_ms = row_updated_at_ms r\<rparr>)
       (filter (\<lambda>r. 0 < row_target_port r \<and> row_id r \<notin> set (map brow_allocation_id (bindings d)))
          (allocations d))"

definition migrate_legacy_bindings :: "(repository, repository_error, unit) action" where
  "migrate_legacy_bindings =
     run_sql DbError (\<lambda>d. (Ok (), d\<lparr>bindings := bindings d @ legacy_binding_rows d\<rparr>))"

definition self_check :: "string \<Rightarrow> (repository, repository_error, unit) action" where
  "self_check version =
     and_then (run_sql SqlxError (query_stmt (\<lambda>_. version)))
       (\<lambda>v. if v = [] then throw (SqlxError RowNotFound) else return ())"

text \<open>
  File permissions: a file system maps existing paths to their mode; \<open>denied\<close> are the paths
  on which the operating system refuses to create a file or to change its mode.
\<close>

record file_system =
  file_mode :: "string \<rightharpoonup> nat"
  denied :: "string \<Rightarrow> bool"

definition is_sqlite_memory_path :: "string \<Rightarrow> bool" where
  "is_sqlite_memory_path path \<longleftrightarrow> path = '':memory:''"

definition sqlite_sidecar_path :: "string \<Rightarrow> string \<Rightarrow> string" where
  "sqlite_sidecar_path path suffix = path @ ''-'' @ suffix"

definition mode_0600 :: nat where
  "mode_0600 = 384"

fun set_permissions_all :: "string list \<Rightarrow> (file_system, repository_error, unit) action" where
  "set_permissions_all [] fs = (Ok (), fs)"
| "set_permissions_all (p # ps) fs =
     (case file_mode fs p of
        None \<Rightarrow> set_permissions_all ps fs
      | Some _ \<Rightarrow>
          if denied fs p then (Err (FileIo p), fs)
          else set_permissions_all ps (fs\<lparr>file_mode := (file_mode fs)(p \<mapsto> mode_0600)\<rparr>))"

definition restrict_sqlite_file_permissions :: "string \<Rightarrow> (file_system, repository_error, unit) action" where
  "restrict_sqlite_file_permissions path =
     (if is_sqlite_memory_path path then return ()
      else set_permissions_all [path, sqlite_sidecar_path path ''wal'', sqlite_sidecar_path path ''shm''])"

definition prepare_sqlite_file_permissions :: "string \<Rightarrow> (file_system, repository_error, unit) action" where
  "prepare_sqlite_file_permissions path fs =
     (if is_sqlite_memory_path path then (Ok (), fs)
      else case file_mode fs path of
        Some _ \<Rightarrow> restrict_sqlite_file_permissions path fs
      | None \<Rightarrow>
          if denied fs path then (Err (FileIo path), fs)
          else restrict_sqlite_file_permissions path (fs\<lparr>file_mode := (file_mode fs)(path \<mapsto> mode_0600)\<rparr>))"

text \<open>
  \<open>Repository::open\<close>: permissions before and after, the schema and the migration between.
  \<open>touch\<close> is what SQLite does to the files while it is connected (it may create the sidecars).
\<close>

definition repository_open :: "string \<Rightarrow> (file_system \<Rightarrow> file_system) \<Rightarrow>
    (file_system \<times> repository, repository_error, unit) action" where
  "repository_open path touch =
     and_then (zoom fst (\<lambda>fs (_, r). (fs, r)) (\<lambda>e. e) (prepare_sqlite_file_permissions path)) (\<lambda>_.
     and_then (zoom snd (\<lambda>r (fs, _). (fs, r)) (\<lambda>e. e) (round_trip SqlxError)) (\<lambda>_.
     and_then (\<lambda>(fs, r). (Ok (), (touch fs, r))) (\<lambda>_.
     and_then (zoom snd (\<lambda>r (fs, _). (fs, r)) (\<lambda>e. e) setup_schema) (\<lambda>_.
     and_then (zoom snd (\<lambda>r (fs, _). (fs, r)) (\<lambda>e. e) migrate_legacy_bindings) (\<lambda>_.
     zoom fst (\<lambda>fs (_, r). (fs, r)) (\<lambda>e. e) (restrict_sqlite_file_permissions path))))))"

subsection \<open>Operations as atomic database transformers\<close>

text \<open>
  The contract of a repository operation against a transformer of the database:
  success is exactly the transformer, failure leaves the database untouched and comes from a
  fault or from the transformer itself. A transaction turns statements that follow a
  transformer one by one into an operation that implements it atomically.
\<close>

definition fault_free :: "repository \<Rightarrow> bool" where
  "fault_free r \<longleftrightarrow> (\<forall>n. \<not> faults r n)"

definition follows :: "(repository, repository_error, 'a) action \<Rightarrow> (database, repository_error, 'a) action \<Rightarrow> bool" where
  "follows m spec \<longleftrightarrow> (\<forall>r res r'. m r = (res, r') \<longrightarrow> faults r' = faults r \<and>
     (case res of
        Inl e \<Rightarrow> \<not> fault_free r \<or> fst (spec (db r)) = Inl e
      | Inr x \<Rightarrow> spec (db r) = (Inr x, db r')))"

definition implements :: "(repository, repository_error, 'a) action \<Rightarrow> (database, repository_error, 'a) action \<Rightarrow> bool" where
  "implements m spec \<longleftrightarrow> follows m spec \<and> (\<forall>r e r'. m r = (Inl e, r') \<longrightarrow> db r' = db r)"

lemma followsI:
  assumes "\<And>r e r'. m r = (Inl e, r') \<Longrightarrow> faults r' = faults r \<and> (\<not> fault_free r \<or> fst (spec (db r)) = Inl e)"
    and "\<And>r x r'. m r = (Inr x, r') \<Longrightarrow> faults r' = faults r \<and> spec (db r) = (Inr x, db r')"
  shows "follows m spec"
  unfolding follows_def
proof (intro allI impI)
  fix r res r'
  assume "m r = (res, r')"
  then show "faults r' = faults r \<and> (case res of Inl e \<Rightarrow> \<not> fault_free r \<or> fst (spec (db r)) = Inl e
      | Inr x \<Rightarrow> spec (db r) = (Inr x, db r'))"
    using assms by (cases res) auto
qed

lemma follows_Err:
  assumes "follows m spec" and "m r = (Inl e, r')"
  shows "faults r' = faults r" and "\<not> fault_free r \<or> fst (spec (db r)) = Inl e"
  using assms(1) [unfolded follows_def, rule_format, OF assms(2)] by simp_all

lemma follows_Ok:
  assumes "follows m spec" and "m r = (Inr x, r')"
  shows "faults r' = faults r" and "spec (db r) = (Inr x, db r')"
  using assms(1) [unfolded follows_def, rule_format, OF assms(2)] by simp_all

lemma implements_Err:
  assumes "implements m spec" and "m r = (Inl e, r')"
  shows "faults r' = faults r" and "db r' = db r" and "\<not> fault_free r \<or> fst (spec (db r)) = Inl e"
  using assms follows_Err [of m spec r e r'] by (simp_all add: implements_def)

lemma implements_Ok:
  assumes "implements m spec" and "m r = (Inr x, r')"
  shows "faults r' = faults r" and "spec (db r) = (Inr x, db r')"
  using assms follows_Ok [of m spec r x r'] by (simp_all add: implements_def)

lemma implements_fault_free:
  assumes "implements m spec" and "fault_free r" and "spec (db r) = (Inr x, d)"
  obtains r' where "m r = (Inr x, r')" and "db r' = d" and "faults r' = faults r"
proof -
  obtain res r' where m: "m r = (res, r')" by (cases "m r")
  show ?thesis
  proof (cases res)
    case (Inl e)
    with m assms implements_Err(3) [OF assms(1), of r e r'] show ?thesis by simp
  next
    case (Inr y)
    with m assms that implements_Ok [OF assms(1), of r y r'] show ?thesis by simp
  qed
qed

definition lift_stmt :: "(sql_error \<Rightarrow> repository_error) \<Rightarrow> (database \<Rightarrow> (sql_error + 'a) \<times> database) \<Rightarrow>
    (database, repository_error, 'a) action" where
  "lift_stmt emb stmt d = (case stmt d of (res, d') \<Rightarrow> (map_err emb res, d'))"

lemma round_trip_faults [simp]: "faults (snd (round_trip emb r)) = faults r"
  and round_trip_db [simp]: "db (snd (round_trip emb r)) = db r"
  by (simp_all add: round_trip_def)

lemma implements_round_trip: "implements (round_trip emb) (\<lambda>d. (Inr (), d))"
  unfolding implements_def
  by (auto simp: round_trip_def fault_free_def intro!: followsI split: if_splits)

lemma implements_run_sql: "implements (run_sql emb stmt) (lift_stmt emb stmt)"
  unfolding implements_def
  by (auto simp: run_sql_def round_trip_def and_then_def lift_stmt_def fault_free_def
      intro!: followsI split: if_splits prod.splits sum.splits)

lemma implements_follows [intro]: "implements m spec \<Longrightarrow> follows m spec"
  by (simp add: implements_def)

lemma follows_return: "follows (return x) (return x)"
  by (auto intro!: followsI)

lemma follows_and_then:
  assumes "follows m f" and "\<And>x. follows (k x) (g x)"
  shows "follows (and_then m k) (and_then f g)"
proof (rule followsI)
  fix r e r'
  assume "and_then m k r = (Inl e, r')"
  then show "faults r' = faults r \<and> (\<not> fault_free r \<or> fst (and_then f g (db r)) = Inl e)"
  proof (cases rule: and_then_cases)
    case (err e')
    then show ?thesis
      using follows_Err [OF assms(1) err(1)] by (cases "f (db r)") (auto simp: and_then_def)
  next
    case (ok x s')
    show ?thesis
      using follows_Ok [OF assms(1) ok(1)] follows_Err [OF assms(2) ok(2)]
      by (auto simp: fault_free_def)
  qed
next
  fix r y r'
  assume "and_then m k r = (Inr y, r')"
  then show "faults r' = faults r \<and> and_then f g (db r) = (Inr y, db r')"
  proof (cases rule: and_then_cases)
    case (ok x s')
    show ?thesis
      using follows_Ok [OF assms(1) ok(1)] follows_Ok [OF assms(2) ok(2)] by simp
  qed simp
qed

lemma implements_in_transaction:
  assumes "follows m f"
  shows "implements (in_transaction m) f"
proof -
  let ?body = "and_then (round_trip SqlxError) (\<lambda>_. and_then m (\<lambda>x. and_then (round_trip SqlxError) (\<lambda>_. return x)))"
  have "follows ?body (and_then (\<lambda>d. (Inr (), d)) (\<lambda>_. and_then f (\<lambda>x. and_then (\<lambda>d. (Inr (), d)) (\<lambda>_. return x))))"
    by (intro follows_and_then assms follows_return implements_follows implements_round_trip)
  moreover have "and_then (\<lambda>d. (Inr (), d)) (\<lambda>_. and_then f (\<lambda>x. and_then (\<lambda>d. (Inr (), d)) (\<lambda>_. return x))) = f"
    by (rule ext) (auto simp: and_then_def split: prod.splits sum.splits)
  ultimately have body: "follows ?body f" by simp
  have Err: "\<exists>r2. ?body r = (Inl e, r2) \<and> r' = r2\<lparr>db := db r\<rparr>" if "in_transaction m r = (Inl e, r')" for r e r'
    using that by (auto simp: in_transaction_def rollback_def split: prod.splits sum.splits)
  have Ok: "?body r = (Inr x, r')" if "in_transaction m r = (Inr x, r')" for r x r'
    using that by (auto simp: in_transaction_def rollback_def split: prod.splits sum.splits)
  have "follows (in_transaction m) f"
  proof (rule followsI)
    fix r e r' assume "in_transaction m r = (Inl e, r')"
    from Err [OF this] show "faults r' = faults r \<and> (\<not> fault_free r \<or> fst (f (db r)) = Inl e)"
      using follows_Err [OF body] by auto
  next
    fix r x r' assume "in_transaction m r = (Inr x, r')"
    from Ok [OF this] show "faults r' = faults r \<and> f (db r) = (Inr x, db r')"
      using follows_Ok [OF body] by auto
  qed
  with Err show ?thesis unfolding implements_def by fastforce
qed

definition read_spec :: "(database \<Rightarrow> repository_error + 'a) \<Rightarrow> (database, repository_error, 'a) action" where
  "read_spec q d = (q d, d)"

lemma implements_query:
  "implements (and_then (run_sql emb (query_stmt q)) (\<lambda>x. lift_result (g x))) (read_spec (\<lambda>d. g (q d)))"
  unfolding implements_def
  by (auto simp: run_sql_def round_trip_def query_stmt_def lift_result_def read_spec_def and_then_def
      fault_free_def intro!: followsI split: if_splits prod.splits sum.splits)

end
