(* ===== verification/Relayd_Store.thy ===== *)
theory Relayd_Store
  imports Relayd_Storage "HOL-Library.Multiset"
begin

text \<open>
  What the repository promises its client. The abstract store maps an allocation id to the
  allocation and its binding; \<open>abs_store\<close> reads it off the two tables. Each repository operation
  either fails and changes nothing, or refines one update of the abstract store. \<open>db_wf\<close> is
  the well-formedness of the tables (keys, value ranges, no dangling binding) that every
  operation keeps, and \<open>conflict_free\<close> says that no port is promised twice.
\<close>

type_synonym store = "string \<rightharpoonup> allocation \<times> binding option"

definition decode_join :: "join_row \<Rightarrow> (allocation \<times> binding option) option" where
  "decode_join j = (case row_to_allocation_with_binding j of Inl _ \<Rightarrow> None | Inr x \<Rightarrow> Some x)"

definition abs_store :: "database \<Rightarrow> store" where
  "abs_store d aid = Option.bind (select_joined aid d) decode_join"

subsection \<open>Well-formed tables\<close>

definition row_wf :: "allocation_row \<Rightarrow> bool" where
  "row_wf r \<longleftrightarrow> row_protocol r \<in> {''tcp'', ''udp'', ''both''} \<and> 0 \<le> row_port r \<and> row_port r \<le> 65535 \<and>
     0 \<le> row_target_port r \<and> row_target_port r \<le> 65535"

definition brow_wf :: "binding_row \<Rightarrow> bool" where
  "brow_wf b \<longleftrightarrow> 0 \<le> brow_target_port b \<and> brow_target_port b \<le> 65535"

definition db_wf :: "database \<Rightarrow> bool" where
  "db_wf d \<longleftrightarrow>
     distinct (map row_id (allocations d)) \<and>
     distinct (map (\<lambda>r. (row_protocol r, row_port r)) (allocations d)) \<and>
     distinct (map brow_allocation_id (bindings d)) \<and>
     list_all row_wf (allocations d) \<and> list_all brow_wf (bindings d) \<and>
     brow_allocation_id ` set (bindings d) \<subseteq> row_id ` set (allocations d)"

fun row_protocols_conflict :: "string \<Rightarrow> string \<Rightarrow> bool" where
  "row_protocols_conflict p q = (p = q \<or> p = ''both'' \<or> q = ''both'')"

definition conflict_free :: "database \<Rightarrow> bool" where
  "conflict_free d \<longleftrightarrow> (\<forall>r \<in> set (allocations d). \<forall>s \<in> set (allocations d).
     row_id r \<noteq> row_id s \<longrightarrow> row_port r = row_port s \<longrightarrow>
     \<not> row_protocols_conflict (row_protocol r) (row_protocol s))"

subsection \<open>Lists searched by key\<close>

lemma find_append: "find P (xs @ ys) = (case find P xs of None \<Rightarrow> find P ys | Some x \<Rightarrow> Some x)"
  by (induction xs) auto

lemma find_map_key:
  "(\<And>x. key (f x) = key x) \<Longrightarrow> find (\<lambda>x. key x = k) (map f xs) = map_option f (find (\<lambda>x. key x = k) xs)"
  by (induction xs) auto

lemma find_filter_key:
  "find (\<lambda>x. key x = k) (filter (\<lambda>x. key x \<noteq> j) xs) = (if k = j then None else find (\<lambda>x. key x = k) xs)"
  by (induction xs) auto

lemma find_key_None: "find (\<lambda>x. key x = k) xs = None \<longleftrightarrow> k \<notin> key ` set xs"
  by (auto simp: find_None_iff)

lemma find_key_Some: "find (\<lambda>x. key x = k) xs = Some x \<Longrightarrow> x \<in> set xs \<and> key x = k"
  by (auto simp: find_Some_iff)

lemma find_key_distinct:
  "distinct (map key xs) \<Longrightarrow> x \<in> set xs \<Longrightarrow> find (\<lambda>y. key y = key x) xs = Some x"
  by (induction xs) (auto simp: image_iff)

lemma filter_key_absent: "k \<notin> key ` set xs \<Longrightarrow> filter (\<lambda>x. key x = k) xs = []"
  by (induction xs) auto

lemma or_else_self [simp]: "or_else x x = x"
  by (cases x) auto

subsection \<open>Decoding\<close>

lemma port_from_i32_uint [simp]: "port_from_i32 f (uint p) = Ok p" for p :: u16
proof -
  have "uint p \<le> 65535" "0 \<le> uint p" using uint_u16_less [of p] by linarith+
  then show ?thesis by (simp add: port_from_i32_def)
qed

lemma port_from_i32_eq_Ok:
  "port_from_i32 f v = Ok p \<longleftrightarrow> 0 \<le> v \<and> v \<le> 65535 \<and> p = of_int v"
  by (auto simp: port_from_i32_def)

lemma uint_of_int_u16: "0 \<le> v \<Longrightarrow> v \<le> 65535 \<Longrightarrow> uint (of_int v :: u16) = v"
  by (simp add: uint_word_of_int take_bit_int_eq_self_iff unsigned_of_int)

lemma legacy_target_port_wf: "0 \<le> v \<Longrightarrow> v \<le> 65535 \<Longrightarrow> \<exists>tp. legacy_target_port v = Ok tp"
  by (auto simp: legacy_target_port_def port_from_i32_def)

lemma protocol_from_str_wf: "p \<in> {''tcp'', ''udp'', ''both''} \<Longrightarrow> \<exists>q. protocol_from_str p = Ok q \<and> protocol_as_str q = p"
  using protocol_from_as_str [of Tcp] protocol_from_as_str [of Udp] protocol_from_as_str [of Both] by auto

lemma row_to_binding_wf: "brow_wf b \<Longrightarrow> \<exists>x. row_to_binding b = Ok x"
  by (auto simp: row_to_binding_def brow_wf_def port_from_i32_def)

lemma decode_wf:
  assumes "row_wf a" and "pred_option brow_wf b"
  shows "\<exists>x bd. row_to_allocation_with_binding (a, b) = Ok (x, bd)"
proof -
  obtain q where "protocol_from_str (row_protocol a) = Ok q"
    using assms(1) protocol_from_str_wf unfolding row_wf_def by blast
  moreover obtain tp where "legacy_target_port (row_target_port a) = Ok tp"
    using assms(1) legacy_target_port_wf unfolding row_wf_def by blast
  moreover obtain p where "port_from_i32 ''port'' (row_port a) = Ok p"
    using assms(1) by (auto simp: row_wf_def port_from_i32_def)
  ultimately show ?thesis
    using assms(2) row_to_binding_wf
    by (cases b) (force simp: row_to_allocation_with_binding_def)+
qed

lemma row_to_allocation_agrees:
  "row_to_allocation_with_binding j = Ok (a, bd) \<Longrightarrow> row_to_allocation j = Ok a"
  by (cases j; cases "snd j")
    (auto simp: row_to_allocation_def row_to_allocation_with_binding_def row_to_binding_def
      question_eq_Ok map_ok_eq_Ok transpose_result_eq_Ok split: option.splits)

lemma model_to_allocation_agrees:
  "row_to_allocation_with_binding (r, b) = Ok (a, bd) \<Longrightarrow> model_to_allocation r b = Ok a"
  by (cases b)
    (auto simp: model_to_allocation_def row_to_allocation_with_binding_def row_to_binding_def
      question_eq_Ok map_ok_eq_Ok transpose_result_eq_Ok split: option.splits)

lemma select_joined_wf:
  assumes "db_wf d" and "select_joined aid d = Some (a, b)"
  shows "row_wf a" and "pred_option brow_wf b" and "row_id a = aid" and "a \<in> set (allocations d)"
  using assms
  by (auto simp: select_joined_def db_wf_def select_binding_def list_all_iff pred_option_def
      dest!: find_key_Some)

lemma abs_store_wf_Some:
  assumes "db_wf d" and "select_joined aid d = Some j"
  obtains a bd where "row_to_allocation_with_binding j = Ok (a, bd)" and "abs_store d aid = Some (a, bd)"
proof -
  obtain r b where j: "j = (r, b)" by (cases j)
  with assms have "row_wf r" "pred_option brow_wf b" using select_joined_wf by blast+
  then obtain a bd where "row_to_allocation_with_binding j = Ok (a, bd)" using decode_wf j by blast
  with assms(2) that show ?thesis by (simp add: abs_store_def decode_join_def)
qed

lemma abs_store_None: "db_wf d \<Longrightarrow> abs_store d aid = None \<longleftrightarrow> aid \<notin> row_id ` set (allocations d)"
proof -
  assume wf: "db_wf d"
  have "abs_store d aid = None \<longleftrightarrow> select_joined aid d = None"
  proof (cases "select_joined aid d")
    case None
    then show ?thesis by (simp add: abs_store_def)
  next
    case (Some j)
    with wf show ?thesis by (metis abs_store_wf_Some option.distinct(1))
  qed
  then show ?thesis by (simp add: select_joined_def find_key_None)
qed

subsection \<open>Reading\<close>

lemma implements_get_allocation_with_binding:
  "implements (repo_get_allocation_with_binding aid)
     (read_spec (\<lambda>d. transpose_result (map_option row_to_allocation_with_binding (select_joined aid d))))"
  unfolding repo_get_allocation_with_binding_def by (rule implements_query)

lemma implements_get_allocation:
  "implements (repo_get_allocation aid)
     (read_spec (\<lambda>d. transpose_result (map_option row_to_allocation (select_joined aid d))))"
  unfolding repo_get_allocation_def by (rule implements_query)

lemma implements_get_binding:
  "implements (repo_get_binding aid)
     (read_spec (\<lambda>d. transpose_result (map_option row_to_binding (select_binding aid d))))"
  unfolding repo_get_binding_def by (rule implements_query)

lemma implements_find_port:
  "implements (find_available_allocation_port p s e)
     (read_spec (\<lambda>d. transpose_result (map_option (port_from_i32 ''port'') (select_free_port p (uint s) (uint e) d))))"
  unfolding find_available_allocation_port_def by (rule implements_query)

lemma abs_store_read_with_binding:
  "db_wf d \<Longrightarrow> transpose_result (map_option row_to_allocation_with_binding (select_joined aid d)) = Ok (abs_store d aid)"
proof (cases "select_joined aid d")
  case (Some j)
  moreover assume "db_wf d"
  ultimately show ?thesis by (metis abs_store_wf_Some option.simps(9) transpose_result.simps(3))
qed (simp add: abs_store_def)

lemma abs_store_read:
  "db_wf d \<Longrightarrow> transpose_result (map_option row_to_allocation (select_joined aid d)) = Ok (map_option fst (abs_store d aid))"
proof (cases "select_joined aid d")
  case (Some j)
  moreover assume "db_wf d"
  ultimately show ?thesis
    by (metis abs_store_wf_Some fst_conv option.simps(9) row_to_allocation_agrees transpose_result.simps(3))
qed (simp add: abs_store_def)

subsection \<open>The database transformers behind the write operations\<close>

definition db_put_binding :: "binding \<Rightarrow> database \<Rightarrow> database" where
  "db_put_binding b d =
     snd (update_allocation_stmt (b_allocation_id b) (uint (b_target_port b)) (b_host b) (b_updated_at_ms b)
       (snd (upsert_binding_stmt (binding_to_row b) d)))"

definition db_delete_binding :: "string \<Rightarrow> i64 \<Rightarrow> database \<Rightarrow> database" where
  "db_delete_binding aid upd d =
     (if select_binding aid d = None then d
      else snd (update_allocation_stmt aid 0 None upd (snd (delete_bindings_stmt aid d))))"

definition db_delete_allocation :: "string \<Rightarrow> database \<Rightarrow> database" where
  "db_delete_allocation aid d = snd (delete_allocations_stmt aid (snd (delete_bindings_stmt aid d)))"

definition db_has_key :: "string \<Rightarrow> protocol \<Rightarrow> u16 \<Rightarrow> database \<Rightarrow> bool" where
  "db_has_key aid p port d \<longleftrightarrow> (\<exists>r \<in> set (allocations d). row_id r = aid \<or>
     (row_protocol r = protocol_as_str p \<and> row_port r = uint port))"

definition db_insert_allocation :: "allocation \<Rightarrow> database \<Rightarrow> database" where
  "db_insert_allocation a d = d\<lparr>allocations := allocations d @ [allocation_to_row a]\<rparr>"

definition db_insert_binding :: "binding \<Rightarrow> database \<Rightarrow> database" where
  "db_insert_binding b d = d\<lparr>bindings := bindings d @ [binding_to_row b]\<rparr>"

lemmas stmt_defs = insert_allocation_stmt_def insert_binding_stmt_def upsert_binding_stmt_def
  update_allocation_stmt_def delete_bindings_stmt_def delete_allocations_stmt_def query_stmt_def

lemma upsert_never_fails: "fst (upsert_binding_stmt row d) = Ok ()"
  by (simp add: upsert_binding_stmt_def)

lemma implements_put_binding:
  "implements (repo_put_binding b) (\<lambda>d. (Ok (), db_put_binding b d))"
proof -
  have "implements (repo_put_binding b)
      (and_then (lift_stmt SqlxError (upsert_binding_stmt (binding_to_row b)))
        (\<lambda>_. lift_stmt SqlxError (update_allocation_stmt (b_allocation_id b) (uint (b_target_port b))
               (b_host b) (b_updated_at_ms b))))"
    unfolding repo_put_binding_def
    by (intro implements_in_transaction follows_and_then implements_follows implements_run_sql)
  moreover have "and_then (lift_stmt SqlxError (upsert_binding_stmt (binding_to_row b)))
        (\<lambda>_. lift_stmt SqlxError (update_allocation_stmt (b_allocation_id b) (uint (b_target_port b))
               (b_host b) (b_updated_at_ms b))) = (\<lambda>d. (Ok (), db_put_binding b d))"
    by (rule ext) (simp add: and_then_def lift_stmt_def db_put_binding_def stmt_defs)
  ultimately show ?thesis by simp
qed

lemma rows_affected_bindings:
  "0 < length (filter (\<lambda>b. brow_allocation_id b = aid) (bindings d)) \<longleftrightarrow> select_binding aid d \<noteq> None"
  by (auto simp: select_binding_def find_None_iff filter_empty_conv)

lemma implements_delete_binding:
  "implements (repo_delete_binding aid upd)
     (\<lambda>d. (Ok (select_binding aid d \<noteq> None), db_delete_binding aid upd d))"
proof -
  let ?spec = "and_then (lift_stmt SqlxError (delete_bindings_stmt aid))
       (\<lambda>affected. if 0 < affected
          then and_then (lift_stmt SqlxError (update_allocation_stmt aid 0 None upd)) (\<lambda>_. return True)
          else return False)"
  have "implements (repo_delete_binding aid upd) ?spec"
    unfolding repo_delete_binding_def
  proof (rule implements_in_transaction, rule follows_and_then)
    fix affected :: nat
    show "follows (if 0 < affected
          then and_then (run_sql SqlxError (update_allocation_stmt aid 0 None upd)) (\<lambda>_. return True) else return False)
        (if 0 < affected
          then and_then (lift_stmt SqlxError (update_allocation_stmt aid 0 None upd)) (\<lambda>_. return True) else return False)"
      by (cases "0 < affected")
        (simp_all add: follows_return follows_and_then implements_follows implements_run_sql)
  qed (intro implements_follows implements_run_sql)
  moreover have "?spec = (\<lambda>d. (Ok (select_binding aid d \<noteq> None), db_delete_binding aid upd d))"
  proof (rule ext)
    fix d
    show "?spec d = (Ok (select_binding aid d \<noteq> None), db_delete_binding aid upd d)"
    proof (cases "select_binding aid d")
      case None
      then have "filter (\<lambda>b. brow_allocation_id b = aid) (bindings d) = []"
        and "filter (\<lambda>b. brow_allocation_id b \<noteq> aid) (bindings d) = bindings d"
        by (auto simp: select_binding_def find_None_iff intro!: filter_False filter_True)
      with None show ?thesis
        by (simp add: and_then_def lift_stmt_def db_delete_binding_def stmt_defs)
    next
      case (Some b)
      then have "filter (\<lambda>b. brow_allocation_id b = aid) (bindings d) \<noteq> []"
        using rows_affected_bindings [of aid d] by auto
      with Some show ?thesis
        by (simp add: and_then_def lift_stmt_def db_delete_binding_def stmt_defs)
    qed
  qed
  ultimately show ?thesis by simp
qed

lemma implements_delete_allocation:
  "implements (repo_delete_allocation aid)
     (\<lambda>d. (Ok (aid \<in> row_id ` set (allocations d)), db_delete_allocation aid d))"
proof -
  let ?spec = "and_then (lift_stmt SqlxError (delete_bindings_stmt aid))
       (\<lambda>_. and_then (lift_stmt SqlxError (delete_allocations_stmt aid)) (\<lambda>affected. return (0 < affected)))"
  have "implements (repo_delete_allocation aid) ?spec"
    unfolding repo_delete_allocation_def
    by (intro implements_in_transaction follows_and_then implements_follows implements_run_sql follows_return)
  moreover have "?spec = (\<lambda>d. (Ok (aid \<in> row_id ` set (allocations d)), db_delete_allocation aid d))"
    by (rule ext) (auto simp: and_then_def lift_stmt_def db_delete_allocation_def stmt_defs filter_empty_conv)
  ultimately show ?thesis by simp
qed

lemma implements_insert_allocation:
  "implements (insert_allocation a)
     (\<lambda>d. if db_has_key (a_id a) (a_protocol a) (a_port a) d then (Err (SqlxError UniqueViolation), d)
          else (Ok (), db_insert_allocation a d))"
proof -
  have "implements (insert_allocation a) (lift_stmt SqlxError (insert_allocation_stmt (allocation_to_row a)))"
    unfolding insert_allocation_def by (rule implements_run_sql)
  moreover have "lift_stmt SqlxError (insert_allocation_stmt (allocation_to_row a)) =
      (\<lambda>d. if db_has_key (a_id a) (a_protocol a) (a_port a) d then (Err (SqlxError UniqueViolation), d)
          else (Ok (), db_insert_allocation a d))"
    by (rule ext) (auto simp: lift_stmt_def stmt_defs db_has_key_def db_insert_allocation_def allocation_to_row_def)
  ultimately show ?thesis by simp
qed

text \<open>
  The service inserts an allocation with a binding that carries the same target; then the
  stored row is the allocation's own row.
\<close>

definition binding_matches :: "allocation \<Rightarrow> binding \<Rightarrow> bool" where
  "binding_matches a b \<longleftrightarrow> b_allocation_id b = a_id a \<and> a_target_port a = Some (b_target_port b) \<and>
     a_host a = b_host b \<and> a_updated_at_ms a = b_updated_at_ms b"

lemma implements_insert_with_binding:
  assumes "binding_matches a b"
  shows "implements (insert_allocation_with_binding a b)
     (\<lambda>d. if db_has_key (a_id a) (a_protocol a) (a_port a) d then (Err (SqlxError UniqueViolation), d)
          else if select_binding (a_id a) d \<noteq> None then (Err (SqlxError UniqueViolation), db_insert_allocation a d)
          else (Ok (), db_insert_binding b (db_insert_allocation a d)))" (is "implements _ ?f")
proof -
  let ?row = "\<lparr>row_id = a_id a, row_protocol = protocol_as_str (a_protocol a), row_port = uint (a_port a),
          row_target_port = uint (b_target_port b), row_host = b_host b,
          row_created_at_ms = a_created_at_ms a, row_updated_at_ms = b_updated_at_ms b\<rparr>"
  let ?brow = "\<lparr>brow_allocation_id = a_id a, brow_target_port = uint (b_target_port b), brow_host = b_host b,
          brow_created_at_ms = b_created_at_ms b, brow_updated_at_ms = b_updated_at_ms b\<rparr>"
  let ?spec = "and_then (lift_stmt SqlxError (insert_allocation_stmt ?row))
     (\<lambda>_. lift_stmt SqlxError (insert_binding_stmt ?brow))"
  have rows: "?row = allocation_to_row a" "?brow = binding_to_row b"
    using assms by (simp_all add: binding_matches_def allocation_to_row_def binding_to_row_def)
  have "implements (insert_allocation_with_binding a b) ?spec"
    unfolding insert_allocation_with_binding_def
    by (intro implements_in_transaction follows_and_then implements_follows implements_run_sql)
  moreover have "?spec = ?f"
    unfolding rows using assms
    by (intro ext)
      (auto simp: and_then_def lift_stmt_def stmt_defs db_has_key_def db_insert_allocation_def db_insert_binding_def
        select_binding_def find_None_iff allocation_to_row_def binding_to_row_def binding_matches_def)
  ultimately show ?thesis by simp
qed

subsection \<open>Refinement of the abstract store\<close>

lemma select_binding_simps:
  "select_binding k (db_insert_allocation a d) = select_binding k d"
  "select_binding k (snd (update_allocation_stmt i tp h u d)) = select_binding k d"
  "select_binding k (snd (delete_bindings_stmt i d)) = (if k = i then None else select_binding k d)"
  "select_binding k (snd (delete_allocations_stmt i d)) = select_binding k d"
  by (simp_all add: select_binding_def db_insert_allocation_def stmt_defs find_filter_key)

lemma select_binding_insert:
  "select_binding k (db_insert_binding b d) =
     (case select_binding k d of Some x \<Rightarrow> Some x
      | None \<Rightarrow> if b_allocation_id b = k then Some (binding_to_row b) else None)"
  by (simp add: select_binding_def db_insert_binding_def find_append binding_to_row_def split: option.split)

lemma select_binding_upsert:
  "select_binding k (snd (upsert_binding_stmt row d)) =
     (if k = brow_allocation_id row
      then Some (case select_binding k d of None \<Rightarrow> row
        | Some b \<Rightarrow> b\<lparr>brow_target_port := brow_target_port row, brow_host := brow_host row,
                      brow_updated_at_ms := brow_updated_at_ms row\<rparr>)
      else select_binding k d)"
proof (cases "\<exists>b \<in> set (bindings d). brow_allocation_id b = brow_allocation_id row")
  case False
  then have "find (\<lambda>b. brow_allocation_id b = brow_allocation_id row) (bindings d) = None"
    by (simp add: find_None_iff)
  with False show ?thesis
    by (simp add: select_binding_def upsert_binding_stmt_def find_append split: option.split)
next
  case True
  let ?f = "\<lambda>b. if brow_allocation_id b = brow_allocation_id row
              then b\<lparr>brow_target_port := brow_target_port row, brow_host := brow_host row,
                     brow_updated_at_ms := brow_updated_at_ms row\<rparr> else b"
  have "find (\<lambda>b. brow_allocation_id b = k) (map ?f (bindings d)) =
      map_option ?f (find (\<lambda>b. brow_allocation_id b = k) (bindings d))"
    by (rule find_map_key) simp
  moreover have "k = brow_allocation_id row \<Longrightarrow> find (\<lambda>b. brow_allocation_id b = k) (bindings d) \<noteq> None"
    using True by (auto simp: find_None_iff)
  ultimately show ?thesis
    using True
    by (cases "find (\<lambda>b. brow_allocation_id b = k) (bindings d)")
      (auto simp: select_binding_def upsert_binding_stmt_def dest: find_key_Some)
qed

text \<open>The row of an allocation, without its binding.\<close>

definition select_row :: "string \<Rightarrow> database \<Rightarrow> allocation_row option" where
  "select_row aid d = find (\<lambda>r. row_id r = aid) (allocations d)"

lemma select_joined_row: "select_joined aid d = map_option (\<lambda>r. (r, select_binding aid d)) (select_row aid d)"
  by (auto simp: select_joined_def select_row_def dest: find_key_Some split: option.split intro!: option.map_cong)

lemma select_row_None: "select_row aid d = None \<longleftrightarrow> aid \<notin> row_id ` set (allocations d)"
  by (simp add: select_row_def find_key_None)

lemma select_row_simps:
  "select_row k (snd (update_allocation_stmt i tp h u d)) =
     (if k = i then map_option (\<lambda>r. r\<lparr>row_target_port := tp, row_host := h, row_updated_at_ms := u\<rparr>) (select_row k d)
      else select_row k d)"
  "select_row k (snd (delete_bindings_stmt i d)) = select_row k d"
  "select_row k (snd (delete_allocations_stmt i d)) = (if k = i then None else select_row k d)"
  "select_row k (snd (upsert_binding_stmt row d)) = select_row k d"
  "select_row k (db_insert_binding b d) = select_row k d"
proof -
  let ?f = "\<lambda>r. if row_id r = i then r\<lparr>row_target_port := tp, row_host := h, row_updated_at_ms := u\<rparr> else r"
  have "find (\<lambda>r. row_id r = k) (map ?f (allocations d)) = map_option ?f (find (\<lambda>r. row_id r = k) (allocations d))"
    by (rule find_map_key) simp
  then show "select_row k (snd (update_allocation_stmt i tp h u d)) =
     (if k = i then map_option (\<lambda>r. r\<lparr>row_target_port := tp, row_host := h, row_updated_at_ms := u\<rparr>) (select_row k d)
      else select_row k d)"
    by (auto simp: select_row_def update_allocation_stmt_def dest: find_key_Some
        intro!: option.map_cong split: option.split)
      (cases "find (\<lambda>r. row_id r = k) (allocations d)"; auto dest: find_key_Some)+
qed (simp_all add: select_row_def stmt_defs find_filter_key db_insert_binding_def)

lemma select_row_insert:
  "select_row k (db_insert_allocation a d) =
     (case select_row k d of Some x \<Rightarrow> Some x | None \<Rightarrow> if a_id a = k then Some (allocation_to_row a) else None)"
  by (simp add: select_row_def db_insert_allocation_def find_append allocation_to_row_def split: option.split)

lemma abs_store_alt:
  "abs_store d k = Option.bind (select_row k d) (\<lambda>r. decode_join (r, select_binding k d))"
  by (cases "select_row k d") (simp_all add: abs_store_def select_joined_row)

lemma db_wf_no_dangling: "db_wf d \<Longrightarrow> select_row k d = None \<Longrightarrow> select_binding k d = None"
  by (auto simp: db_wf_def select_row_None select_binding_def find_key_None)

lemma db_has_key_row: "\<not> db_has_key aid p port d \<Longrightarrow> select_row aid d = None"
  by (auto simp: db_has_key_def select_row_None)

lemma decode_allocation_row:
  "a_target_port a \<noteq> Some 0 \<Longrightarrow> decode_join (allocation_to_row a, None) = Some (a, None)"
proof -
  assume nz: "a_target_port a \<noteq> Some 0"
  have pos: "0 < uint tp" if "a_target_port a = Some tp" for tp
    using nz that by (metis uint_0_iff linorder_neqE_linordered_idom uint_lt_0)
  have "legacy_target_port (row_target_port (allocation_to_row a)) = Ok (a_target_port a)"
    using pos by (auto simp: allocation_to_row_def legacy_target_port_def split: option.split)
  then show ?thesis
    by (simp add: decode_join_def row_to_allocation_with_binding_def) (simp add: allocation_to_row_def)
qed

lemma decode_matching_rows:
  "binding_matches a b \<Longrightarrow> decode_join (allocation_to_row a, Some (binding_to_row b)) = Some (a, Some b)"
  by (cases a, cases b) (auto simp: decode_join_def row_to_allocation_with_binding_def row_to_binding_def
      binding_to_row_def allocation_to_row_def binding_matches_def)

lemma abs_insert_allocation:
  assumes "db_wf d" and "\<not> db_has_key (a_id a) p port d" and "a_target_port a \<noteq> Some 0"
  shows "abs_store (db_insert_allocation a d) = (abs_store d)(a_id a \<mapsto> (a, None))"
proof
  fix k
  have "select_row (a_id a) d = None" "select_binding (a_id a) d = None"
    using assms db_has_key_row db_wf_no_dangling by blast+
  then show "abs_store (db_insert_allocation a d) k = ((abs_store d)(a_id a \<mapsto> (a, None))) k"
    using decode_allocation_row [OF assms(3)]
    by (simp add: abs_store_alt select_row_insert select_binding_simps split: option.split)
qed

lemma abs_insert_with_binding:
  assumes "db_wf d" and "\<not> db_has_key (a_id a) p port d" and "binding_matches a b"
  shows "abs_store (db_insert_binding b (db_insert_allocation a d)) = (abs_store d)(a_id a \<mapsto> (a, Some b))"
proof
  fix k
  have "select_row (a_id a) d = None" "select_binding (a_id a) d = None"
    using assms db_has_key_row db_wf_no_dangling by blast+
  then show "abs_store (db_insert_binding b (db_insert_allocation a d)) k = ((abs_store d)(a_id a \<mapsto> (a, Some b))) k"
    using decode_matching_rows [OF assms(3)] assms(3)
    by (auto simp: abs_store_alt select_row_simps select_row_insert select_binding_simps select_binding_insert
        binding_matches_def split: option.split)
qed

text \<open>
  The updates of the abstract store. Replacing a binding keeps its creation time; removing it
  leaves the allocation without target.
\<close>

definition assign_target :: "allocation \<Rightarrow> u16 option \<Rightarrow> string option \<Rightarrow> i64 \<Rightarrow> allocation" where
  "assign_target a tp host upd = a\<lparr>a_target_port := tp, a_host := host, a_updated_at_ms := upd\<rparr>"

definition keep_created :: "binding option \<Rightarrow> binding \<Rightarrow> binding" where
  "keep_created old b = (case old of None \<Rightarrow> b | Some x \<Rightarrow> b\<lparr>b_created_at_ms := b_created_at_ms x\<rparr>)"

definition store_put_binding :: "binding \<Rightarrow> store \<Rightarrow> store" where
  "store_put_binding b st =
     (case st (b_allocation_id b) of None \<Rightarrow> st
      | Some (a, old) \<Rightarrow> st(b_allocation_id b \<mapsto>
          (assign_target a (Some (b_target_port b)) (b_host b) (b_updated_at_ms b), Some (keep_created old b))))"

definition store_delete_binding :: "string \<Rightarrow> i64 \<Rightarrow> store \<Rightarrow> store" where
  "store_delete_binding aid upd st =
     (case st aid of
        Some (a, Some _) \<Rightarrow> st(aid \<mapsto> (assign_target a None None upd, None))
      | _ \<Rightarrow> st)"

lemma decode_join_Some:
  "decode_join (r, bo) = Some (a, bd) \<Longrightarrow>
     a_id a = row_id r \<and> protocol_from_str (row_protocol r) = Ok (a_protocol a) \<and>
     port_from_i32 ''port'' (row_port r) = Ok (a_port a) \<and> a_created_at_ms a = row_created_at_ms r \<and>
     transpose_result (map_option row_to_binding bo) = Ok bd"
  by (auto simp: decode_join_def row_to_allocation_with_binding_def question_eq_Ok map_err_eq_Ok
      split: sum.splits)

lemma decode_join_assign:
  assumes "decode_join (r, bo) = Some (a, bd)"
  shows "decode_join (r\<lparr>row_target_port := uint tp, row_host := h, row_updated_at_ms := u\<rparr>,
       Some \<lparr>brow_allocation_id = k, brow_target_port = uint tp, brow_host = h,
             brow_created_at_ms = c, brow_updated_at_ms = u\<rparr>) =
     Some (assign_target a (Some tp) h u,
       Some \<lparr>b_allocation_id = k, b_target_port = tp, b_host = h, b_created_at_ms = c, b_updated_at_ms = u\<rparr>)"
    and "decode_join (r\<lparr>row_target_port := 0, row_host := None, row_updated_at_ms := u\<rparr>, None) =
     Some (assign_target a None None u, None)"
  using decode_join_Some [OF assms]
  by (cases a; simp add: decode_join_def row_to_allocation_with_binding_def row_to_binding_def
      legacy_target_port_def assign_target_def)+

lemma abs_put_binding:
  assumes "db_wf d"
  shows "abs_store (db_put_binding b d) = store_put_binding b (abs_store d)"
proof
  fix k
  let ?id = "b_allocation_id b"
  show "abs_store (db_put_binding b d) k = store_put_binding b (abs_store d) k"
  proof (cases "select_row ?id d")
    case None
    then have "abs_store d ?id = None" by (simp add: abs_store_alt)
    with None show ?thesis
      by (auto simp: store_put_binding_def abs_store_alt db_put_binding_def select_row_simps
          select_binding_simps select_binding_upsert binding_to_row_def)
  next
    case (Some r)
    then obtain a bd where abs: "abs_store d ?id = Some (a, bd)"
      using assms by (metis abs_store_None option.distinct(1) select_row_None surj_pair option.exhaust)
    with Some have dec: "decode_join (r, select_binding ?id d) = Some (a, bd)" by (simp add: abs_store_alt)
    have "decode_join (r\<lparr>row_target_port := uint (b_target_port b), row_host := b_host b, row_updated_at_ms := b_updated_at_ms b\<rparr>,
        select_binding ?id (db_put_binding b d)) =
      Some (assign_target a (Some (b_target_port b)) (b_host b) (b_updated_at_ms b), Some (keep_created bd b))"
    proof (cases "select_binding ?id d")
      case None
      with dec have "bd = None" using decode_join_Some by fastforce
      with None decode_join_assign(1) [OF dec, where tp = "b_target_port b" and h = "b_host b" and
          u = "b_updated_at_ms b" and k = ?id and c = "b_created_at_ms b"]
      show ?thesis
        by (simp add: db_put_binding_def select_binding_simps select_binding_upsert binding_to_row_def keep_created_def)
    next
      case (Some ob)
      with dec obtain x where "bd = Some x" "row_to_binding ob = Ok x"
        using decode_join_Some [OF dec] by (auto simp: transpose_result_eq_Ok)
      moreover have "brow_allocation_id ob = ?id"
        using Some by (auto simp: select_binding_def dest: find_key_Some)
      moreover have "b_created_at_ms x = brow_created_at_ms ob"
        using calculation(2) by (auto simp: row_to_binding_def question_eq_Ok)
      ultimately show ?thesis
        using Some decode_join_assign(1) [OF dec, where tp = "b_target_port b" and h = "b_host b" and
          u = "b_updated_at_ms b" and k = ?id and c = "brow_created_at_ms ob"]
        by (cases ob; cases b; simp add: db_put_binding_def select_binding_simps select_binding_upsert binding_to_row_def
            keep_created_def)
    qed
    with Some abs show ?thesis
      by (auto simp: store_put_binding_def abs_store_alt db_put_binding_def select_row_simps
          select_binding_simps select_binding_upsert binding_to_row_def)
  qed
qed

lemma abs_delete_binding:
  assumes "db_wf d"
  shows "abs_store (db_delete_binding aid upd d) = store_delete_binding aid upd (abs_store d)"
proof (cases "select_binding aid d")
  case None
  have "abs_store d aid \<noteq> Some (a, Some x)" for a x
    using None decode_join_Some [of _ None a "Some x"] by (auto simp: abs_store_alt bind_eq_Some_conv)
  with None show ?thesis
    by (auto simp: db_delete_binding_def store_delete_binding_def split: option.split)
next
  case (Some ob)
  then obtain r where r: "select_row aid d = Some r"
    using assms db_wf_no_dangling by fastforce
  then obtain a bd where abs: "abs_store d aid = Some (a, bd)"
    using assms by (metis abs_store_None option.distinct(1) select_row_None surj_pair option.exhaust)
  with r Some have dec: "decode_join (r, Some ob) = Some (a, bd)" by (simp add: abs_store_alt)
  then obtain x where bd: "bd = Some x" using decode_join_Some [OF dec] by (auto simp: transpose_result_eq_Ok)
  show ?thesis
    using r Some abs bd decode_join_assign(2) [OF dec, of upd]
    by (intro ext) (auto simp: db_delete_binding_def store_delete_binding_def abs_store_alt select_row_simps
        select_binding_simps)
qed

lemma abs_delete_allocation: "abs_store (db_delete_allocation aid d) = (abs_store d)(aid := None)"
  by (rule ext) (simp add: db_delete_allocation_def abs_store_alt select_row_simps select_binding_simps)

subsection \<open>Invariants of the tables\<close>

text \<open>
  The target columns of \<open>allocations\<close> mirror the binding. On mirrored tables the legacy
  migration at the next start has nothing to do.
\<close>

definition row_mirrors :: "binding_row option \<Rightarrow> allocation_row \<Rightarrow> bool" where
  "row_mirrors bo r \<longleftrightarrow>
     (case bo of
        None \<Rightarrow> row_target_port r = 0 \<and> row_host r = None
      | Some b \<Rightarrow> row_target_port r = brow_target_port b \<and> row_host r = brow_host b \<and>
          row_updated_at_ms r = brow_updated_at_ms b)"

definition mirrored :: "database \<Rightarrow> bool" where
  "mirrored d \<longleftrightarrow> (\<forall>r \<in> set (allocations d). row_mirrors (select_binding (row_id r) d) r)"

definition db_hosts :: "database \<Rightarrow> string set" where
  "db_hosts d = {h. Some h \<in> row_host ` set (allocations d) \<union> brow_host ` set (bindings d)}"

definition db_inv :: "database \<Rightarrow> bool" where
  "db_inv d \<longleftrightarrow> db_wf d \<and> conflict_free d \<and> mirrored d"

lemma uint_u16_le: "uint p \<le> 65535" for p :: u16
  using uint_u16_less [of p] by linarith

lemma row_wf_allocation_to_row: "row_wf (allocation_to_row a)"
  by (cases "a_protocol a")
    (auto simp: row_wf_def allocation_to_row_def uint_u16_le split: option.split)

lemma brow_wf_binding_to_row: "brow_wf (binding_to_row b)"
  by (simp add: brow_wf_def binding_to_row_def uint_u16_le)

lemma brow_id_binding_to_row [simp]: "brow_allocation_id (binding_to_row b) = b_allocation_id b"
  by (simp add: binding_to_row_def)

lemma row_id_allocation_to_row [simp]: "row_id (allocation_to_row a) = a_id a"
  and row_key_allocation_to_row [simp]: "row_protocol (allocation_to_row a) = protocol_as_str (a_protocol a)"
    "row_port (allocation_to_row a) = uint (a_port a)"
  by (simp_all add: allocation_to_row_def)

lemma db_wf_insert_allocation:
  "db_wf d \<Longrightarrow> \<not> db_has_key (a_id a) (a_protocol a) (a_port a) d \<Longrightarrow> db_wf (db_insert_allocation a d)"
  by (auto simp: db_wf_def db_has_key_def db_insert_allocation_def row_wf_allocation_to_row)

lemma db_wf_insert_binding:
  "db_wf d \<Longrightarrow> select_row (b_allocation_id b) d \<noteq> None \<Longrightarrow> select_binding (b_allocation_id b) d = None \<Longrightarrow>
     db_wf (db_insert_binding b d)"
  by (auto simp: db_wf_def db_insert_binding_def brow_wf_binding_to_row select_row_None select_binding_def
      find_key_None)

lemma db_wf_map_rows:
  assumes "db_wf d" and "\<And>r. row_id (f r) = row_id r" and "\<And>r. row_protocol (f r) = row_protocol r"
    and "\<And>r. row_port (f r) = row_port r" and "\<And>r. row_wf r \<Longrightarrow> row_wf (f r)"
  shows "db_wf (d\<lparr>allocations := map f (allocations d)\<rparr>)"
  using assms by (auto simp: db_wf_def list_all_iff comp_def image_image)

lemma db_wf_map_bindings:
  assumes "db_wf d" and "\<And>b. brow_allocation_id (f b) = brow_allocation_id b" and "\<And>b. brow_wf b \<Longrightarrow> brow_wf (f b)"
  shows "db_wf (d\<lparr>bindings := map f (bindings d)\<rparr>)"
  using assms by (auto simp: db_wf_def list_all_iff comp_def image_image)

lemma db_wf_update_row:
  "db_wf d \<Longrightarrow> 0 \<le> tp \<Longrightarrow> tp \<le> 65535 \<Longrightarrow> db_wf (snd (update_allocation_stmt aid tp h u d))"
  unfolding update_allocation_stmt_def snd_conv by (rule db_wf_map_rows) (auto simp: row_wf_def)

lemma db_wf_upsert:
  assumes "db_wf d" and "brow_wf row" and "select_row (brow_allocation_id row) d \<noteq> None"
  shows "db_wf (snd (upsert_binding_stmt row d))"
proof (cases "\<exists>b \<in> set (bindings d). brow_allocation_id b = brow_allocation_id row")
  case False
  with assms show ?thesis
    by (auto simp: db_wf_def upsert_binding_stmt_def select_row_None)
next
  case True
  then show ?thesis
    using assms unfolding upsert_binding_stmt_def
    by (simp only: True if_True snd_conv) (rule db_wf_map_bindings, auto simp: brow_wf_def)
qed

lemma db_wf_put_binding: "db_wf d \<Longrightarrow> select_row (b_allocation_id b) d \<noteq> None \<Longrightarrow> db_wf (db_put_binding b d)"
  by (simp add: db_put_binding_def db_wf_update_row db_wf_upsert brow_wf_binding_to_row uint_u16_le)

lemma db_wf_delete_bindings: "db_wf d \<Longrightarrow> db_wf (snd (delete_bindings_stmt aid d))"
  by (auto simp: db_wf_def delete_bindings_stmt_def distinct_map_filter list_all_iff)

lemma db_wf_delete_binding: "db_wf d \<Longrightarrow> db_wf (db_delete_binding aid upd d)"
  by (simp add: db_delete_binding_def db_wf_update_row db_wf_delete_bindings)

lemma db_wf_delete_allocation: "db_wf d \<Longrightarrow> db_wf (db_delete_allocation aid d)"
  by (auto simp: db_wf_def db_delete_allocation_def stmt_defs distinct_map_filter list_all_iff)

text \<open>Every write except an insertion leaves the keys of the rows alone or drops rows.\<close>

definition row_key :: "allocation_row \<Rightarrow> string \<times> string \<times> int" where
  "row_key r = (row_id r, row_protocol r, row_port r)"

lemma conflict_free_keys:
  "conflict_free d \<longleftrightarrow> (\<forall>k \<in> row_key ` set (allocations d). \<forall>l \<in> row_key ` set (allocations d).
     fst k \<noteq> fst l \<longrightarrow> snd (snd k) = snd (snd l) \<longrightarrow> \<not> row_protocols_conflict (fst (snd k)) (fst (snd l)))"
  by (auto simp: conflict_free_def row_key_def)

lemma conflict_free_mono:
  "conflict_free d \<Longrightarrow> row_key ` set (allocations d') \<subseteq> row_key ` set (allocations d) \<Longrightarrow> conflict_free d'"
  unfolding conflict_free_keys by (meson subsetD)

lemma set_rows_update: "set (allocations (snd (update_allocation_stmt aid tp h u d))) =
     (\<lambda>r. if row_id r = aid then r\<lparr>row_target_port := tp, row_host := h, row_updated_at_ms := u\<rparr> else r) ` set (allocations d)"
  by (simp add: update_allocation_stmt_def del: if_image_distrib)

lemma allocations_upsert [simp]: "allocations (snd (upsert_binding_stmt row d)) = allocations d"
  by (simp add: upsert_binding_stmt_def)

lemma row_keys_update: "row_key ` set (allocations (snd (update_allocation_stmt aid tp h u d))) = row_key ` set (allocations d)"
  unfolding set_rows_update image_image by (rule image_cong) (auto simp: row_key_def)

lemma row_keys_other:
  "row_key ` set (allocations (snd (upsert_binding_stmt row d))) = row_key ` set (allocations d)"
  "row_key ` set (allocations (snd (delete_bindings_stmt aid d))) = row_key ` set (allocations d)"
  "row_key ` set (allocations (db_insert_binding b d)) = row_key ` set (allocations d)"
  by (simp_all add: stmt_defs db_insert_binding_def)

lemma row_keys_put_binding: "row_key ` set (allocations (db_put_binding b d)) = row_key ` set (allocations d)"
  by (simp only: db_put_binding_def row_keys_update row_keys_other)

lemma row_keys_delete_binding: "row_key ` set (allocations (db_delete_binding aid upd d)) = row_key ` set (allocations d)"
  by (simp add: db_delete_binding_def row_keys_update row_keys_other)

lemma row_keys_delete_allocation: "row_key ` set (allocations (db_delete_allocation aid d)) \<subseteq> row_key ` set (allocations d)"
  by (auto simp: db_delete_allocation_def stmt_defs)

lemma row_protocols_conflict_as_str:
  "row_protocols_conflict (protocol_as_str p) (protocol_as_str q) = protocols_conflict p q"
  by (cases p; cases q) simp_all

lemma protocol_filter_conflict:
  "p \<in> {''tcp'', ''udp'', ''both''} \<Longrightarrow> protocol_filter q p = row_protocols_conflict (protocol_as_str q) p"
  by (cases q) auto

definition port_free :: "protocol \<Rightarrow> int \<Rightarrow> database \<Rightarrow> bool" where
  "port_free p n d \<longleftrightarrow> (\<forall>r \<in> set (allocations d). row_port r = n \<longrightarrow>
     \<not> row_protocols_conflict (protocol_as_str p) (row_protocol r))"

lemma conflict_free_insert:
  assumes "conflict_free d" and "port_free (a_protocol a) (uint (a_port a)) d"
  shows "conflict_free (db_insert_allocation a d)"
  using assms by (auto simp: conflict_free_def port_free_def db_insert_allocation_def)

lemma mirrored_iff: "mirrored d \<longleftrightarrow> (\<forall>r \<in> set (allocations d). row_mirrors (select_binding (row_id r) d) r)"
  by (simp add: mirrored_def)

lemma mirrored_insert_allocation:
  assumes "mirrored d" and "db_wf d" and "select_row (a_id a) d = None" and "a_target_port a = None" and "a_host a = None"
  shows "mirrored (db_insert_allocation a d)"
proof -
  have "select_binding (a_id a) d = None" using assms db_wf_no_dangling by blast
  with assms show ?thesis
    by (auto simp: mirrored_def select_binding_simps)
      (auto simp: db_insert_allocation_def row_mirrors_def allocation_to_row_def)
qed

lemma mirrored_insert_with_binding:
  assumes "mirrored d" and "db_wf d" and "select_row (a_id a) d = None" and "binding_matches a b"
  shows "mirrored (db_insert_binding b (db_insert_allocation a d))"
proof (unfold mirrored_def, intro ballI)
  let ?d = "db_insert_binding b (db_insert_allocation a d)"
  fix r assume "r \<in> set (allocations ?d)"
  then consider "r = allocation_to_row a" | "r \<in> set (allocations d)"
    by (auto simp: db_insert_binding_def db_insert_allocation_def)
  then show "row_mirrors (select_binding (row_id r) ?d) r"
  proof cases
    case 1
    moreover have "select_binding (a_id a) d = None" using assms db_wf_no_dangling by blast
    ultimately show ?thesis
      using assms(4)
      by (simp add: select_binding_insert select_binding_simps row_mirrors_def allocation_to_row_def
          binding_to_row_def binding_matches_def)
  next
    case 2
    then have "row_id r \<noteq> a_id a" using assms(3) by (metis select_row_None image_eqI)
    with 2 assms(1,4) show ?thesis
      by (auto simp: select_binding_insert select_binding_simps mirrored_def binding_matches_def split: option.split)
  qed
qed

lemma mirrored_put_binding: "mirrored d \<Longrightarrow> mirrored (db_put_binding b d)"
proof (unfold mirrored_def, intro ballI)
  assume m: "\<forall>r \<in> set (allocations d). row_mirrors (select_binding (row_id r) d) r"
  fix r assume "r \<in> set (allocations (db_put_binding b d))"
  then obtain x where x: "x \<in> set (allocations d)"
    "r = (if row_id x = b_allocation_id b then x\<lparr>row_target_port := uint (b_target_port b), row_host := b_host b,
       row_updated_at_ms := b_updated_at_ms b\<rparr> else x)"
    unfolding db_put_binding_def set_rows_update allocations_upsert by blast
  with m show "row_mirrors (select_binding (row_id r) (db_put_binding b d)) r"
    by (cases "row_id x = b_allocation_id b")
      (auto simp: db_put_binding_def select_binding_simps select_binding_upsert row_mirrors_def binding_to_row_def
        split: option.split)
qed

lemma mirrored_delete_binding: "mirrored d \<Longrightarrow> mirrored (db_delete_binding aid upd d)"
proof (unfold mirrored_def, intro ballI)
  assume m: "\<forall>r \<in> set (allocations d). row_mirrors (select_binding (row_id r) d) r"
  fix r assume r: "r \<in> set (allocations (db_delete_binding aid upd d))"
  show "row_mirrors (select_binding (row_id r) (db_delete_binding aid upd d)) r"
  proof (cases "select_binding aid d")
    case None
    with m r show ?thesis by (simp add: db_delete_binding_def)
  next
    case (Some ob)
    with r obtain x where "x \<in> set (allocations d)"
      "r = (if row_id x = aid then x\<lparr>row_target_port := 0, row_host := None, row_updated_at_ms := upd\<rparr> else x)"
      by (auto simp: db_delete_binding_def set_rows_update delete_bindings_stmt_def)
    with Some m show ?thesis
      by (cases "row_id x = aid") (auto simp: db_delete_binding_def select_binding_simps row_mirrors_def)
  qed
qed

lemma mirrored_delete_allocation: "mirrored d \<Longrightarrow> mirrored (db_delete_allocation aid d)"
  unfolding mirrored_def db_delete_allocation_def
  by (auto simp: select_binding_simps) (auto simp: stmt_defs)

lemma db_inv_insert_allocation:
  assumes "db_inv d" and "\<not> db_has_key (a_id a) (a_protocol a) (a_port a) d"
    and "port_free (a_protocol a) (uint (a_port a)) d" and "a_target_port a = None" and "a_host a = None"
  shows "db_inv (db_insert_allocation a d)"
  using assms db_has_key_row
  by (auto simp: db_inv_def db_wf_insert_allocation conflict_free_insert intro!: mirrored_insert_allocation)

lemma db_inv_insert_with_binding:
  assumes "db_inv d" and "\<not> db_has_key (a_id a) (a_protocol a) (a_port a) d"
    and "port_free (a_protocol a) (uint (a_port a)) d" and "binding_matches a b"
  shows "db_inv (db_insert_binding b (db_insert_allocation a d))"
proof -
  have row: "select_row (a_id a) d = None" using assms(2) by (rule db_has_key_row)
  then have "select_binding (a_id a) d = None" using assms(1) db_wf_no_dangling by (simp add: db_inv_def)
  with assms row have "db_wf (db_insert_binding b (db_insert_allocation a d))"
    by (intro db_wf_insert_binding)
      (auto simp: db_inv_def db_wf_insert_allocation select_binding_simps select_row_insert binding_matches_def)
  moreover have "conflict_free (db_insert_binding b (db_insert_allocation a d))"
    by (rule conflict_free_mono [OF conflict_free_insert [OF _ assms(3)]])
      (use assms(1) in \<open>simp_all add: db_inv_def row_keys_other\<close>)
  ultimately show ?thesis
    using assms row by (simp add: db_inv_def mirrored_insert_with_binding)
qed

lemma db_inv_put_binding:
  assumes "db_inv d" and "abs_store d (b_allocation_id b) \<noteq> None"
  shows "db_inv (db_put_binding b d)"
  using assms conflict_free_mono [of d "db_put_binding b d"]
  by (simp add: db_inv_def db_wf_put_binding mirrored_put_binding row_keys_put_binding abs_store_None select_row_None)

lemma db_inv_delete_binding: "db_inv d \<Longrightarrow> db_inv (db_delete_binding aid upd d)"
  using conflict_free_mono [of d "db_delete_binding aid upd d"]
  by (simp add: db_inv_def db_wf_delete_binding mirrored_delete_binding row_keys_delete_binding)

lemma db_inv_delete_allocation: "db_inv d \<Longrightarrow> db_inv (db_delete_allocation aid d)"
  using conflict_free_mono [of d "db_delete_allocation aid d"]
  by (simp add: db_inv_def db_wf_delete_allocation mirrored_delete_allocation row_keys_delete_allocation)

subsection \<open>The port query finds the least free port\<close>

definition first_free_port :: "protocol \<Rightarrow> int \<Rightarrow> int \<Rightarrow> database \<Rightarrow> int option" where
  "first_free_port p lo hi d = find (\<lambda>n. port_free p n d) [lo..hi]"

lemma find_upto_None: "find P [lo..hi] = None \<longleftrightarrow> (\<forall>n. lo \<le> n \<longrightarrow> n \<le> hi \<longrightarrow> \<not> P n)"
  by (auto simp: find_None_iff)

lemma find_upto_Some:
  "find P [lo..hi] = Some m \<longleftrightarrow> lo \<le> m \<and> m \<le> hi \<and> P m \<and> (\<forall>n. lo \<le> n \<longrightarrow> n < m \<longrightarrow> \<not> P n)" for lo hi m :: int
proof (induction lo hi rule: upto.induct)
  case (1 lo hi)
  show ?case
  proof (cases "lo \<le> hi")
    case True
    then have "[lo..hi] = lo # [lo + 1..hi]" by (simp add: upto_rec1)
    moreover have "(\<forall>n. lo \<le> n \<longrightarrow> n < m \<longrightarrow> \<not> P n) \<longleftrightarrow>
        (lo < m \<longrightarrow> \<not> P lo) \<and> (\<forall>n. lo + 1 \<le> n \<longrightarrow> n < m \<longrightarrow> \<not> P n)"
      by (metis add1_zle_eq order.order_iff_strict order.strict_trans1)
    ultimately show ?thesis
      using True 1 by (cases "P lo"; cases "lo = m") auto
  qed auto
qed

lemma Min_eq_Some: "finite S \<Longrightarrow> m \<in> S \<Longrightarrow> (\<And>n. n \<in> S \<Longrightarrow> m \<le> n) \<Longrightarrow> Min S = m" for m :: int
  by (rule Min_eqI) auto

lemma occupied_ports_iff:
  assumes "db_wf d" and "lo \<le> n" and "n \<le> hi"
  shows "n \<in> set (occupied_ports p lo hi d) \<longleftrightarrow> \<not> port_free p n d"
proof -
  have "protocol_filter p (row_protocol r) = row_protocols_conflict (protocol_as_str p) (row_protocol r)"
    if "r \<in> set (allocations d)" for r
    using assms(1) that by (intro protocol_filter_conflict) (auto simp: db_wf_def list_all_iff row_wf_def)
  with assms(2,3) show ?thesis by (auto simp: occupied_ports_def port_free_def)
qed

lemma select_free_port_first:
  assumes wf: "db_wf d"
  shows "select_free_port p lo hi d = first_free_port p lo hi d"
proof -
  let ?occ = "occupied_ports p lo hi d"
  define free where "free = filter (\<lambda>n. n \<notin> set ?occ) (candidate_ports lo hi ?occ)"
  have occ_range: "lo \<le> n \<and> n \<le> hi" if "n \<in> set ?occ" for n
    using that by (auto simp: occupied_ports_def)
  have free_sound: "lo \<le> n \<and> n \<le> hi \<and> port_free p n d" if "n \<in> set free" for n
  proof -
    from that have "lo \<le> n \<and> n \<le> hi" using occ_range by (fastforce simp: free_def candidate_ports_def split: if_splits)
    with that show ?thesis using occupied_ports_iff [OF wf] by (auto simp: free_def)
  qed
  have least_candidate: "m \<in> set free" if m: "lo \<le> m" "m \<le> hi" "port_free p m d"
      and least: "\<And>n. lo \<le> n \<Longrightarrow> n < m \<Longrightarrow> \<not> port_free p n d" for m
  proof (cases "m = lo")
    case False
    with m least have "m - 1 \<in> set ?occ" using occupied_ports_iff [OF wf, of lo "m - 1" hi p] by simp
    then have "m \<in> set (candidate_ports lo hi ?occ)" using m by (force simp: candidate_ports_def)
    with m show ?thesis using occupied_ports_iff [OF wf] by (simp add: free_def)
  qed (use m occupied_ports_iff [OF wf] in \<open>simp add: free_def candidate_ports_def\<close>)
  show ?thesis
  proof (cases "first_free_port p lo hi d")
    case None
    then have "free = []"
      using free_sound by (cases free) (auto simp: first_free_port_def find_upto_None)
    with None show ?thesis by (simp add: select_free_port_def free_def Let_def)
  next
    case (Some m)
    then have m: "lo \<le> m" "m \<le> hi" "port_free p m d" "\<And>n. lo \<le> n \<Longrightarrow> n < m \<Longrightarrow> \<not> port_free p n d"
      unfolding first_free_port_def find_upto_Some by blast+
    then have "m \<in> set free" by (rule least_candidate)
    moreover from this have "Min (set free) = m"
      using free_sound m(4) by (intro Min_eq_Some) (auto simp: not_less [symmetric])
    moreover from calculation have "free \<noteq> []" by auto
    ultimately show ?thesis
      using Some unfolding select_free_port_def Let_def free_def [symmetric] by simp
  qed
qed

lemma first_free_port_Some:
  "first_free_port p lo hi d = Some m \<Longrightarrow> lo \<le> m \<and> m \<le> hi \<and> port_free p m d"
  by (simp add: first_free_port_def find_upto_Some)

lemma first_free_port_None_iff:
  "first_free_port p lo hi d = None \<longleftrightarrow> (\<forall>n. lo \<le> n \<longrightarrow> n \<le> hi \<longrightarrow> \<not> port_free p n d)"
  and first_free_port_Some_iff:
  "first_free_port p lo hi d = Some m \<longleftrightarrow> lo \<le> m \<and> m \<le> hi \<and> port_free p m d \<and>
     (\<forall>n. lo \<le> n \<longrightarrow> n < m \<longrightarrow> \<not> port_free p n d)"
  unfolding first_free_port_def by (rule find_upto_None, rule find_upto_Some)

lemma read_free_port:
  fixes s e :: u16
  assumes "db_wf d"
  shows "transpose_result (map_option (port_from_i32 ''port'') (select_free_port p (uint s) (uint e) d)) =
     Ok (map_option of_int (first_free_port p (uint s) (uint e) d))"
proof (cases "first_free_port p (uint s) (uint e) d")
  case (Some m)
  then have "0 \<le> m" "m \<le> 65535"
    using first_free_port_Some [OF Some] uint_u16_le [of e] by (auto intro: order_trans [OF uint_ge_0])
  with Some assms show ?thesis by (simp add: select_free_port_first port_from_i32_def)
qed (simp add: assms select_free_port_first)

subsection \<open>Hosts\<close>

lemma db_hosts_insert:
  "db_hosts (db_insert_allocation a d) \<subseteq> db_hosts d \<union> set_option (a_host a)"
  "db_hosts (db_insert_binding b d) \<subseteq> db_hosts d \<union> set_option (b_host b)"
  by (auto simp: db_hosts_def db_insert_allocation_def db_insert_binding_def allocation_to_row_def
      binding_to_row_def elem_set)

lemma db_hosts_put_binding: "db_hosts (db_put_binding b d) \<subseteq> db_hosts d \<union> set_option (b_host b)"
  by (auto simp: db_hosts_def db_put_binding_def set_rows_update elem_set)
    (auto simp: stmt_defs binding_to_row_def elem_set image_iff split: if_splits)

lemma db_hosts_delete_binding: "db_hosts (db_delete_binding aid upd d) \<subseteq> db_hosts d"
  by (auto simp: db_hosts_def db_delete_binding_def set_rows_update)
    (auto simp: stmt_defs image_iff)

lemma db_hosts_delete_allocation: "db_hosts (db_delete_allocation aid d) \<subseteq> db_hosts d"
  by (auto simp: db_hosts_def db_delete_allocation_def stmt_defs)

subsection \<open>Listing\<close>

definition list_spec :: "database \<Rightarrow> repository_error + allocation list" where
  "list_spec d = collect_results (map (\<lambda>a. model_to_allocation a (select_binding (row_id a) d))
     (sort_key (\<lambda>r. (row_protocol r, row_port r)) (allocations d)))"

lemma map_of_rev_find:
  "distinct (map key xs) \<Longrightarrow> map_of (rev (map (\<lambda>b. (key b, b)) xs)) k = find (\<lambda>b. key b = k) xs"
proof (induction xs)
  case (Cons x xs)
  then have "key x \<notin> key ` set xs" by simp
  then have "find (\<lambda>b. key b = key x) xs = None" by (simp add: find_key_None)
  with Cons show ?case by (auto simp: map_add_def split: option.split)
qed simp

lemma repo_list_allocations_run:
  assumes "db_wf (db r)" and "repo_list_allocations r = (res, r')"
  shows "db r' = db r" and "faults r' = faults r" and "fault_free r \<Longrightarrow> res = list_spec (db r)"
    and "res = Inr xs \<Longrightarrow> list_spec (db r) = Inr xs"
  using assms
  by (auto simp: repo_list_allocations_def and_then_def run_sql_def round_trip_def query_stmt_def lift_result_def
      fault_free_def list_spec_def db_wf_def select_binding_def map_of_rev_find Let_def
      split: if_splits prod.splits sum.splits)

lemma list_spec_wf:
  assumes "db_wf d"
  shows "\<exists>xs. list_spec d = Ok xs \<and> map a_id xs = map row_id (sort_key (\<lambda>r. (row_protocol r, row_port r)) (allocations d)) \<and>
     (\<forall>a \<in> set xs. \<exists>bd. abs_store d (a_id a) = Some (a, bd))"
proof -
  have row: "\<exists>a bd. model_to_allocation r (select_binding (row_id r) d) = Ok a \<and> a_id a = row_id r \<and>
      abs_store d (row_id r) = Some (a, bd)" if "r \<in> set (allocations d)" for r
  proof -
    have sel: "select_row (row_id r) d = Some r"
      using assms that unfolding select_row_def db_wf_def by (intro find_key_distinct) auto
    then obtain a bd where "abs_store d (row_id r) = Some (a, bd)"
      using assms by (metis abs_store_None option.distinct(1) select_row_None surj_pair option.exhaust)
    moreover from this sel have dec: "decode_join (r, select_binding (row_id r) d) = Some (a, bd)"
      by (simp add: abs_store_alt)
    moreover from dec have "model_to_allocation r (select_binding (row_id r) d) = Ok a"
      by (intro model_to_allocation_agrees) (auto simp: decode_join_def split: sum.splits)
    ultimately show ?thesis using decode_join_Some by blast
  qed
  then obtain f g where f: "\<And>r. r \<in> set (allocations d) \<Longrightarrow>
      model_to_allocation r (select_binding (row_id r) d) = Ok (f r) \<and> a_id (f r) = row_id r \<and>
      abs_store d (row_id r) = Some (f r, g r)"
    by metis
  then have "list_spec d = Ok (map f (sort_key (\<lambda>r. (row_protocol r, row_port r)) (allocations d)))"
    by (auto simp: list_spec_def collect_results_eq_Ok)
  moreover have "map a_id (map f rs) = map row_id rs" if "set rs \<subseteq> set (allocations d)" for rs
    using that f by auto
  ultimately show ?thesis
    using f by (intro exI [of _ "map f (sort_key (\<lambda>r. (row_protocol r, row_port r)) (allocations d))"]) auto
qed

lemma list_spec_keys:
  assumes "db_wf d" and "list_spec d = Ok xs"
  shows "map (\<lambda>a. (protocol_as_str (a_protocol a), uint (a_port a))) xs =
     map (\<lambda>r. (row_protocol r, row_port r)) (sort_key (\<lambda>r. (row_protocol r, row_port r)) (allocations d))"
proof -
  have key: "(protocol_as_str (a_protocol a), uint (a_port a)) = (row_protocol r, row_port r)"
    if "r \<in> set (allocations d)" "model_to_allocation r b = Ok a" for r b a
  proof -
    have "row_wf r" using assms(1) that(1) by (simp add: db_wf_def list_all_iff)
    moreover from this obtain q where "protocol_from_str (row_protocol r) = Ok q" "protocol_as_str q = row_protocol r"
      using protocol_from_str_wf unfolding row_wf_def by blast
    ultimately show ?thesis
      using that(2) by (auto simp: model_to_allocation_def question_eq_Ok port_from_i32_eq_Ok row_wf_def uint_of_int_u16)
  qed
  have "map (\<lambda>a. (protocol_as_str (a_protocol a), uint (a_port a))) ys = map (\<lambda>r. (row_protocol r, row_port r)) rs"
    if "map (\<lambda>a. model_to_allocation a (select_binding (row_id a) d)) rs = map Inr ys" "set rs \<subseteq> set (allocations d)"
    for rs ys
    using that
  proof (induction rs arbitrary: ys)
    case (Cons r rs)
    then show ?case by (cases ys) (auto dest: key)
  qed simp
  with assms(2) show ?thesis by (simp add: list_spec_def collect_results_eq_Ok)
qed

subsection \<open>Migration of legacy targets\<close>

definition db_migrate :: "database \<Rightarrow> database" where
  "db_migrate d = d\<lparr>bindings := bindings d @ legacy_binding_rows d\<rparr>"

lemma implements_migrate: "implements migrate_legacy_bindings (\<lambda>d. (Ok (), db_migrate d))"
proof -
  have "lift_stmt DbError (\<lambda>d. (Ok (), d\<lparr>bindings := bindings d @ legacy_binding_rows d\<rparr>)) = (\<lambda>d. (Ok (), db_migrate d))"
    by (rule ext) (simp add: lift_stmt_def db_migrate_def)
  with implements_run_sql [of DbError "\<lambda>d. (Ok (), d\<lparr>bindings := bindings d @ legacy_binding_rows d\<rparr>)"] show ?thesis
    unfolding migrate_legacy_bindings_def by simp
qed

lemma db_migrate_mirrored: "mirrored d \<Longrightarrow> db_migrate d = d"
proof -
  assume "mirrored d"
  then have "legacy_binding_rows d = []"
    by (auto simp: legacy_binding_rows_def filter_empty_conv mirrored_def row_mirrors_def select_binding_def
        find_key_None split: option.splits)
  then show ?thesis by (simp add: db_migrate_def)
qed

lemma db_wf_migrate: "db_wf d \<Longrightarrow> db_wf (db_migrate d)"
  by (auto simp: db_wf_def db_migrate_def legacy_binding_rows_def comp_def distinct_map_filter list_all_iff
      row_wf_def brow_wf_def) (metis image_eqI)

lemma select_binding_migrate:
  assumes "db_wf d" and "r \<in> set (allocations d)"
  shows "select_binding (row_id r) (db_migrate d) =
     (case select_binding (row_id r) d of Some b \<Rightarrow> Some b
      | None \<Rightarrow> if 0 < row_target_port r
          then Some \<lparr>brow_allocation_id = row_id r, brow_target_port = row_target_port r, brow_host = row_host r,
             brow_created_at_ms = row_created_at_ms r, brow_updated_at_ms = row_updated_at_ms r\<rparr>
          else None)"
proof -
  define f where "f = (\<lambda>r :: allocation_row. \<lparr>brow_allocation_id = row_id r, brow_target_port = row_target_port r, brow_host = row_host r,
             brow_created_at_ms = row_created_at_ms r, brow_updated_at_ms = row_updated_at_ms r\<rparr>)"
  let ?P = "\<lambda>r. 0 < row_target_port r \<and> row_id r \<notin> set (map brow_allocation_id (bindings d))"
  have sel: "find (\<lambda>x. row_id x = row_id r) (allocations d) = Some r"
    using assms unfolding db_wf_def by (intro find_key_distinct) auto
  have "find (\<lambda>b. brow_allocation_id b = row_id r) (map f rs) = map_option f (find (\<lambda>x. row_id x = row_id r) rs)" for rs
    by (induction rs) (auto simp: f_def)
  moreover have "find (\<lambda>x. row_id x = row_id r) (filter ?P rs) =
      (if ?P r then find (\<lambda>x. row_id x = row_id r) rs else None)"
    if "\<And>x. x \<in> set rs \<Longrightarrow> row_id x = row_id r \<Longrightarrow> x = r" for rs
    using that by (induction rs) (auto simp: find_None_iff)
  moreover have "x = r" if "x \<in> set (allocations d)" "row_id x = row_id r" for x
    using find_key_distinct [of row_id "allocations d" x] sel assms(1) that by (simp add: db_wf_def)
  moreover have "legacy_binding_rows d = map f (filter ?P (allocations d))"
    by (simp add: legacy_binding_rows_def f_def)
  ultimately have "find (\<lambda>b. brow_allocation_id b = row_id r) (legacy_binding_rows d) =
      map_option f (if ?P r then find (\<lambda>x. row_id x = row_id r) (allocations d) else None)"
    by (simp only:)
  then have legacy: "find (\<lambda>b. brow_allocation_id b = row_id r) (legacy_binding_rows d) =
      (if 0 < row_target_port r \<and> select_binding (row_id r) d = None then Some (f r) else None)"
    by (simp add: select_binding_def find_key_None sel)
  show ?thesis
    unfolding f_def [THEN fun_cong, symmetric]
    using legacy by (cases "select_binding (row_id r) d") (simp_all add: select_binding_def db_migrate_def find_append)
qed

lemma migrate_keeps_allocations:
  assumes "db_wf d"
  shows "map_option fst (abs_store (db_migrate d) k) = map_option fst (abs_store d k)"
proof (cases "select_row k d")
  case None
  then show ?thesis by (simp add: abs_store_alt db_migrate_def select_row_def)
next
  case (Some r)
  then have r: "r \<in> set (allocations d)" "row_id r = k" and wf: "row_wf r"
    using assms by (auto simp: select_row_def db_wf_def list_all_iff dest: find_key_Some)
  have row: "select_row k (db_migrate d) = Some r" using Some by (simp add: select_row_def db_migrate_def)
  show ?thesis
  proof (cases "select_binding k d = None \<and> 0 < row_target_port r")
    case False
    then have "select_binding k (db_migrate d) = select_binding k d"
      using select_binding_migrate [OF assms r(1)] r(2) by (auto split: option.split)
    with Some row show ?thesis by (simp add: abs_store_alt)
  next
    case True
    moreover obtain q where "protocol_from_str (row_protocol r) = Ok q"
      using wf protocol_from_str_wf unfolding row_wf_def by blast
    ultimately show ?thesis
      using Some row select_binding_migrate [OF assms r(1)] r(2) wf
      by (simp add: abs_store_alt decode_join_def row_to_allocation_with_binding_def row_to_binding_def
          legacy_target_port_def port_from_i32_def row_wf_def)
  qed
qed

subsection \<open>File permissions\<close>

lemma set_permissions_all_Ok:
  "set_permissions_all ps fs = (Ok u, fs') \<Longrightarrow>
     file_mode fs' p = (if p \<in> set ps \<and> file_mode fs p \<noteq> None then Some mode_0600 else file_mode fs p)"
  by (induction ps fs rule: set_permissions_all.induct) (auto split: option.splits if_splits)

lemma restrict_permissions_Ok:
  "restrict_sqlite_file_permissions path fs = (Ok u, fs') \<Longrightarrow> \<not> is_sqlite_memory_path path \<Longrightarrow>
     p \<in> {path, sqlite_sidecar_path path ''wal'', sqlite_sidecar_path path ''shm''} \<Longrightarrow>
     file_mode fs' p \<in> {None, Some mode_0600}"
  by (auto simp: restrict_sqlite_file_permissions_def simp del: set_permissions_all.simps
      dest!: set_permissions_all_Ok [where p = p] split: if_splits)

lemma and_then_eq_Ok:
  "and_then m k s = (Inr y, s') \<longleftrightarrow> (\<exists>x s1. m s = (Inr x, s1) \<and> k x s1 = (Inr y, s'))"
  by (auto simp: and_then_def split: prod.splits sum.splits)

lemma zoom_eq_Ok:
  "zoom get put emb m s = (Inr y, s') \<longleftrightarrow> (\<exists>t. m (get s) = (Inr y, t) \<and> s' = put t s)"
  by (auto simp: zoom_def split: prod.splits sum.splits)

subsection \<open>Example tables\<close>

definition example_row :: allocation_row where
  "example_row = \<lparr>row_id = ''a'', row_protocol = ''tcp'', row_port = 1000, row_target_port = 0, row_host = None,
     row_created_at_ms = 1, row_updated_at_ms = 1\<rparr>"

definition example_repo :: repository where
  "example_repo = \<lparr>db = \<lparr>allocations = [example_row], bindings = []\<rparr>, faults = (\<lambda>_. False), round_trips = 0\<rparr>"

lemma example_repo_simps [simp]:
  "allocations (db example_repo) = [example_row]" "bindings (db example_repo) = []"
  "faults example_repo n = False" "round_trips example_repo = 0"
  by (simp_all add: example_repo_def)

lemma fault_free_example [simp]: "fault_free example_repo"
  by (simp add: fault_free_def)

lemma db_inv_example: "db_inv (db example_repo)"
  by (simp add: db_inv_def db_wf_def conflict_free_def mirrored_def row_mirrors_def select_binding_def
      row_wf_def example_row_def)

lemma db_wf_example [simp]: "db_wf (db example_repo)"
  using db_inv_example by (simp add: db_inv_def)

section \<open>Properties\<close>

text \<open>
  C6. The port query returns the least port of the range that no conflicting protocol holds,
  and returns none exactly when every port of the range is held; it changes no row.
\<close>

theorem port_query_least:
  assumes "db_wf (db r)" and "find_available_allocation_port p s e r = (Ok res, r')"
  shows "db r' = db r \<and>
    (case res of
       None \<Rightarrow> (\<forall>n. uint s \<le> n \<longrightarrow> n \<le> uint e \<longrightarrow> \<not> port_free p n (db r))
     | Some q \<Rightarrow> s \<le> q \<and> q \<le> e \<and> port_free p (uint q) (db r) \<and>
         (\<forall>n. uint s \<le> n \<longrightarrow> n < uint q \<longrightarrow> \<not> port_free p n (db r)))"
proof -
  have "db r' = db r" and res: "res = map_option of_int (first_free_port p (uint s) (uint e) (db r))"
    using implements_Ok(2) [OF implements_find_port assms(2)]
    by (auto simp: read_spec_def read_free_port [OF assms(1)])
  moreover have "uint (of_int m :: u16) = m" if "first_free_port p (uint s) (uint e) (db r) = Some m" for m
    using first_free_port_Some [OF that] uint_u16_le [of e]
    by (intro uint_of_int_u16) (auto intro: order_trans [OF uint_ge_0])
  ultimately show ?thesis
    by (cases "first_free_port p (uint s) (uint e) (db r)")
      (auto simp: word_le_def first_free_port_None_iff first_free_port_Some_iff)
qed

theorem port_query_least_witness:
  "find_available_allocation_port Both 1000 1001 example_repo = (Ok (Some 1001), example_repo\<lparr>round_trips := 1\<rparr>) \<and>
   (1000 :: u16) \<le> 1001 \<and> port_free Both 1001 (db example_repo)"
proof -
  have "find_available_allocation_port Both 1000 1001 example_repo = (Ok (Some 1001), example_repo\<lparr>round_trips := 1\<rparr>)"
    by (simp add: find_available_allocation_port_def and_then_def run_sql_def round_trip_def query_stmt_def
        select_free_port_first first_free_port_def port_free_def lift_result_def example_row_def port_from_i32_def)
  with port_query_least [OF db_wf_example this] show ?thesis by simp
qed

text \<open>
  C14. Writing a binding is atomic and refines the abstract store: without faults it succeeds;
  when it succeeds the store has the new target and keeps the creation time of the binding it
  replaces; when it fails no row changes.
\<close>

theorem put_binding_refines:
  assumes "db_wf (db r)" and "repo_put_binding b r = (res, r')"
  shows "(fault_free r \<longrightarrow> res = Ok ()) \<and>
    abs_store (db r') = (if res = Ok () then store_put_binding b (abs_store (db r)) else abs_store (db r))"
proof (cases res)
  case (Inl e)
  with assms(2) implements_Err [OF implements_put_binding] show ?thesis by fastforce
next
  case (Inr u)
  with assms(2) have "db r' = db_put_binding b (db r)"
    using implements_Ok(2) [OF implements_put_binding, of b r u r'] by simp
  with Inr show ?thesis using abs_put_binding [OF assms(1)] by simp
qed

theorem put_binding_refines_witness:
  "\<exists>r'. repo_put_binding \<lparr>b_allocation_id = ''a'', b_target_port = 80, b_host = Some ''10.0.0.1'',
          b_created_at_ms = 5, b_updated_at_ms = 5\<rparr> example_repo = (Ok (), r') \<and>
     abs_store (db r') ''a'' =
       Some (\<lparr>a_id = ''a'', a_protocol = Tcp, a_port = 1000, a_target_port = Some 80, a_host = Some ''10.0.0.1'',
              a_created_at_ms = 1, a_updated_at_ms = 5\<rparr>,
             Some \<lparr>b_allocation_id = ''a'', b_target_port = 80, b_host = Some ''10.0.0.1'',
              b_created_at_ms = 5, b_updated_at_ms = 5\<rparr>)"
proof -
  let ?b = "\<lparr>b_allocation_id = ''a'', b_target_port = 80, b_host = Some ''10.0.0.1'',
          b_created_at_ms = 5, b_updated_at_ms = 5\<rparr>"
  obtain res r' where run: "repo_put_binding ?b example_repo = (res, r')" by fastforce
  have "abs_store (db example_repo) ''a'' = Some (\<lparr>a_id = ''a'', a_protocol = Tcp, a_port = 1000,
      a_target_port = None, a_host = None, a_created_at_ms = 1, a_updated_at_ms = 1\<rparr>, None)"
    using protocol_from_as_str [of Tcp]
    by (simp add: abs_store_alt select_row_def select_binding_def decode_join_def row_to_allocation_with_binding_def
        example_row_def legacy_target_port_def port_from_i32_def)
  with put_binding_refines [OF db_wf_example run] run show ?thesis
    by (auto simp: store_put_binding_def assign_target_def keep_created_def)
qed

text \<open>
  C15. What is inserted is read back: after an allocation has been inserted with the binding
  that carries its target, the joined query returns exactly the two of them.
\<close>

theorem insert_then_get:
  assumes "db_wf (db r)" and "fault_free r" and "binding_matches a b"
    and "\<not> db_has_key (a_id a) (a_protocol a) (a_port a) (db r)"
  shows "\<exists>r1 r2. insert_allocation_with_binding a b r = (Ok (), r1) \<and>
     repo_get_allocation_with_binding (a_id a) r1 = (Ok (Some (a, Some b)), r2) \<and> db_wf (db r1)"
proof -
  let ?d = "db_insert_binding b (db_insert_allocation a (db r))"
  have row: "select_row (a_id a) (db r) = None" using assms(4) by (rule db_has_key_row)
  then have none: "select_binding (a_id a) (db r) = None" using assms(1) db_wf_no_dangling by blast
  then obtain r1 where r1: "insert_allocation_with_binding a b r = (Ok (), r1)" "db r1 = ?d" "faults r1 = faults r"
    using implements_fault_free [OF implements_insert_with_binding [OF assms(3)] assms(2)] assms(4) by auto
  have wf: "db_wf ?d"
    using assms(1,3,4) none row
    by (intro db_wf_insert_binding)
      (auto simp: db_wf_insert_allocation select_binding_simps select_row_insert binding_matches_def)
  have "fault_free r1" using assms(2) r1(3) by (simp add: fault_free_def)
  moreover have "abs_store ?d (a_id a) = Some (a, Some b)"
    using abs_insert_with_binding [OF assms(1,4,3)] by simp
  then have "read_spec (\<lambda>d. transpose_result (map_option row_to_allocation_with_binding (select_joined (a_id a) d))) (db r1) =
      (Ok (Some (a, Some b)), db r1)"
    using r1(2) abs_store_read_with_binding [OF wf] by (simp add: read_spec_def)
  ultimately obtain r2 where "repo_get_allocation_with_binding (a_id a) r1 = (Ok (Some (a, Some b)), r2)"
    by (rule implements_fault_free [OF implements_get_allocation_with_binding])
  with r1 wf show ?thesis by auto
qed

theorem insert_then_get_witness:
  "\<exists>r1 r2. insert_allocation_with_binding
       \<lparr>a_id = ''b'', a_protocol = Udp, a_port = 1000, a_target_port = Some 53, a_host = None,
        a_created_at_ms = 7, a_updated_at_ms = 7\<rparr>
       \<lparr>b_allocation_id = ''b'', b_target_port = 53, b_host = None, b_created_at_ms = 7, b_updated_at_ms = 7\<rparr>
       example_repo = (Ok (), r1) \<and>
     repo_get_allocation_with_binding ''b'' r1 = (Ok (Some
       (\<lparr>a_id = ''b'', a_protocol = Udp, a_port = 1000, a_target_port = Some 53, a_host = None,
         a_created_at_ms = 7, a_updated_at_ms = 7\<rparr>,
        Some \<lparr>b_allocation_id = ''b'', b_target_port = 53, b_host = None, b_created_at_ms = 7, b_updated_at_ms = 7\<rparr>)), r2)"
  using insert_then_get [of example_repo
      "\<lparr>a_id = ''b'', a_protocol = Udp, a_port = 1000, a_target_port = Some 53, a_host = None,
        a_created_at_ms = 7, a_updated_at_ms = 7\<rparr>"
      "\<lparr>b_allocation_id = ''b'', b_target_port = 53, b_host = None, b_created_at_ms = 7, b_updated_at_ms = 7\<rparr>"]
  by (auto simp: binding_matches_def db_has_key_def example_row_def)

text \<open>
  C16. The migration of legacy targets changes no allocation that the repository reports, keeps
  the tables well formed, gives every allocation with a target a binding, and has nothing left to
  do afterwards.
\<close>

theorem migration_sound:
  assumes "db_wf (db r)" and "migrate_legacy_bindings r = (Ok (), r')"
  shows "db_wf (db r') \<and> (\<forall>k. map_option fst (abs_store (db r') k) = map_option fst (abs_store (db r) k)) \<and>
     (\<forall>row \<in> set (allocations (db r')). 0 < row_target_port row \<longrightarrow> select_binding (row_id row) (db r') \<noteq> None) \<and>
     db_migrate (db r') = db r'"
proof -
  have r': "db r' = db_migrate (db r)"
    using implements_Ok(2) [OF implements_migrate assms(2)] by simp
  have rows: "allocations (db_migrate (db r)) = allocations (db r)" by (simp add: db_migrate_def)
  have bound: "select_binding (row_id row) (db r') \<noteq> None"
    if "row \<in> set (allocations (db r'))" "0 < row_target_port row" for row
    using that select_binding_migrate [OF assms(1), of row] rows by (auto simp: r' split: option.split)
  then have "legacy_binding_rows (db r') = []"
    by (auto simp: legacy_binding_rows_def filter_empty_conv select_binding_def find_key_None)
  then have "db_migrate (db r') = db r'" by (simp add: db_migrate_def)
  with bound show ?thesis
    using r' db_wf_migrate [OF assms(1)] migrate_keeps_allocations [OF assms(1)] by auto
qed

definition legacy_repo :: repository where
  "legacy_repo = \<lparr>db = \<lparr>allocations = [example_row\<lparr>row_target_port := 22\<rparr>], bindings = []\<rparr>,
     faults = (\<lambda>_. False), round_trips = 0\<rparr>"

theorem migration_sound_witness:
  "\<exists>r'. migrate_legacy_bindings legacy_repo = (Ok (), r') \<and> length (bindings (db r')) = 1 \<and> db_wf (db r') \<and>
     db_migrate (db r') = db r'"
proof -
  have wf: "db_wf (db legacy_repo)" and ff: "fault_free legacy_repo"
    by (simp_all add: legacy_repo_def db_wf_def row_wf_def example_row_def fault_free_def)
  obtain r' where r': "migrate_legacy_bindings legacy_repo = (Ok (), r')" "db r' = db_migrate (db legacy_repo)"
    using implements_fault_free [OF implements_migrate ff] by metis
  then have "length (bindings (db r')) = 1"
    by (simp add: db_migrate_def legacy_binding_rows_def legacy_repo_def example_row_def)
  with r' migration_sound [OF wf r'(1)] show ?thesis by blast
qed

text \<open>
  C19. When a database file has been opened, the file and its two sidecars are readable and
  writable by the owner only, whatever modes they had before and whatever SQLite created in between.
\<close>

theorem open_restricts_files:
  assumes "repository_open path touch (fs, r) = (Ok (), (fs', r'))" and "path \<noteq> '':memory:''"
    and "p \<in> {path, sqlite_sidecar_path path ''wal'', sqlite_sidecar_path path ''shm''}"
  shows "file_mode fs' p \<in> {None, Some mode_0600}"
proof -
  from assms(1) obtain fs2 where "restrict_sqlite_file_permissions path fs2 = (Ok (), fs')"
    unfolding repository_open_def by (auto simp: and_then_eq_Ok zoom_eq_Ok)
  then show ?thesis
    using restrict_permissions_Ok assms(2,3) by (simp add: is_sqlite_memory_path_def)
qed

definition example_fs :: file_system where
  "example_fs = \<lparr>file_mode = [''db'' \<mapsto> 420], denied = (\<lambda>_. False)\<rparr>"

definition example_touch :: "file_system \<Rightarrow> file_system" where
  "example_touch fs = fs\<lparr>file_mode := (file_mode fs)(''db-wal'' \<mapsto> 420)\<rparr>"

lemma open_example:
  "\<exists>fs' r'. repository_open ''db'' example_touch (example_fs, example_repo) = (Ok (), (fs', r')) \<and>
     file_mode fs' ''db-wal'' \<noteq> None"
  by (simp add: repository_open_def and_then_def zoom_def prepare_sqlite_file_permissions_def round_trip_def
      restrict_sqlite_file_permissions_def sqlite_sidecar_path_def is_sqlite_memory_path_def example_fs_def
      example_touch_def setup_schema_def run_sql_def query_stmt_def create_unique_index_stmt_def
      migrate_legacy_bindings_def)

theorem open_restricts_files_witness:
  "\<exists>fs' r'. repository_open ''db'' example_touch (example_fs, example_repo) = (Ok (), (fs', r')) \<and>
     file_mode fs' ''db-wal'' = Some mode_0600"
proof -
  obtain fs' r' where run: "repository_open ''db'' example_touch (example_fs, example_repo) = (Ok (), (fs', r'))"
    and ne: "file_mode fs' ''db-wal'' \<noteq> None" using open_example by blast
  from open_restricts_files [OF run, of "''db-wal''"] run ne show ?thesis
    by (auto simp: sqlite_sidecar_path_def)
qed

text \<open>
  The listing is complete and ordered: on well-formed tables and without faults it returns the
  allocation of every row exactly once, sorted by protocol and port.
\<close>

lemma list_allocations_sorted:
  assumes "db_wf (db r)" and "fault_free r"
  shows "\<exists>xs r'. repo_list_allocations r = (Ok xs, r') \<and> db r' = db r \<and>
     sorted (map (\<lambda>a. (protocol_as_str (a_protocol a), uint (a_port a))) xs) \<and>
     mset (map a_id xs) = mset (map row_id (allocations (db r))) \<and>
     (\<forall>a \<in> set xs. \<exists>bd. abs_store (db r) (a_id a) = Some (a, bd))"
proof -
  let ?rows = "sort_key (\<lambda>r. (row_protocol r, row_port r)) (allocations (db r))"
  obtain xs where xs: "list_spec (db r) = Ok xs" "map a_id xs = map row_id ?rows"
    "\<forall>a \<in> set xs. \<exists>bd. abs_store (db r) (a_id a) = Some (a, bd)"
    using list_spec_wf [OF assms(1)] by blast
  obtain res r' where run: "repo_list_allocations r = (res, r')" by fastforce
  have "map (\<lambda>a. (protocol_as_str (a_protocol a), uint (a_port a))) xs = map (\<lambda>r. (row_protocol r, row_port r)) ?rows"
    using list_spec_keys [OF assms(1) xs(1)] .
  moreover have "mset (map a_id xs) = mset (map row_id (allocations (db r)))" 
    unfolding xs(2) by simp
  ultimately show ?thesis
    using xs(1,3) repo_list_allocations_run(1,3) [OF assms(1) run] assms(2) run by simp
qed

end
