(* ===== verification/Relayd_Facade.thy ===== *)
theory Relayd_Facade
  imports Relayd_Config Relayd_Model
begin

text \<open>
  The runtime facade (\<open>src/src/runtime/facade.rs\<close>): what the service expects of a data plane.
  The trait is a record of operations on a runtime state; its contract is the locale
  \<open>runtime_contract\<close>, which the in-memory runtime of this file, the userspace runtime and the
  netlink runtime interpret.
\<close>

record observed_state =
  os_effective_target_port :: "u16 option"
  os_effective_host :: "string option"
  os_runtime_status :: runtime_status
  os_error_kind :: "error_kind option"
  os_last_error :: "string option"

record listener_metrics_snapshot =
  lms_port :: u16
  lms_protocol :: protocol
  lms_connections_current :: u64
  lms_rx_bytes_total :: u64
  lms_tx_bytes_total :: u64

datatype runtime_error =
    RuntimeCreateFailed
  | RuntimeUpdateFailed
  | RuntimeDeleteFailed
  | RuntimeRestoreFailed
  | RuntimeApplyFailed
  | RuntimeTimeout

record 'rt runtime_facade =
  rf_initialize :: "u32 \<Rightarrow> ('rt, runtime_error, unit) action"
  rf_create :: "allocation \<Rightarrow> u32 \<Rightarrow> ('rt, runtime_error, unit) action"
  rf_update :: "allocation \<Rightarrow> u32 \<Rightarrow> ('rt, runtime_error, unit) action"
  rf_delete :: "string \<Rightarrow> u32 \<Rightarrow> ('rt, runtime_error, unit) action"
  rf_restore :: "allocation \<Rightarrow> u32 \<Rightarrow> ('rt, runtime_error, unit) action"
  rf_snapshot :: "string \<Rightarrow> 'rt \<Rightarrow> runtime_error + observed_state option"
  rf_snapshot_listener_metrics :: "'rt \<Rightarrow> runtime_error + listener_metrics_snapshot list"

subsection \<open>The contract\<close>

text \<open>
  \<open>served\<close> is the protocol and port a runtime serves for an allocation id. A host that the
  service hands over is an IP literal (\<open>host_literal\<close>); an allocation with host and target is
  active, any other one rejects traffic.
\<close>

definition host_literal :: "string option \<Rightarrow> bool" where
  "host_literal h \<longleftrightarrow> (case h of None \<Rightarrow> True | Some s \<Rightarrow> ip_addr_from_str s \<noteq> None)"

definition alloc_key :: "allocation \<Rightarrow> protocol \<times> u16" where
  "alloc_key a = (a_protocol a, a_port a)"

definition expected_status :: "allocation \<Rightarrow> runtime_status" where
  "expected_status a = (if a_host a \<noteq> None \<and> a_target_port a \<noteq> None then Active else RejectingNoHost)"

definition status_is :: "runtime_error + observed_state option \<Rightarrow> runtime_status \<Rightarrow> bool" where
  "status_is res st \<longleftrightarrow> (case res of Inr (Some obs) \<Rightarrow> os_runtime_status obs = st | _ \<Rightarrow> False)"

locale runtime_contract =
  fixes rt :: "'rt runtime_facade"
    and inv :: "'rt \<Rightarrow> bool"
    and served :: "'rt \<Rightarrow> string \<Rightarrow> (protocol \<times> u16) option"
  assumes initialize_law:
    "inv r \<Longrightarrow> rf_initialize rt t r = (res, r') \<Longrightarrow> inv r' \<and> served r' = served r"
    and create_law:
    "inv r \<Longrightarrow> served r (a_id a) = None \<Longrightarrow> rf_create rt a t r = (res, r') \<Longrightarrow>
       inv r' \<and> served r' = (if res = Inr () then (served r)(a_id a \<mapsto> alloc_key a) else served r)"
    and update_law:
    "inv r \<Longrightarrow> served r (a_id a) = Some (alloc_key a) \<Longrightarrow> rf_update rt a t r = (res, r') \<Longrightarrow>
       inv r' \<and> served r' = served r"
    and delete_law:
    "inv r \<Longrightarrow> rf_delete rt i t r = (res, r') \<Longrightarrow>
       inv r' \<and> served r' = (if res = Inr () then (served r)(i := None) else served r)"
    and restore_law:
    "inv r \<Longrightarrow> served r (a_id a) = None \<Longrightarrow> rf_restore rt a t r = (res, r') \<Longrightarrow>
       inv r' \<and> (served r' = (served r)(a_id a \<mapsto> alloc_key a) \<or> res \<noteq> Inr () \<and> served r' = served r)"
    and create_status:
    "inv r \<Longrightarrow> served r (a_id a) = None \<Longrightarrow> host_literal (a_host a) \<Longrightarrow> rf_create rt a t r = (Inr (), r') \<Longrightarrow>
       status_is (rf_snapshot rt (a_id a) r') (expected_status a)"
    and update_status:
    "inv r \<Longrightarrow> served r (a_id a) = Some (alloc_key a) \<Longrightarrow> host_literal (a_host a) \<Longrightarrow>
       rf_update rt a t r = (Inr (), r') \<Longrightarrow> status_is (rf_snapshot rt (a_id a) r') (expected_status a)"
    and restore_status:
    "inv r \<Longrightarrow> served r (a_id a) = None \<Longrightarrow> host_literal (a_host a) \<Longrightarrow> rf_restore rt a t r = (Inr (), r') \<Longrightarrow>
       status_is (rf_snapshot rt (a_id a) r') (expected_status a)"
    and snapshot_served:
    "inv r \<Longrightarrow> \<exists>obs. rf_snapshot rt i r = Inr obs \<and> (obs = None \<longleftrightarrow> served r i = None)"
begin

lemma create_served_other: "inv r \<Longrightarrow> served r (a_id a) = None \<Longrightarrow> rf_create rt a t r = (res, r') \<Longrightarrow>
    i \<noteq> a_id a \<Longrightarrow> served r' i = served r i"
  using create_law [of r a t res r'] by auto

text \<open>Undoing a creation, as the service does when it cannot persist the allocation.\<close>

lemma create_then_delete:
  assumes "inv r" and "served r (a_id a) = None"
    and "rf_create rt a t r = (Inr (), r1)" and "rf_delete rt (a_id a) t r1 = (Inr (), r2)"
  shows "inv r2 \<and> served r2 = served r"
proof -
  have "inv r1" "served r1 = (served r)(a_id a \<mapsto> alloc_key a)" using create_law [OF assms(1-3)] by simp_all
  with delete_law [OF _ assms(4)] show ?thesis using assms(2) by auto
qed

end

subsection \<open>The in-memory runtime\<close>

record runtime_state =
  rs_allocations :: "string \<rightharpoonup> allocation"
  rs_listener_metrics :: "listener_metrics_snapshot list"
  rs_initialize_fail :: bool
  rs_create_fail_ports :: "u16 set"
  rs_apply_fail_ports :: "u16 set"
  rs_update_fail_ids :: "string set"
  rs_delete_fail_ids :: "string set"
  rs_restore_fail_ids :: "string set"
  rs_initialize_calls :: u32
  rs_create_calls :: "string list"
  rs_update_calls :: "string list"
  rs_delete_calls :: "string list"
  rs_restore_calls :: "string list"

record runtime_calls =
  rc_create :: "string list"
  rc_update :: "string list"
  rc_delete :: "string list"
  rc_restore :: "string list"

definition runtime_state_default :: runtime_state where
  "runtime_state_default =
     \<lparr>rs_allocations = Map.empty, rs_listener_metrics = [], rs_initialize_fail = False,
      rs_create_fail_ports = {}, rs_apply_fail_ports = {}, rs_update_fail_ids = {}, rs_delete_fail_ids = {},
      rs_restore_fail_ids = {}, rs_initialize_calls = 0, rs_create_calls = [], rs_update_calls = [],
      rs_delete_calls = [], rs_restore_calls = []\<rparr>"

definition fail_initialize :: "runtime_state \<Rightarrow> runtime_state" where
  "fail_initialize s = s\<lparr>rs_initialize_fail := True\<rparr>"

definition fail_create_port :: "u16 \<Rightarrow> runtime_state \<Rightarrow> runtime_state" where
  "fail_create_port port s = s\<lparr>rs_create_fail_ports := insert port (rs_create_fail_ports s)\<rparr>"

definition fail_apply_port :: "u16 \<Rightarrow> runtime_state \<Rightarrow> runtime_state" where
  "fail_apply_port port s = s\<lparr>rs_apply_fail_ports := insert port (rs_apply_fail_ports s)\<rparr>"

definition fail_update_id :: "string \<Rightarrow> runtime_state \<Rightarrow> runtime_state" where
  "fail_update_id i s = s\<lparr>rs_update_fail_ids := insert i (rs_update_fail_ids s)\<rparr>"

definition fail_delete_id :: "string \<Rightarrow> runtime_state \<Rightarrow> runtime_state" where
  "fail_delete_id i s = s\<lparr>rs_delete_fail_ids := insert i (rs_delete_fail_ids s)\<rparr>"

definition fail_restore_id :: "string \<Rightarrow> runtime_state \<Rightarrow> runtime_state" where
  "fail_restore_id i s = s\<lparr>rs_restore_fail_ids := insert i (rs_restore_fail_ids s)\<rparr>"

definition contains_id :: "string \<Rightarrow> runtime_state \<Rightarrow> bool" where
  "contains_id i s \<longleftrightarrow> rs_allocations s i \<noteq> None"

definition initialize_calls :: "runtime_state \<Rightarrow> u32" where
  "initialize_calls s = rs_initialize_calls s"

definition calls :: "runtime_state \<Rightarrow> runtime_calls" where
  "calls s = \<lparr>rc_create = rs_create_calls s, rc_update = rs_update_calls s,
     rc_delete = rs_delete_calls s, rc_restore = rs_restore_calls s\<rparr>"

definition seed_listener_metrics :: "listener_metrics_snapshot list \<Rightarrow> runtime_state \<Rightarrow> runtime_state" where
  "seed_listener_metrics rows s = s\<lparr>rs_listener_metrics := rows\<rparr>"

definition clear_failures :: "runtime_state \<Rightarrow> runtime_state" where
  "clear_failures s = s\<lparr>rs_initialize_fail := False, rs_create_fail_ports := {}, rs_apply_fail_ports := {},
     rs_update_fail_ids := {}, rs_delete_fail_ids := {}, rs_restore_fail_ids := {}\<rparr>"

definition mem_initialize :: "u32 \<Rightarrow> (runtime_state, runtime_error, unit) action" where
  "mem_initialize timeout_ms s =
     (let s = s\<lparr>rs_initialize_calls := saturating_add (rs_initialize_calls s) 1\<rparr>
      in if rs_initialize_fail s then (Err RuntimeApplyFailed, s) else (Ok (), s))"

definition mem_create :: "allocation \<Rightarrow> u32 \<Rightarrow> (runtime_state, runtime_error, unit) action" where
  "mem_create a timeout_ms s =
     (let s = s\<lparr>rs_create_calls := rs_create_calls s @ [a_id a]\<rparr>
      in if a_port a \<in> rs_create_fail_ports s then (Err RuntimeCreateFailed, s)
         else if a_port a \<in> rs_apply_fail_ports s then (Err RuntimeApplyFailed, s)
         else (Ok (), s\<lparr>rs_allocations := (rs_allocations s)(a_id a \<mapsto> a)\<rparr>))"

definition mem_update :: "allocation \<Rightarrow> u32 \<Rightarrow> (runtime_state, runtime_error, unit) action" where
  "mem_update a timeout_ms s =
     (let s = s\<lparr>rs_update_calls := rs_update_calls s @ [a_id a]\<rparr>
      in if a_id a \<in> rs_update_fail_ids s then (Err RuntimeUpdateFailed, s)
         else (Ok (), s\<lparr>rs_allocations := (rs_allocations s)(a_id a \<mapsto> a)\<rparr>))"

definition mem_delete :: "string \<Rightarrow> u32 \<Rightarrow> (runtime_state, runtime_error, unit) action" where
  "mem_delete i timeout_ms s =
     (let s = s\<lparr>rs_delete_calls := rs_delete_calls s @ [i]\<rparr>
      in if i \<in> rs_delete_fail_ids s then (Err RuntimeDeleteFailed, s)
         else (Ok (), s\<lparr>rs_allocations := (rs_allocations s)(i := None)\<rparr>))"

definition mem_restore :: "allocation \<Rightarrow> u32 \<Rightarrow> (runtime_state, runtime_error, unit) action" where
  "mem_restore a timeout_ms s =
     (let s = s\<lparr>rs_restore_calls := rs_restore_calls s @ [a_id a]\<rparr>
      in if a_id a \<in> rs_restore_fail_ids s then (Err RuntimeRestoreFailed, s)
         else (Ok (), s\<lparr>rs_allocations := (rs_allocations s)(a_id a \<mapsto> a)\<rparr>))"

definition mem_observed_state_for :: "allocation \<Rightarrow> observed_state" where
  "mem_observed_state_for a =
     \<lparr>os_effective_target_port = a_target_port a, os_effective_host = a_host a,
      os_runtime_status = (if a_host a \<noteq> None \<and> a_target_port a \<noteq> None then Active else RejectingNoHost),
      os_error_kind = None, os_last_error = None\<rparr>"

definition mem_snapshot :: "string \<Rightarrow> runtime_state \<Rightarrow> runtime_error + observed_state option" where
  "mem_snapshot i s = Ok (map_option mem_observed_state_for (rs_allocations s i))"

definition mem_snapshot_listener_metrics :: "runtime_state \<Rightarrow> runtime_error + listener_metrics_snapshot list" where
  "mem_snapshot_listener_metrics s = Ok (rs_listener_metrics s)"

definition in_memory_runtime :: "runtime_state runtime_facade" where
  "in_memory_runtime =
     \<lparr>rf_initialize = mem_initialize, rf_create = mem_create, rf_update = mem_update, rf_delete = mem_delete,
      rf_restore = mem_restore, rf_snapshot = mem_snapshot,
      rf_snapshot_listener_metrics = mem_snapshot_listener_metrics\<rparr>"

definition mem_served :: "runtime_state \<Rightarrow> string \<Rightarrow> (protocol \<times> u16) option" where
  "mem_served s i = map_option alloc_key (rs_allocations s i)"

lemmas mem_defs = in_memory_runtime_def mem_initialize_def mem_create_def mem_update_def mem_delete_def
  mem_restore_def mem_snapshot_def mem_served_def

interpretation mem: runtime_contract in_memory_runtime "\<lambda>_. True" mem_served
  by unfold_locales
    (auto simp: mem_defs Let_def fun_eq_iff status_is_def expected_status_def mem_observed_state_for_def split: if_splits)

end
