(* ===== verification/Relayd_Service.thy ===== *)
theory Relayd_Service
  imports Relayd_Store Relayd_Facade
begin

text \<open>
  The allocation service (\<open>src/src/service/allocation_service.rs\<close>): every operation of
  \<open>Service\<close>, over a repository and a runtime facade. The id generator and the system clock are
  the sequences of values they return; the mutation lock makes every operation one step.
\<close>

record failpoints =
  fp_create_timeout :: bool
  fp_update_timeout :: bool
  fp_delete_timeout :: bool
  fp_delete_db_failure :: bool

definition failpoints_default :: failpoints where
  "failpoints_default = \<lparr>fp_create_timeout = False, fp_update_timeout = False, fp_delete_timeout = False,
     fp_delete_db_failure = False\<rparr>"

datatype service_error =
    RepositoryFailed repository_error
  | RuntimeFailed runtime_error
  | NotFound
  | NoAvailablePort
  | ServiceInvalidHost
  | ServiceTimeout
  | DeletePersistenceFailed

record 'rt service =
  repo :: repository
  runtime :: 'rt
  service_port_range :: port_range
  apply_timeout_ms :: u32
  generated_ids :: "nat \<Rightarrow> string"
  id_calls :: nat
  system_clock_ms :: "nat \<Rightarrow> int"
  clock_calls :: nat
  service_failpoints :: failpoints

definition with_id_generator :: "repository \<Rightarrow> 'rt \<Rightarrow> port_range \<Rightarrow> u32 \<Rightarrow> (nat \<Rightarrow> string) \<Rightarrow> (nat \<Rightarrow> int) \<Rightarrow> 'rt service" where
  "with_id_generator r x ports timeout_ms gen clock =
     \<lparr>repo = r, runtime = x, service_port_range = ports, apply_timeout_ms = timeout_ms,
      generated_ids = gen, id_calls = 0, system_clock_ms = clock, clock_calls = 0,
      service_failpoints = failpoints_default\<rparr>"

definition set_failpoints :: "failpoints \<Rightarrow> 'rt service \<Rightarrow> 'rt service" where
  "set_failpoints f s = s\<lparr>service_failpoints := f\<rparr>"

subsection \<open>Calling the repository and the runtime\<close>

definition with_repo :: "(repository, repository_error, 'a) action \<Rightarrow> ('rt service, service_error, 'a) action" where
  "with_repo = zoom repo (\<lambda>r s. s\<lparr>repo := r\<rparr>) RepositoryFailed"

definition with_runtime :: "('rt, runtime_error, 'a) action \<Rightarrow> ('rt service, service_error, 'a) action" where
  "with_runtime = zoom runtime (\<lambda>r s. s\<lparr>runtime := r\<rparr>) RuntimeFailed"

definition ask_runtime :: "('rt \<Rightarrow> runtime_error + 'a) \<Rightarrow> ('rt service, service_error, 'a) action" where
  "ask_runtime q s = (map_err RuntimeFailed (q (runtime s)), s)"

text \<open>
  \<open>current_time_ms\<close>: a clock before the epoch gives zero, and a value beyond an \<open>i64\<close> its maximum.
\<close>

definition i64_max :: int where
  "i64_max = 2 ^ 63 - 1"

definition current_time_ms :: "'rt service \<Rightarrow> i64 \<times> 'rt service" where
  "current_time_ms s =
     (min i64_max (max 0 (system_clock_ms s (clock_calls s))), s\<lparr>clock_calls := clock_calls s + 1\<rparr>)"

definition generate_id :: "'rt service \<Rightarrow> string \<times> 'rt service" where
  "generate_id s = (generated_ids s (id_calls s), s\<lparr>id_calls := id_calls s + 1\<rparr>)"

subsection \<open>Creating allocations\<close>

definition persist_created_allocation :: "allocation \<Rightarrow> ('rt service, service_error, unit) action" where
  "persist_created_allocation a =
     (case a_target_port a of
        Some target_port \<Rightarrow>
          with_repo (insert_allocation_with_binding a
            \<lparr>b_allocation_id = a_id a, b_target_port = target_port, b_host = a_host a,
             b_created_at_ms = a_created_at_ms a, b_updated_at_ms = a_updated_at_ms a\<rparr>)
      | None \<Rightarrow> with_repo (insert_allocation a))"

definition new_allocation :: "protocol \<Rightarrow> u16 option \<Rightarrow> u16 \<Rightarrow> 'rt service \<Rightarrow> allocation \<times> 'rt service" where
  "new_allocation protocol target_port port s =
     (let (now, s1) = current_time_ms s;
          (new_id, s2) = generate_id s1
      in (\<lparr>a_id = new_id, a_protocol = protocol, a_port = port, a_target_port = target_port, a_host = None,
           a_created_at_ms = now, a_updated_at_ms = now\<rparr>, s2))"

text \<open>Persisting, and undoing the creation in the runtime when that fails; its outcome is ignored.\<close>

definition persist_or_undo :: "'rt runtime_facade \<Rightarrow> allocation \<Rightarrow> ('rt service, service_error, allocation) action" where
  "persist_or_undo rt a s =
     (case persist_created_allocation a s of
        (Inr _, s1) \<Rightarrow> (Ok a, s1)
      | (Inl e, s1) \<Rightarrow> (Err e, snd (with_runtime (rf_delete rt (a_id a) (apply_timeout_ms s1)) s1)))"

text \<open>The outcome of one iteration of the search loop: stop with a result, or go on at a port.\<close>

datatype 'a attempt = Stop "service_error + 'a" | Continue "u16 option"

definition create_attempt :: "'rt runtime_facade \<Rightarrow> protocol \<Rightarrow> u16 option \<Rightarrow> u16 \<Rightarrow> 'rt service \<Rightarrow>
    allocation attempt \<times> 'rt service" where
  "create_attempt rt protocol target_port start s =
     (case with_repo (find_available_allocation_port protocol start (pr_end (service_port_range s))) s of
        (Inl e, s1) \<Rightarrow> (Stop (Err e), s1)
      | (Inr None, s1) \<Rightarrow> (Stop (Err NoAvailablePort), s1)
      | (Inr (Some port), s1) \<Rightarrow>
          let next_port = checked_add port 1;
              (a, s2) = new_allocation protocol target_port port s1
          in case rf_create rt a (apply_timeout_ms s2) (runtime s2) of
               (Inr _, r) \<Rightarrow> (case persist_or_undo rt a (s2\<lparr>runtime := r\<rparr>) of (res, s3) \<Rightarrow> (Stop res, s3))
             | (Inl e, r) \<Rightarrow>
                 if e = RuntimeCreateFailed then (Continue next_port, s2\<lparr>runtime := r\<rparr>)
                 else (Stop (Err (RuntimeFailed e)), s2\<lparr>runtime := r\<rparr>))"

lemma select_free_port_ge: "select_free_port p lo hi d = Some n \<Longrightarrow> lo \<le> n \<and> n \<le> hi"
proof -
  assume sel: "select_free_port p lo hi d = Some n"
  let ?free = "filter (\<lambda>q. q \<notin> set (occupied_ports p lo hi d)) (candidate_ports lo hi (occupied_ports p lo hi d))"
  from sel have "?free \<noteq> []" "n = Min (set ?free)" by (auto simp: select_free_port_def Let_def split: if_splits)
  then have "n \<in> set ?free" using Min_in [of "set ?free"] by (simp only: set_empty finite_set not_False_eq_True)
  then show ?thesis by (auto simp: candidate_ports_def occupied_ports_def split: if_splits)
qed

lemma find_available_ge:
  assumes "find_available_allocation_port p start e r = (Ok (Some q), r')"
  shows "start \<le> q" and "q \<le> e"
proof -
  have "transpose_result (map_option (port_from_i32 ''port'') (select_free_port p (uint start) (uint e) (db r))) = Ok (Some q)"
    using implements_Ok(2) [OF implements_find_port assms] by (auto simp: read_spec_def)
  then obtain n where n: "select_free_port p (uint start) (uint e) (db r) = Some n" "port_from_i32 ''port'' n = Ok q"
    by (auto simp: transpose_result_eq_Ok)
  have "uint q = n" using n(2) by (auto simp: port_from_i32_eq_Ok uint_of_int_u16)
  with select_free_port_ge [OF n(1)] show "start \<le> q" "q \<le> e" by (simp_all add: word_le_def)
qed

lemma create_attempt_continue:
  assumes "create_attempt rt p tp start s = (Continue (Some next_port), s')"
  shows "unat start < unat next_port"
proof -
  from assms obtain q r' where "find_available_allocation_port p start (pr_end (service_port_range s)) (repo s) = (Ok (Some q), r')"
    "checked_add q 1 = Some next_port"
    by (auto simp: create_attempt_def with_repo_def zoom_def Let_def split: prod.splits sum.splits option.splits if_splits)
  then show ?thesis
    using find_available_ge(1) unat_checked_add by (fastforce simp: word_le_nat_alt)
qed

function create_loop :: "'rt runtime_facade \<Rightarrow> protocol \<Rightarrow> u16 option \<Rightarrow> u16 option \<Rightarrow>
    ('rt service, service_error, allocation) action" where
  "create_loop rt protocol target_port None s = (Err NoAvailablePort, s)"
| "create_loop rt protocol target_port (Some start) s =
     (case create_attempt rt protocol target_port start s of
        (Stop res, s1) \<Rightarrow> (res, s1)
      | (Continue next_port, s1) \<Rightarrow> create_loop rt protocol target_port next_port s1)"
  by pat_completeness auto
termination
proof (relation "measure (\<lambda>(_, _, _, next_port, _). case next_port of None \<Rightarrow> 0 | Some n \<Rightarrow> 65536 - unat n)")
  fix rt :: "'rt runtime_facade" and protocol target_port start s out s1 next_port
  assume run: "(out, s1) = create_attempt rt protocol target_port start s" "out = Continue next_port"
  have "next_port = Some n \<Longrightarrow> unat start < unat n" for n
    using run create_attempt_continue by metis
  then show "((rt, protocol, target_port, next_port, s1), rt, protocol, target_port, Some start, s)
      \<in> measure (\<lambda>(_, _, _, next_port, _). case next_port of None \<Rightarrow> 0 | Some n \<Rightarrow> 65536 - unat n)"
    using unat_u16_less [of start] by (cases next_port) (auto intro: diff_less_mono2)
qed simp

definition create_allocation :: "'rt runtime_facade \<Rightarrow> protocol \<Rightarrow> u16 option \<Rightarrow> ('rt service, service_error, allocation) action" where
  "create_allocation rt protocol target_port s =
     (if fp_create_timeout (service_failpoints s) then (Err ServiceTimeout, s)
      else create_loop rt protocol target_port (Some (pr_start (service_port_range s))) s)"

subsection \<open>Views\<close>

definition allocation_resource_of :: "allocation \<Rightarrow> allocation_resource" where
  "allocation_resource_of a =
     \<lparr>ar_id = a_id a, ar_protocol = a_protocol a, ar_port = a_port a,
      ar_created_at_ms = a_created_at_ms a, ar_updated_at_ms = a_updated_at_ms a\<rparr>"

definition allocation_with_binding :: "allocation \<Rightarrow> binding \<Rightarrow> allocation" where
  "allocation_with_binding a b =
     a\<lparr>a_target_port := Some (b_target_port b), a_host := b_host b, a_updated_at_ms := b_updated_at_ms b\<rparr>"

definition missing_runtime_state :: observed_state where
  "missing_runtime_state =
     \<lparr>os_effective_target_port = None, os_effective_host = None, os_runtime_status = DegradedBindFailed,
      os_error_kind = Some BindFailed, os_last_error = Some ''missing runtime state''\<rparr>"

definition binding_view_of :: "binding \<Rightarrow> observed_state option \<Rightarrow> binding_view" where
  "binding_view_of b observed =
     (let obs = unwrap_or observed missing_runtime_state
      in \<lparr>bv_allocation_id = b_allocation_id b, bv_host = b_host b, bv_target_port = b_target_port b,
          bv_effective_target_port = os_effective_target_port obs, bv_effective_host = os_effective_host obs,
          bv_runtime_status = os_runtime_status obs, bv_error_kind = os_error_kind obs,
          bv_last_error = os_last_error obs, bv_created_at_ms = b_created_at_ms b,
          bv_updated_at_ms = b_updated_at_ms b\<rparr>)"

definition allocation_view_of :: "allocation \<Rightarrow> observed_state option \<Rightarrow> allocation_view" where
  "allocation_view_of a observed =
     (let obs = unwrap_or observed missing_runtime_state
      in \<lparr>av_id = a_id a, av_protocol = a_protocol a, av_port = a_port a, av_target_port = a_target_port a,
          av_host = a_host a,
          av_effective_target_port = os_effective_target_port obs, av_effective_host = os_effective_host obs,
          av_host_configured = is_host_configured (a_host a),
          av_runtime_status = os_runtime_status obs, av_error_kind = os_error_kind obs,
          av_last_error = os_last_error obs, av_created_at_ms = a_created_at_ms a,
          av_updated_at_ms = a_updated_at_ms a\<rparr>)"

definition get_allocation :: "string \<Rightarrow> ('rt service, service_error, allocation option) action" where
  "get_allocation aid = with_repo (repo_get_allocation aid)"

definition list_allocation_resources :: "('rt service, service_error, allocation_resource list) action" where
  "list_allocation_resources =
     and_then (with_repo repo_list_allocations) (\<lambda>allocs. return (map allocation_resource_of allocs))"

definition get_allocation_resource :: "string \<Rightarrow> ('rt service, service_error, allocation_resource option) action" where
  "get_allocation_resource aid =
     and_then (with_repo (repo_get_allocation aid)) (\<lambda>a. return (map_option allocation_resource_of a))"

definition allocation_view_for :: "'rt runtime_facade \<Rightarrow> allocation \<Rightarrow> ('rt service, service_error, allocation_view) action" where
  "allocation_view_for rt a =
     and_then (ask_runtime (rf_snapshot rt (a_id a))) (\<lambda>observed. return (allocation_view_of a observed))"

fun allocation_views :: "'rt runtime_facade \<Rightarrow> allocation list \<Rightarrow> ('rt service, service_error, allocation_view list) action" where
  "allocation_views rt [] = return []"
| "allocation_views rt (a # rest) =
     and_then (allocation_view_for rt a) (\<lambda>v. and_then (allocation_views rt rest) (\<lambda>vs. return (v # vs)))"

definition list_allocations :: "'rt runtime_facade \<Rightarrow> ('rt service, service_error, allocation_view list) action" where
  "list_allocations rt = and_then (with_repo repo_list_allocations) (allocation_views rt)"

definition get_allocation_view :: "'rt runtime_facade \<Rightarrow> string \<Rightarrow> ('rt service, service_error, allocation_view option) action" where
  "get_allocation_view rt aid =
     and_then (with_repo (repo_get_allocation aid)) (\<lambda>found.
       case found of
         None \<Rightarrow> return None
       | Some a \<Rightarrow> and_then (allocation_view_for rt a) (\<lambda>v. return (Some v)))"

definition binding_view_for :: "'rt runtime_facade \<Rightarrow> binding \<Rightarrow> ('rt service, service_error, binding_view) action" where
  "binding_view_for rt b =
     and_then (ask_runtime (rf_snapshot rt (b_allocation_id b))) (\<lambda>observed. return (binding_view_of b observed))"

definition get_binding_view :: "'rt runtime_facade \<Rightarrow> string \<Rightarrow> ('rt service, service_error, binding_view option) action" where
  "get_binding_view rt aid =
     and_then (with_repo (repo_get_binding aid)) (\<lambda>found.
       case found of
         None \<Rightarrow> return None
       | Some b \<Rightarrow> and_then (binding_view_for rt b) (\<lambda>v. return (Some v)))"

definition snapshot_listener_metrics :: "'rt runtime_facade \<Rightarrow> ('rt service, service_error, listener_metrics_snapshot list) action" where
  "snapshot_listener_metrics rt = ask_runtime (rf_snapshot_listener_metrics rt)"

subsection \<open>Changing targets\<close>

definition now_ms :: "('rt service, service_error, i64) action" where
  "now_ms s = (case current_time_ms s of (now, s') \<Rightarrow> (Ok now, s'))"

definition fail_if :: "(failpoints \<Rightarrow> bool) \<Rightarrow> service_error \<Rightarrow> ('rt service, service_error, unit) action" where
  "fail_if fp e s = (if fp (service_failpoints s) then (Err e, s) else (Ok (), s))"

definition update_in_runtime :: "'rt runtime_facade \<Rightarrow> allocation \<Rightarrow> ('rt service, service_error, unit) action" where
  "update_in_runtime rt a s = with_runtime (rf_update rt a (apply_timeout_ms s)) s"

definition check_host :: "string \<Rightarrow> ('rt service, service_error, unit) action" where
  "check_host host = (case parse_ip_literal host of Inl _ \<Rightarrow> throw ServiceInvalidHost | Inr _ \<Rightarrow> return ())"

text \<open>Storing the binding and handing the new target to the runtime, common to both update paths.\<close>

definition apply_binding :: "'rt runtime_facade \<Rightarrow> allocation \<Rightarrow> binding \<Rightarrow> ('rt service, service_error, allocation) action" where
  "apply_binding rt a b =
     and_then (with_repo (repo_put_binding b)) (\<lambda>_.
       let updated = allocation_with_binding a b in
       and_then (fail_if fp_update_timeout ServiceTimeout) (\<lambda>_.
       and_then (update_in_runtime rt updated) (\<lambda>_. return updated)))"

text \<open>
  The new binding: it keeps the creation time of the binding it replaces. An update that names no host
  keeps the host of the binding, or else that of the allocation.
\<close>

definition make_binding :: "string \<Rightarrow> u16 \<Rightarrow> string option \<Rightarrow> binding option \<Rightarrow> i64 \<Rightarrow> binding" where
  "make_binding aid target_port host existing_binding now =
     \<lparr>b_allocation_id = aid, b_target_port = target_port, b_host = host,
      b_created_at_ms = unwrap_or (map_option b_created_at_ms existing_binding) now, b_updated_at_ms = now\<rparr>"

definition resolved_host :: "string option \<Rightarrow> binding option \<Rightarrow> allocation \<Rightarrow> string option" where
  "resolved_host host existing_binding a =
     or_else (or_else host (Option.bind existing_binding b_host)) (a_host a)"

definition put_binding :: "'rt runtime_facade \<Rightarrow> string \<Rightarrow> string \<Rightarrow> u16 \<Rightarrow> ('rt service, service_error, binding) action" where
  "put_binding rt aid host target_port =
     and_then (check_host host) (\<lambda>_.
     and_then (with_repo (repo_get_allocation_with_binding aid)) (\<lambda>found.
       case found of
         None \<Rightarrow> throw NotFound
       | Some (a, existing_binding) \<Rightarrow>
           and_then now_ms (\<lambda>now.
             let b = make_binding aid target_port (Some host) existing_binding now
             in and_then (apply_binding rt a b) (\<lambda>_. return b))))"

definition delete_binding :: "'rt runtime_facade \<Rightarrow> string \<Rightarrow> ('rt service, service_error, unit) action" where
  "delete_binding rt aid =
     and_then (with_repo (repo_get_allocation_with_binding aid)) (\<lambda>found.
       case found of
         None \<Rightarrow> throw NotFound
       | Some (a, None) \<Rightarrow> throw NotFound
       | Some (a, Some existing_binding) \<Rightarrow>
           and_then now_ms (\<lambda>now.
           and_then (with_repo (repo_delete_binding aid now)) (\<lambda>deleted.
             if \<not> deleted then throw NotFound
             else and_then (fail_if fp_update_timeout ServiceTimeout) (\<lambda>_.
               update_in_runtime rt (a\<lparr>a_target_port := None, a_host := None, a_updated_at_ms := now\<rparr>)))))"

definition update_allocation :: "'rt runtime_facade \<Rightarrow> string \<Rightarrow> u16 option \<Rightarrow> string option \<Rightarrow>
    ('rt service, service_error, allocation) action" where
  "update_allocation rt aid target_port host =
     and_then (with_repo (repo_get_allocation_with_binding aid)) (\<lambda>found.
       case found of
         None \<Rightarrow> throw NotFound
       | Some (a, existing_binding) \<Rightarrow>
           and_then (case host of None \<Rightarrow> return () | Some h \<Rightarrow> check_host h) (\<lambda>_.
           case or_else target_port (map_option b_target_port existing_binding) of
             None \<Rightarrow> throw NotFound
           | Some resolved_target_port \<Rightarrow>
               and_then now_ms (\<lambda>now.
                 apply_binding rt a (make_binding aid resolved_target_port
                   (resolved_host host existing_binding a) existing_binding now))))"

definition set_target :: "'rt runtime_facade \<Rightarrow> string \<Rightarrow> string \<Rightarrow> ('rt service, service_error, allocation) action" where
  "set_target rt aid host = update_allocation rt aid None (Some host)"

subsection \<open>Deleting and restoring\<close>

definition delete_in_runtime :: "'rt runtime_facade \<Rightarrow> string \<Rightarrow> ('rt service, service_error, unit) action" where
  "delete_in_runtime rt aid s = with_runtime (rf_delete rt aid (apply_timeout_ms s)) s"

definition restore_in_runtime :: "'rt runtime_facade \<Rightarrow> allocation \<Rightarrow> u32 \<Rightarrow> ('rt service, service_error, unit) action" where
  "restore_in_runtime rt a timeout_ms = with_runtime (rf_restore rt a timeout_ms)"

definition delete_allocation :: "'rt runtime_facade \<Rightarrow> string \<Rightarrow> ('rt service, service_error, unit) action" where
  "delete_allocation rt aid =
     and_then (with_repo (repo_get_allocation aid)) (\<lambda>found.
       case found of
         None \<Rightarrow> throw NotFound
       | Some a \<Rightarrow>
           and_then (fail_if fp_delete_timeout ServiceTimeout) (\<lambda>_.
           and_then (delete_in_runtime rt aid) (\<lambda>_ s.
             if fp_delete_db_failure (service_failpoints s)
             then and_then (restore_in_runtime rt a (apply_timeout_ms s)) (\<lambda>_. throw DeletePersistenceFailed) s
             else and_then (with_repo (repo_delete_allocation aid))
               (\<lambda>deleted. if deleted then return () else throw NotFound) s)))"

fun restore_each :: "'rt runtime_facade \<Rightarrow> u32 \<Rightarrow> allocation list \<Rightarrow> ('rt service, service_error, unit) action" where
  "restore_each rt timeout_ms [] = return ()"
| "restore_each rt timeout_ms (a # rest) =
     and_then (restore_in_runtime rt a timeout_ms) (\<lambda>_. restore_each rt timeout_ms rest)"

definition restore_all :: "'rt runtime_facade \<Rightarrow> u32 \<Rightarrow> ('rt service, service_error, unit) action" where
  "restore_all rt timeout_ms =
     and_then (with_runtime (rf_initialize rt timeout_ms)) (\<lambda>_.
     and_then (with_repo repo_list_allocations) (restore_each rt timeout_ms))"

section \<open>What every operation keeps of the tables\<close>

text \<open>
  \<open>db_ok\<close>: the tables are well formed and mirrored, no port is promised twice and every stored host is
  an IP literal. Every operation keeps it, with any runtime and any fault of the repository.
\<close>

definition db_ok :: "database \<Rightarrow> bool" where
  "db_ok d \<longleftrightarrow> db_inv d \<and> (\<forall>h \<in> db_hosts d. host_literal (Some h))"

definition on_db :: "(database \<Rightarrow> bool) \<Rightarrow> 'rt service \<Rightarrow> bool" where
  "on_db Q s \<longleftrightarrow> Q (db (repo s))"

lemma db_ok_wf: "db_ok d \<Longrightarrow> db_wf d"
  by (simp add: db_ok_def db_inv_def)

lemma db_ok_put_binding:
  "db_ok d \<Longrightarrow> abs_store d (b_allocation_id b) \<noteq> None \<Longrightarrow> host_literal (b_host b) \<Longrightarrow> db_ok (db_put_binding b d)"
  using db_hosts_put_binding [of b d] db_inv_put_binding [of d b]
  by (auto simp: db_ok_def elem_set)

lemma db_ok_delete_binding: "db_ok d \<Longrightarrow> db_ok (db_delete_binding aid upd d)"
  using db_hosts_delete_binding [of aid upd d] db_inv_delete_binding [of d aid upd] by (auto simp: db_ok_def)

lemma db_ok_delete_allocation: "db_ok d \<Longrightarrow> db_ok (db_delete_allocation aid d)"
  using db_hosts_delete_allocation [of aid d] db_inv_delete_allocation [of d aid] by (auto simp: db_ok_def)

lemma db_ok_insert_allocation:
  "db_ok d \<Longrightarrow> \<not> db_has_key (a_id a) (a_protocol a) (a_port a) d \<Longrightarrow>
     port_free (a_protocol a) (uint (a_port a)) d \<Longrightarrow> a_target_port a = None \<Longrightarrow> a_host a = None \<Longrightarrow>
     db_ok (db_insert_allocation a d)"
  using db_hosts_insert(1) [of a d] db_inv_insert_allocation [of d a] by (auto simp: db_ok_def)

lemma db_ok_insert_with_binding:
  "db_ok d \<Longrightarrow> \<not> db_has_key (a_id a) (a_protocol a) (a_port a) d \<Longrightarrow>
     port_free (a_protocol a) (uint (a_port a)) d \<Longrightarrow> binding_matches a b \<Longrightarrow> a_host a = None \<Longrightarrow>
     db_ok (db_insert_binding b (db_insert_allocation a d))"
  using db_hosts_insert(2) [of b "db_insert_allocation a d"] db_hosts_insert(1) [of a d]
    db_inv_insert_with_binding [of d a b]
  by (auto simp: db_ok_def binding_matches_def)

lemma stored_host_literal:
  assumes "db_ok d" and "abs_store d aid = Some (a, bd)"
  shows "host_literal (a_host a)" and "bd = Some b \<Longrightarrow> host_literal (b_host b)"
proof -
  from assms(2) obtain r where r: "select_row aid d = Some r" "decode_join (r, select_binding aid d) = Some (a, bd)"
    by (auto simp: abs_store_alt bind_eq_Some_conv)
  have rh: "row_host r = Some h \<Longrightarrow> h \<in> db_hosts d" for h
    using r(1) by (force simp: select_row_def db_hosts_def dest: find_key_Some)
  have bh: "select_binding aid d = Some br \<Longrightarrow> brow_host br = Some h \<Longrightarrow> h \<in> db_hosts d" for br h
    by (force simp: select_binding_def db_hosts_def dest: find_key_Some)
  have "bd = map_option (\<lambda>br. \<lparr>b_allocation_id = brow_allocation_id br, b_target_port = of_int (brow_target_port br),
      b_host = brow_host br, b_created_at_ms = brow_created_at_ms br, b_updated_at_ms = brow_updated_at_ms br\<rparr>) (select_binding aid d)"
    using decode_join_Some [OF r(2)]
    by (cases "select_binding aid d") (auto simp: transpose_result_eq_Ok row_to_binding_def question_eq_Ok port_from_i32_eq_Ok)
  moreover have "a_host a = or_else (Option.bind bd b_host) (row_host r)"
    using r(2) by (auto simp: decode_join_def row_to_allocation_with_binding_def question_eq_Ok split: sum.splits)
  ultimately show "host_literal (a_host a)" "bd = Some b \<Longrightarrow> host_literal (b_host b)"
    using assms(1) rh bh
    by (cases "select_binding aid d"; cases "row_host r"; cases "Option.bind bd b_host";
        auto simp: db_ok_def host_literal_def split: option.splits)+
qed

subsection \<open>Triples for the calls\<close>

lemma on_db_with_repo:
  assumes "implements m spec" and "\<And>d x d'. Q d \<Longrightarrow> spec d = (Inr x, d') \<Longrightarrow> R x d'"
  shows "valid (on_db Q) (with_repo m) (\<lambda>x. on_db (R x)) (\<lambda>_. on_db Q)"
proof (rule validI)
  fix s x s' assume "on_db Q s" "with_repo m s = (Inr x, s')"
  moreover from this obtain r where "m (repo s) = (Inr x, r)" "s' = s\<lparr>repo := r\<rparr>"
    by (auto simp: with_repo_def zoom_def split: prod.splits)
  ultimately show "on_db (R x) s'" using assms(2) implements_Ok(2) [OF assms(1)] by (simp add: on_db_def)
next
  fix s e s' assume "on_db Q s" "with_repo m s = (Inl e, s')"
  moreover from this obtain e' r where "m (repo s) = (Inl e', r)" "s' = s\<lparr>repo := r\<rparr>"
    by (cases "m (repo s)"; cases "fst (m (repo s))") (auto simp: with_repo_def zoom_def)
  ultimately show "on_db Q s'" using implements_Err(2) [OF assms(1)] by (simp add: on_db_def)
qed

lemma on_db_with_runtime: "valid (on_db Q) (with_runtime m) (\<lambda>_. on_db Q) (\<lambda>_. on_db Q)"
  by (rule validI) (auto simp: with_runtime_def zoom_def on_db_def split: prod.splits)

lemma on_db_other:
  "valid (on_db Q) (update_in_runtime rt a) (\<lambda>_. on_db Q) (\<lambda>_. on_db Q)"
  "valid (on_db Q) (delete_in_runtime rt aid) (\<lambda>_. on_db Q) (\<lambda>_. on_db Q)"
  "valid (on_db Q) (restore_in_runtime rt a t) (\<lambda>_. on_db Q) (\<lambda>_. on_db Q)"
  "valid (on_db Q) now_ms (\<lambda>_. on_db Q) (\<lambda>_. on_db Q)"
  "valid (on_db Q) (fail_if fp e) (\<lambda>_. on_db Q) (\<lambda>_. on_db Q)"
  by (rule validI; auto simp: update_in_runtime_def delete_in_runtime_def restore_in_runtime_def with_runtime_def zoom_def
      on_db_def now_ms_def current_time_ms_def fail_if_def split: prod.splits if_splits)+

lemma on_db_get_with_binding:
  "valid (on_db db_ok) (with_repo (repo_get_allocation_with_binding aid))
     (\<lambda>found. on_db (\<lambda>d. db_ok d \<and> abs_store d aid = found)) (\<lambda>_. on_db db_ok)"
  by (rule on_db_with_repo [OF implements_get_allocation_with_binding])
    (auto simp: read_spec_def abs_store_read_with_binding db_ok_wf)

lemma on_db_get:
  "valid (on_db db_ok) (with_repo (repo_get_allocation aid))
     (\<lambda>found. on_db (\<lambda>d. db_ok d \<and> map_option fst (abs_store d aid) = found)) (\<lambda>_. on_db db_ok)"
  by (rule on_db_with_repo [OF implements_get_allocation])
    (auto simp: read_spec_def abs_store_read db_ok_wf)

subsection \<open>Updates and deletion keep the tables\<close>

lemma stored_call:
  "valid (on_db P) m (\<lambda>_. on_db P) (\<lambda>_. on_db P) \<Longrightarrow> (\<And>d. P d \<Longrightarrow> db_ok d) \<Longrightarrow>
     valid (on_db P) m (\<lambda>_. on_db P) (\<lambda>_. on_db db_ok)"
  by (erule valid_weaken) (simp_all add: on_db_def)

lemma apply_binding_ok:
  assumes "host_literal (b_host b)"
  shows "valid (on_db (\<lambda>d. db_ok d \<and> abs_store d (b_allocation_id b) = Some (a, bd))) (apply_binding rt a b)
     (\<lambda>_. on_db db_ok) (\<lambda>_. on_db db_ok)"
  unfolding apply_binding_def Let_def
proof (rule valid_and_then)
  let ?Q = "\<lambda>d. db_ok d \<and> abs_store d (b_allocation_id b) = Some (a, bd)"
  have "valid (on_db ?Q) (with_repo (repo_put_binding b)) (\<lambda>_. on_db db_ok) (\<lambda>_. on_db ?Q)"
    by (rule on_db_with_repo [OF implements_put_binding]) (auto intro: db_ok_put_binding assms)
  then show "valid (on_db ?Q) (with_repo (repo_put_binding b)) (\<lambda>_. on_db db_ok) (\<lambda>_. on_db db_ok)"
    by (rule valid_weaken) (simp_all add: on_db_def)
qed (intro valid_and_then [OF on_db_other(5)] valid_and_then [OF on_db_other(1)] valid_return)

lemma check_host_ok:
  "valid (on_db Q) (check_host h) (\<lambda>_ s. host_literal (Some h) \<and> on_db Q s) (\<lambda>_. on_db Q)"
  unfolding check_host_def host_literal_def parse_ip_literal_def
  by (cases "ip_addr_from_str h") (auto intro!: valid_throw valid_return)

lemma apply_made_binding_ok:
  assumes "host_literal host"
  shows "valid (on_db (\<lambda>d. db_ok d \<and> abs_store d aid = Some (a, bd)))
     (and_then now_ms (\<lambda>now. apply_binding rt a (make_binding aid tp host bd now)))
     (\<lambda>_. on_db db_ok) (\<lambda>_. on_db db_ok)"
proof (rule valid_and_then [OF stored_call [OF on_db_other(4)]])
  fix now
  show "valid (on_db (\<lambda>d. db_ok d \<and> abs_store d aid = Some (a, bd))) (apply_binding rt a (make_binding aid tp host bd now))
     (\<lambda>_. on_db db_ok) (\<lambda>_. on_db db_ok)"
    using apply_binding_ok [of "make_binding aid tp host bd now" a bd rt] assms by (simp add: make_binding_def)
qed simp

lemma put_binding_ok: "valid (on_db db_ok) (put_binding rt aid host tp) (\<lambda>_. on_db db_ok) (\<lambda>_. on_db db_ok)"
  unfolding put_binding_def
proof (intro valid_and_then [OF check_host_ok] valid_fact valid_and_then [OF on_db_get_with_binding])
  fix found
  assume lit: "host_literal (Some host)"
  have "valid (on_db (\<lambda>d. db_ok d \<and> abs_store d aid = Some (a, eb)))
      (and_then now_ms (\<lambda>now. and_then (apply_binding rt a (make_binding aid tp (Some host) eb now))
        (\<lambda>_. return (make_binding aid tp (Some host) eb now)))) (\<lambda>_. on_db db_ok) (\<lambda>_. on_db db_ok)" for a eb
  proof (rule valid_and_then [OF stored_call [OF on_db_other(4)]])
    fix now
    show "valid (on_db (\<lambda>d. db_ok d \<and> abs_store d aid = Some (a, eb)))
      (and_then (apply_binding rt a (make_binding aid tp (Some host) eb now))
        (\<lambda>_. return (make_binding aid tp (Some host) eb now))) (\<lambda>_. on_db db_ok) (\<lambda>_. on_db db_ok)"
      using apply_binding_ok [of "make_binding aid tp (Some host) eb now" a eb rt] lit
      by (intro valid_and_then valid_return) (simp_all add: make_binding_def)
  qed simp
  then show "valid (on_db (\<lambda>d. db_ok d \<and> abs_store d aid = found))
      (case found of None \<Rightarrow> throw NotFound | Some (a, eb) \<Rightarrow> and_then now_ms (\<lambda>now.
         let b = make_binding aid tp (Some host) eb now
         in and_then (apply_binding rt a b) (\<lambda>_. return b))) (\<lambda>_. on_db db_ok) (\<lambda>_. on_db db_ok)"
    by (auto simp: Let_def on_db_def intro: valid_throw split: option.split)
qed

lemma repo_delete_binding_ok:
  "valid (on_db db_ok) (with_repo (repo_delete_binding aid now)) (\<lambda>_. on_db db_ok) (\<lambda>_. on_db db_ok)"
  by (rule on_db_with_repo [OF implements_delete_binding]) (auto intro: db_ok_delete_binding)

lemma repo_delete_allocation_ok:
  "valid (on_db db_ok) (with_repo (repo_delete_allocation aid)) (\<lambda>_. on_db db_ok) (\<lambda>_. on_db db_ok)"
  by (rule on_db_with_repo [OF implements_delete_allocation]) (auto intro: db_ok_delete_allocation)

lemma get_with_binding_ok:
  "valid (on_db db_ok) (with_repo (repo_get_allocation_with_binding aid)) (\<lambda>_. on_db db_ok) (\<lambda>_. on_db db_ok)"
  by (rule valid_weaken [OF on_db_get_with_binding]) (simp_all add: on_db_def)

lemma get_ok:
  "valid (on_db db_ok) (with_repo (repo_get_allocation aid)) (\<lambda>_. on_db db_ok) (\<lambda>_. on_db db_ok)"
  by (rule valid_weaken [OF on_db_get]) (simp_all add: on_db_def)

lemma delete_binding_ok: "valid (on_db db_ok) (delete_binding rt aid) (\<lambda>_. on_db db_ok) (\<lambda>_. on_db db_ok)"
  unfolding delete_binding_def
  by (rule valid_and_then [OF get_with_binding_ok])
    (auto split: option.split intro!: valid_throw valid_and_then [OF on_db_other(4)]
      valid_and_then [OF repo_delete_binding_ok] valid_and_then [OF on_db_other(5)] on_db_other(1))

lemma host_literal_or_else: "host_literal x \<Longrightarrow> host_literal y \<Longrightarrow> host_literal (or_else x y)"
  by (cases x) auto

lemma host_literal_bind: "(\<And>b. eb = Some b \<Longrightarrow> host_literal (f b)) \<Longrightarrow> host_literal (Option.bind eb f)"
  by (cases eb) (auto simp: host_literal_def)

lemma check_optional_host_ok:
  "valid (on_db P) (case host of None \<Rightarrow> return () | Some h \<Rightarrow> check_host h)
     (\<lambda>_ s. host_literal host \<and> on_db P s) (\<lambda>_. on_db P)"
proof (cases host)
  case (Some h)
  show ?thesis unfolding Some option.case by (rule check_host_ok)
qed (auto intro!: valid_return simp: host_literal_def)

lemma update_found_ok:
  "valid (on_db (\<lambda>d. db_ok d \<and> abs_store d aid = Some (a, eb)))
     (and_then (case host of None \<Rightarrow> return () | Some h \<Rightarrow> check_host h) (\<lambda>_.
        case or_else tp (map_option b_target_port eb) of None \<Rightarrow> throw NotFound
        | Some rtp \<Rightarrow> and_then now_ms (\<lambda>now. apply_binding rt a (make_binding aid rtp (resolved_host host eb a) eb now))))
     (\<lambda>_. on_db db_ok) (\<lambda>_. on_db db_ok)" (is "valid ?P _ _ _")
proof (rule valid_knows)
  show "host_literal (a_host a) \<and> (\<forall>b. eb = Some b \<longrightarrow> host_literal (b_host b))" if "?P s" for s
    using that stored_host_literal [of "db (repo s)" aid a eb] by (auto simp: on_db_def)
next
  assume hosts: "host_literal (a_host a) \<and> (\<forall>b. eb = Some b \<longrightarrow> host_literal (b_host b))"
  have check: "valid ?P (case host of None \<Rightarrow> return () | Some h \<Rightarrow> check_host h) (\<lambda>_ s. host_literal host \<and> ?P s) (\<lambda>_. on_db db_ok)"
    by (rule valid_weaken [OF check_optional_host_ok [where P = "\<lambda>d. db_ok d \<and> abs_store d aid = Some (a, eb)"]])
      (simp_all add: on_db_def)
  show "valid ?P (and_then (case host of None \<Rightarrow> return () | Some h \<Rightarrow> check_host h) (\<lambda>_.
        case or_else tp (map_option b_target_port eb) of None \<Rightarrow> throw NotFound
        | Some rtp \<Rightarrow> and_then now_ms (\<lambda>now. apply_binding rt a (make_binding aid rtp (resolved_host host eb a) eb now))))
     (\<lambda>_. on_db db_ok) (\<lambda>_. on_db db_ok)"
  proof (intro valid_and_then [OF check] valid_fact)
    assume "host_literal host"
    with hosts have "host_literal (resolved_host host eb a)"
      unfolding resolved_host_def by (intro host_literal_or_else host_literal_bind) auto
    then show "valid ?P (case or_else tp (map_option b_target_port eb) of None \<Rightarrow> throw NotFound
        | Some rtp \<Rightarrow> and_then now_ms (\<lambda>now. apply_binding rt a (make_binding aid rtp (resolved_host host eb a) eb now)))
     (\<lambda>_. on_db db_ok) (\<lambda>_. on_db db_ok)"
      by (cases "or_else tp (map_option b_target_port eb)")
        (auto simp: on_db_def intro!: apply_made_binding_ok valid_throw)
  qed
qed

lemma update_allocation_ok: "valid (on_db db_ok) (update_allocation rt aid tp host) (\<lambda>_. on_db db_ok) (\<lambda>_. on_db db_ok)"
  unfolding update_allocation_def
proof (rule valid_and_then [OF on_db_get_with_binding])
  fix found
  show "valid (on_db (\<lambda>d. db_ok d \<and> abs_store d aid = found))
      (case found of None \<Rightarrow> throw NotFound
       | Some (a, eb) \<Rightarrow> and_then (case host of None \<Rightarrow> return () | Some h \<Rightarrow> check_host h) (\<lambda>_.
           case or_else tp (map_option b_target_port eb) of None \<Rightarrow> throw NotFound
           | Some rtp \<Rightarrow> and_then now_ms (\<lambda>now. apply_binding rt a (make_binding aid rtp (resolved_host host eb a) eb now))))
      (\<lambda>_. on_db db_ok) (\<lambda>_. on_db db_ok)"
    by (cases found) (auto simp only: option.case prod.case split_paired_all update_found_ok on_db_def intro!: valid_throw)
qed

lemma valid_if_state:
  "(\<And>t. valid P (f t) Q E) \<Longrightarrow> valid P g Q E \<Longrightarrow> valid P (\<lambda>s. if c s then f (h s) s else g s) Q E"
  by (simp add: valid_def)

lemma delete_allocation_ok: "valid (on_db db_ok) (delete_allocation rt aid) (\<lambda>_. on_db db_ok) (\<lambda>_. on_db db_ok)"
proof -
  have restore: "valid (on_db db_ok) (and_then (restore_in_runtime rt a t) (\<lambda>_. throw DeletePersistenceFailed))
      (\<lambda>_. on_db db_ok) (\<lambda>_. on_db db_ok)" for a t
    by (intro valid_and_then [OF on_db_other(3)] valid_throw)
  have delete: "valid (on_db db_ok) (and_then (with_repo (repo_delete_allocation aid))
      (\<lambda>deleted. if deleted then return () else throw NotFound)) (\<lambda>_. on_db db_ok) (\<lambda>_. on_db db_ok)"
    by (rule valid_and_then [OF repo_delete_allocation_ok]) (auto intro: valid_return valid_throw)
  have "valid (on_db db_ok) (\<lambda>s. if fp_delete_db_failure (service_failpoints s)
             then and_then (restore_in_runtime rt a (apply_timeout_ms s)) (\<lambda>_. throw DeletePersistenceFailed) s
             else and_then (with_repo (repo_delete_allocation aid))
               (\<lambda>deleted. if deleted then return () else throw NotFound) s)
      (\<lambda>_. on_db db_ok) (\<lambda>_. on_db db_ok)" for a
    by (rule valid_if_state [OF restore delete])
  then show ?thesis
    unfolding delete_allocation_def
    by (intro valid_and_then [OF get_ok])
      (auto split: option.split intro!: valid_throw valid_and_then [OF on_db_other(5)] valid_and_then [OF on_db_other(2)])
qed

lemma list_ok:
  "valid (on_db db_ok) (with_repo repo_list_allocations) (\<lambda>xs. on_db (\<lambda>d. db_ok d \<and> list_spec d = Ok xs)) (\<lambda>_. on_db db_ok)"
proof (rule validI)
  fix s xs s' assume "on_db db_ok s" "with_repo repo_list_allocations s = (Inr xs, s')"
  moreover from this obtain r where "repo_list_allocations (repo s) = (Inr xs, r)" "s' = s\<lparr>repo := r\<rparr>"
    by (auto simp: with_repo_def zoom_def split: prod.splits)
  ultimately show "on_db (\<lambda>d. db_ok d \<and> list_spec d = Ok xs) s'"
    using repo_list_allocations_run(1,4) [of "repo s" "Inr xs" r] by (simp add: on_db_def db_ok_wf)
next
  fix s e s' assume "on_db db_ok s" "with_repo repo_list_allocations s = (Inl e, s')"
  moreover from this obtain e' r where "repo_list_allocations (repo s) = (Inl e', r)" "s' = s\<lparr>repo := r\<rparr>"
    by (cases "repo_list_allocations (repo s)"; cases "fst (repo_list_allocations (repo s))") (auto simp: with_repo_def zoom_def)
  ultimately show "on_db db_ok s'"
    using repo_list_allocations_run(1) [of "repo s" "Inl e'" r] by (simp add: on_db_def db_ok_wf)
qed

lemma restore_each_db: "valid (on_db Q) (restore_each rt t xs) (\<lambda>_. on_db Q) (\<lambda>_. on_db Q)"
proof (induction xs)
  case Nil
  then show ?case unfolding restore_each.simps by (intro valid_return)
next
  case (Cons a xs)
  then show ?case unfolding restore_each.simps by (intro valid_and_then [OF on_db_other(3)])
qed

lemma restore_all_ok: "valid (on_db db_ok) (restore_all rt t) (\<lambda>_. on_db db_ok) (\<lambda>_. on_db db_ok)"
  unfolding restore_all_def
  by (intro valid_and_then [OF on_db_with_runtime] valid_and_then [OF list_ok] valid_weaken [OF restore_each_db])
    (simp_all add: on_db_def)

subsection \<open>Creation keeps the tables\<close>

definition created_binding :: "allocation \<Rightarrow> binding option" where
  "created_binding a = map_option (\<lambda>tp. \<lparr>b_allocation_id = a_id a, b_target_port = tp, b_host = a_host a,
     b_created_at_ms = a_created_at_ms a, b_updated_at_ms = a_updated_at_ms a\<rparr>) (a_target_port a)"

definition db_persist :: "allocation \<Rightarrow> database \<Rightarrow> database" where
  "db_persist a d = (case created_binding a of None \<Rightarrow> db_insert_allocation a d
     | Some b \<Rightarrow> db_insert_binding b (db_insert_allocation a d))"

definition persist_action :: "allocation \<Rightarrow> (repository, repository_error, unit) action" where
  "persist_action a = (case created_binding a of None \<Rightarrow> insert_allocation a
     | Some b \<Rightarrow> insert_allocation_with_binding a b)"

lemma persist_created_allocation_alt: "persist_created_allocation a = with_repo (persist_action a)"
  by (simp add: persist_created_allocation_def persist_action_def created_binding_def split: option.split)

lemma created_binding_matches: "created_binding a = Some b \<Longrightarrow> binding_matches a b"
  by (auto simp: created_binding_def binding_matches_def)

lemma persist_action_Ok:
  assumes "persist_action a r = (Inr u, r')" and "db_wf (db r)"
  shows "\<not> db_has_key (a_id a) (a_protocol a) (a_port a) (db r)" and "db r' = db_persist a (db r)"
proof -
  have "\<not> db_has_key (a_id a) (a_protocol a) (a_port a) (db r) \<and> db r' = db_persist a (db r)"
  proof (cases "created_binding a")
    case None
    with assms implements_Ok(2) [OF implements_insert_allocation, of a r u r'] show ?thesis
      by (auto simp: persist_action_def db_persist_def split: if_splits)
  next
    case (Some b)
    with assms implements_Ok(2) [OF implements_insert_with_binding [OF created_binding_matches [OF Some]], of r u r']
    show ?thesis by (auto simp: persist_action_def db_persist_def split: if_splits)
  qed
  then show "\<not> db_has_key (a_id a) (a_protocol a) (a_port a) (db r)" and "db r' = db_persist a (db r)" by simp_all
qed

lemma persist_action_Err:
  assumes "persist_action a r = (Inl e, r')"
  shows "db r' = db r" and "faults r' = faults r"
  using assms implements_Err(1,2) [OF implements_insert_allocation, of a r e r']
    implements_Err(1,2) [OF implements_insert_with_binding [OF created_binding_matches], of a _ r e r']
  by (auto simp: persist_action_def split: option.splits)

lemma persist_faults:
  assumes "persist_action a r = (res, r')"
  shows "faults r' = faults r"
  using assms implements_Ok(1) [OF implements_insert_allocation, of a r _ r']
    implements_Ok(1) [OF implements_insert_with_binding [OF created_binding_matches], of a _ r _ r']
    persist_action_Err(2) [of a r _ r']
  by (cases res) (auto simp: persist_action_def split: option.splits)

lemma persist_action_fault_free:
  assumes "fault_free r" and "db_wf (db r)" and "\<not> db_has_key (a_id a) (a_protocol a) (a_port a) (db r)"
  obtains r' where "persist_action a r = (Inr (), r')" and "db r' = db_persist a (db r)" and "faults r' = faults r"
proof -
  have "select_binding (a_id a) (db r) = None"
    using assms(2,3) db_has_key_row db_wf_no_dangling by blast
  moreover have "\<exists>r'. persist_action a r = (Inr (), r') \<and> db r' = db_persist a (db r) \<and> faults r' = faults r"
  proof (cases "created_binding a")
    case None
    obtain r' where "insert_allocation a r = (Inr (), r')" "db r' = db_insert_allocation a (db r)" "faults r' = faults r"
      by (rule implements_fault_free [OF implements_insert_allocation assms(1), of a]) (simp_all add: assms(3))
    with None show ?thesis by (simp add: persist_action_def db_persist_def)
  next
    case (Some b)
    obtain r' where "insert_allocation_with_binding a b r = (Inr (), r')"
      "db r' = db_insert_binding b (db_insert_allocation a (db r))" "faults r' = faults r"
      by (rule implements_fault_free [OF implements_insert_with_binding [OF created_binding_matches [OF Some]] assms(1)])
        (simp_all add: assms(3) calculation)
    with Some show ?thesis by (simp add: persist_action_def db_persist_def)
  qed
  ultimately show ?thesis using that by blast
qed

lemma db_persist_ok:
  assumes "db_ok d" and "\<not> db_has_key (a_id a) (a_protocol a) (a_port a) d"
    and "port_free (a_protocol a) (uint (a_port a)) d" and "a_host a = None"
  shows "db_ok (db_persist a d)"
  using assms db_ok_insert_allocation [of d a] db_ok_insert_with_binding [of d a] created_binding_matches [of a]
  by (cases "created_binding a") (auto simp: db_persist_def created_binding_def)

lemma abs_db_persist:
  assumes "db_wf d" and "\<not> db_has_key (a_id a) (a_protocol a) (a_port a) d"
  shows "abs_store (db_persist a d) = (abs_store d)(a_id a \<mapsto> (a, created_binding a))"
proof (cases "created_binding a")
  case None
  then have "a_target_port a \<noteq> Some 0" by (auto simp: created_binding_def)
  with None show ?thesis using abs_insert_allocation [OF assms] by (simp add: db_persist_def)
next
  case (Some b)
  with abs_insert_with_binding [OF assms created_binding_matches [OF Some]] show ?thesis by (simp add: db_persist_def)
qed

text \<open>What no operation changes: the configuration, the two sequences and the fault pattern.\<close>

definition same_env :: "'rt service \<Rightarrow> 'rt service \<Rightarrow> bool" where
  "same_env s s' \<longleftrightarrow> service_port_range s' = service_port_range s \<and> apply_timeout_ms s' = apply_timeout_ms s \<and>
     generated_ids s' = generated_ids s \<and> system_clock_ms s' = system_clock_ms s \<and>
     service_failpoints s' = service_failpoints s \<and> faults (repo s') = faults (repo s)"

definition is_new_allocation :: "'rt service \<Rightarrow> protocol \<Rightarrow> u16 option \<Rightarrow> u16 \<Rightarrow> allocation \<Rightarrow> bool" where
  "is_new_allocation s p tp port a \<longleftrightarrow> a_id a = generated_ids s (id_calls s) \<and> a_protocol a = p \<and> a_port a = port \<and>
     a_target_port a = tp \<and> a_host a = None \<and> a_updated_at_ms a = a_created_at_ms a"

lemma new_allocation_is:
  "new_allocation p tp port s = (a, s') \<Longrightarrow> is_new_allocation s p tp port a \<and> same_env s s' \<and> repo s' = repo s \<and>
     runtime s' = runtime s \<and> id_calls s' = id_calls s + 1"
  by (auto simp: new_allocation_def is_new_allocation_def same_env_def generate_id_def current_time_ms_def)

lemma persist_or_undo_cases:
  assumes "persist_or_undo rt a s = (res, s')"
  obtains (persisted) r where "persist_action a (repo s) = (Inr (), r)" "res = Inr a" "s' = s\<lparr>repo := r\<rparr>"
  | (undone) e r del x where "persist_action a (repo s) = (Inl e, r)" "res = Inl (RepositoryFailed e)"
      "rf_delete rt (a_id a) (apply_timeout_ms s) (runtime s) = (del, x)" "s' = s\<lparr>repo := r, runtime := x\<rparr>"
  using assms
  by (cases "persist_action a (repo s)"; cases "fst (persist_action a (repo s))";
      cases "rf_delete rt (a_id a) (apply_timeout_ms s) (runtime s)")
    (auto simp: persist_or_undo_def persist_created_allocation_alt with_repo_def with_runtime_def zoom_def)

lemma query_port:
  assumes "db_wf (db r)" and "find_available_allocation_port p start e r = (res, r')"
  shows "db r' = db r" and "faults r' = faults r"
    and "res = Inr q \<Longrightarrow> q = map_option of_int (first_free_port p (uint start) (uint e) (db r))"
    and "fault_free r \<Longrightarrow> \<exists>q. res = Inr q"
proof -
  have spec: "read_spec (\<lambda>d. transpose_result (map_option (port_from_i32 ''port'')
      (select_free_port p (uint start) (uint e) d))) (db r) = (Inr (map_option of_int (first_free_port p (uint start) (uint e) (db r))), db r)"
    using read_free_port [OF assms(1)] by (simp add: read_spec_def)
  show "db r' = db r" "faults r' = faults r"
    using assms(2) spec by (cases res; auto dest: implements_Ok [OF implements_find_port]
      implements_Err(1,2) [OF implements_find_port])+
  show "res = Inr q \<Longrightarrow> q = map_option of_int (first_free_port p (uint start) (uint e) (db r))"
    using assms(2) spec implements_Ok(2) [OF implements_find_port, of p start e r q r'] by auto
  show "fault_free r \<Longrightarrow> \<exists>q. res = Inr q"
    using assms(2) spec implements_Err(3) [OF implements_find_port, of p start e r _ r'] by (cases res) auto
qed

lemma first_free_u16:
  fixes start e :: u16
  assumes "first_free_port p (uint start) (uint e) d = Some n"
  shows "uint (of_int n :: u16) = n"
  using first_free_port_Some [OF assms] uint_u16_le [of e]
  by (intro uint_of_int_u16) (auto intro: order_trans [OF uint_ge_0])

text \<open>One attempt on a port, after the allocation \<open>a\<close> has been made in \<open>s2\<close> and offered to the runtime.\<close>

lemma attempt_outcome:
  assumes s2: "same_env s s2" "db (repo s2) = db (repo s)"
    and rest: "(case res of Inr _ \<Rightarrow> (case persist_or_undo rt a (s2\<lparr>runtime := x\<rparr>) of (res, s3) \<Rightarrow> (Stop res, s3))
             | Inl e \<Rightarrow> if e = RuntimeCreateFailed then (Continue np, s2\<lparr>runtime := x\<rparr>)
                 else (Stop (Err (RuntimeFailed e)), s2\<lparr>runtime := x\<rparr>)) = (out, s')"
  shows "same_env s s' \<and> id_calls s' = id_calls s2 \<and> (case res of
          Inl e \<Rightarrow> db (repo s') = db (repo s) \<and> runtime s' = x \<and>
            out = (if e = RuntimeCreateFailed then Continue np else Stop (Inl (RuntimeFailed e)))
        | Inr _ \<Rightarrow>
            (\<exists>r. persist_action a r = (Inr (), repo s') \<and> db r = db (repo s) \<and> runtime s' = x \<and> out = Stop (Inr a)) \<or>
            (\<exists>r e del. persist_action a r = (Inl e, repo s') \<and> db r = db (repo s) \<and> faults r = faults (repo s) \<and>
               rf_delete rt (a_id a) (apply_timeout_ms s) x = (del, runtime s') \<and> out = Stop (Inl (RepositoryFailed e))))"
proof (cases res)
  case (Inl e)
  with rest s2 show ?thesis by (auto simp: same_env_def split: if_splits)
next
  case (Inr u)
  obtain pres s3 where pu: "persist_or_undo rt a (s2\<lparr>runtime := x\<rparr>) = (pres, s3)" by fastforce
  with rest Inr have fin: "out = Stop pres" "s' = s3" by simp_all
  from pu show ?thesis
  proof (cases rule: persist_or_undo_cases)
    case (persisted r3)
    with fin s2 Inr show ?thesis by (auto simp: same_env_def persist_faults [OF persisted(1)])
  next
    case (undone e r3 del y)
    with fin s2 Inr show ?thesis
      by (auto simp: same_env_def persist_action_Err [OF undone(1)] intro!: exI [of _ "repo s2"])
  qed
qed

lemma create_attempt_cases:
  assumes wf: "db_wf (db (repo s))" and run: "create_attempt rt p tp start s = (out, s')"
  obtains (query_failed) e where "out = Stop (Inl (RepositoryFailed e))" "same_env s s'" "db (repo s') = db (repo s)"
      "runtime s' = runtime s" "id_calls s' = id_calls s" "\<not> fault_free (repo s)"
  | (exhausted) "out = Stop (Inl NoAvailablePort)" "same_env s s'" "db (repo s') = db (repo s)"
      "runtime s' = runtime s" "id_calls s' = id_calls s"
      "first_free_port p (uint start) (uint (pr_end (service_port_range s))) (db (repo s)) = None"
  | (tried) port a x res where
      "first_free_port p (uint start) (uint (pr_end (service_port_range s))) (db (repo s)) = Some (uint port)"
      "is_new_allocation s p tp port a" "rf_create rt a (apply_timeout_ms s) (runtime s) = (res, x)"
      "same_env s s'" "id_calls s' = id_calls s + 1"
      "(case res of
          Inl e \<Rightarrow> db (repo s') = db (repo s) \<and> runtime s' = x \<and>
            out = (if e = RuntimeCreateFailed then Continue (checked_add port 1) else Stop (Inl (RuntimeFailed e)))
        | Inr _ \<Rightarrow>
            (\<exists>r. persist_action a r = (Inr (), repo s') \<and> db r = db (repo s) \<and> runtime s' = x \<and> out = Stop (Inr a)) \<or>
            (\<exists>r e del. persist_action a r = (Inl e, repo s') \<and> db r = db (repo s) \<and> faults r = faults (repo s) \<and>
               rf_delete rt (a_id a) (apply_timeout_ms s) x = (del, runtime s') \<and> out = Stop (Inl (RepositoryFailed e))))"
proof -
  let ?e = "pr_end (service_port_range s)"
  obtain q r where find: "find_available_allocation_port p start ?e (repo s) = (q, r)" by fastforce
  note query = query_port [OF wf find]
  have env: "same_env s (s\<lparr>repo := r\<rparr>)" using query(2) by (simp add: same_env_def)
  show thesis
  proof (cases q)
    case (Inl e)
    with find run query env show thesis
      by (intro query_failed) (auto simp: create_attempt_def with_repo_def zoom_def)
  next
    case (Inr found)
    show thesis
    proof (cases found)
      case None
      with Inr find run query env show thesis
        by (intro exhausted) (auto simp: create_attempt_def with_repo_def zoom_def)
    next
      case (Some port)
      then have "map_option of_int (first_free_port p (uint start) (uint ?e) (db (repo s))) = Some port"
        using query(3) [OF Inr] by simp
      then obtain n where n: "first_free_port p (uint start) (uint ?e) (db (repo s)) = Some n" "port = of_int n"
        unfolding map_option_eq_Some by blast
      then have free: "first_free_port p (uint start) (uint ?e) (db (repo s)) = Some (uint port)"
        using first_free_u16 by simp
      obtain a s2 where new: "new_allocation p tp port (s\<lparr>repo := r\<rparr>) = (a, s2)" by fastforce
      note s2 = new_allocation_is [OF new]
      obtain res x where create: "rf_create rt a (apply_timeout_ms s2) (runtime s2) = (res, x)" by fastforce
      have rest: "(case res of Inr _ \<Rightarrow> (case persist_or_undo rt a (s2\<lparr>runtime := x\<rparr>) of (res, s3) \<Rightarrow> (Stop res, s3))
             | Inl e \<Rightarrow> if e = RuntimeCreateFailed then (Continue (checked_add port 1), s2\<lparr>runtime := x\<rparr>)
                 else (Stop (Err (RuntimeFailed e)), s2\<lparr>runtime := x\<rparr>)) = (out, s')"
        using run find Inr Some new create by (cases res) (simp_all add: create_attempt_def with_repo_def zoom_def)
      have s2': "same_env s s2" "db (repo s2) = db (repo s)" "faults (repo s2) = faults (repo s)" "id_calls s2 = id_calls s + 1"
        "runtime s2 = runtime s" "apply_timeout_ms s2 = apply_timeout_ms s" "is_new_allocation s p tp port a"
        using s2 query by (simp_all add: same_env_def is_new_allocation_def)
      from attempt_outcome [OF s2'(1,2) rest] s2' create free show thesis
        by (intro tried [of port a res x]) simp_all
    qed
  qed
qed

lemma same_env_refl [simp]: "same_env s s"
  and same_env_trans: "same_env s t \<Longrightarrow> same_env t u \<Longrightarrow> same_env s u"
  by (simp_all add: same_env_def)

lemma create_attempt_frame:
  assumes "db_ok (db (repo s))" and "create_attempt rt p tp start s = (out, s')"
  shows "same_env s s' \<and> id_calls s \<le> id_calls s'"
  using create_attempt_cases [OF db_ok_wf [OF assms(1)] assms(2)] by cases simp_all

lemma create_attempt_unchanged:
  assumes "db_ok (db (repo s))" and "create_attempt rt p tp start s = (out, s')" and "\<nexists>a. out = Stop (Inr a)"
  shows "db (repo s') = db (repo s)"
  using db_ok_wf [OF assms(1)] assms(2)
proof (cases rule: create_attempt_cases)
  case (tried port a x res)
  show ?thesis
  proof (cases res)
    case (Inl e)
    with tried(6) show ?thesis by simp
  next
    case (Inr u)
    with tried(6) assms(3) obtain r e where "persist_action a r = (Inl e, repo s')" "db r = db (repo s)" by auto
    then show ?thesis using persist_action_Err(1) by metis
  qed
qed simp_all

lemma create_attempt_Ok:
  assumes "db_ok (db (repo s))" and "create_attempt rt p tp start s = (Stop (Inr a), s')"
  shows "is_new_allocation s p tp (a_port a) a \<and> id_calls s' = id_calls s + 1 \<and>
      first_free_port p (uint start) (uint (pr_end (service_port_range s))) (db (repo s)) = Some (uint (a_port a)) \<and>
      \<not> db_has_key (a_id a) (a_protocol a) (a_port a) (db (repo s)) \<and> db (repo s') = db_persist a (db (repo s))"
  using db_ok_wf [OF assms(1)] assms(2)
proof (cases rule: create_attempt_cases)
  case (tried port b x res)
  show ?thesis
  proof (cases res)
    case (Inl e)
    with tried(6) show ?thesis by (auto split: if_splits)
  next
    case (Inr u)
    with tried(6) obtain r where "persist_action a r = (Inr (), repo s')" "db r = db (repo s)" "b = a" by auto
    with persist_action_Ok [OF this(1)] tried db_ok_wf [OF assms(1)] show ?thesis
      by (simp add: is_new_allocation_def)
  qed
qed simp_all

lemma create_attempt_db:
  assumes "db_ok (db (repo s))" and "create_attempt rt p tp start s = (out, s')"
  shows "same_env s s'" and "id_calls s \<le> id_calls s'"
    and "(\<nexists>a. out = Stop (Inr a)) \<Longrightarrow> db (repo s') = db (repo s)"
    and "out = Stop (Inr a) \<Longrightarrow> is_new_allocation s p tp (a_port a) a \<and> id_calls s' = id_calls s + 1 \<and>
      first_free_port p (uint start) (uint (pr_end (service_port_range s))) (db (repo s)) = Some (uint (a_port a)) \<and>
      \<not> db_has_key (a_id a) (a_protocol a) (a_port a) (db (repo s)) \<and> db (repo s') = db_persist a (db (repo s))"
  using create_attempt_frame [OF assms] create_attempt_unchanged [OF assms] create_attempt_Ok [OF assms(1)] assms(2)
  by auto

text \<open>The allocation that a successful search returns, and what it did to the tables.\<close>

definition created :: "protocol \<Rightarrow> u16 option \<Rightarrow> u16 \<Rightarrow> u16 \<Rightarrow> 'rt service \<Rightarrow> allocation \<Rightarrow> 'rt service \<Rightarrow> bool" where
  "created p tp lo hi s a s' \<longleftrightarrow>
     a_protocol a = p \<and> a_target_port a = tp \<and> a_host a = None \<and> a_updated_at_ms a = a_created_at_ms a \<and>
     lo \<le> a_port a \<and> a_port a \<le> hi \<and> port_free p (uint (a_port a)) (db (repo s)) \<and>
     (\<exists>n. id_calls s \<le> n \<and> n < id_calls s' \<and> a_id a = generated_ids s n) \<and>
     \<not> db_has_key (a_id a) (a_protocol a) (a_port a) (db (repo s)) \<and> db (repo s') = db_persist a (db (repo s))"

lemma create_loop_db:
  assumes "create_loop rt p tp next_port s = (res, s')" and "db_ok (db (repo s))"
  shows "same_env s s' \<and> id_calls s \<le> id_calls s' \<and>
    (case res of Inl _ \<Rightarrow> db (repo s') = db (repo s)
     | Inr a \<Rightarrow> next_port \<noteq> None \<and> created p tp (the next_port) (pr_end (service_port_range s)) s a s')"
  using assms
proof (induction rt p tp next_port s arbitrary: res s' rule: create_loop.induct)
  case (2 rt p tp start s)
  obtain out s1 where att: "create_attempt rt p tp start s = (out, s1)" by fastforce
  note step = create_attempt_db [OF 2(3) att]
  show ?case
  proof (cases out)
    case (Stop r)
    with 2(2) att have fin: "res = r" "s' = s1" by simp_all
    show ?thesis
    proof (cases r)
      case (Inl e)
      with Stop fin step show ?thesis by simp
    next
      case (Inr a)
      with Stop have "out = Stop (Inr a)" by simp
      note facts = step(4) [OF this] first_free_port_Some [of p "uint start" _ "db (repo s)" "uint (a_port a)"]
      with fin Inr step(1,2) show ?thesis
        by (auto simp: created_def is_new_allocation_def word_le_def intro!: exI [of _ "id_calls s"])
    qed
  next
    case (Continue np)
    with 2(2) att have rest: "create_loop rt p tp np s1 = (res, s')" by simp
    have db: "db (repo s1) = db (repo s)" using step(3) Continue by simp
    have ih: "same_env s1 s' \<and> id_calls s1 \<le> id_calls s' \<and>
        (case res of Inl _ \<Rightarrow> db (repo s') = db (repo s1)
         | Inr a \<Rightarrow> np \<noteq> None \<and> created p tp (the np) (pr_end (service_port_range s1)) s1 a s')"
      using 2(1) [OF att [symmetric] Continue rest] 2(3) db by simp
    have "unat start < unat n" if "np = Some n" for n
      using create_attempt_continue att Continue that by blast
    then have "np = Some n \<Longrightarrow> n \<le> q \<Longrightarrow> start \<le> q" for n q
      by (metis less_imp_le_nat order_trans word_le_nat_alt)
    with ih step(1,2) db show ?thesis
      using same_env_trans by (cases res) (auto simp: created_def same_env_def intro: order_trans)
  qed
qed simp

lemma create_allocation_db:
  assumes "create_allocation rt p tp s = (res, s')" and "db_ok (db (repo s))"
  shows "same_env s s' \<and> id_calls s \<le> id_calls s' \<and>
    (case res of Inl _ \<Rightarrow> db (repo s') = db (repo s)
     | Inr a \<Rightarrow> created p tp (pr_start (service_port_range s)) (pr_end (service_port_range s)) s a s')"
  using create_loop_db [of rt p tp "Some (pr_start (service_port_range s))" s res s'] assms
  by (auto simp: create_allocation_def simp del: create_loop.simps split: if_splits sum.splits)

lemma created_db_ok: "created p tp lo hi s a s' \<Longrightarrow> db_ok (db (repo s)) \<Longrightarrow> db_ok (db (repo s'))"
  by (auto simp: created_def intro!: db_persist_ok)

lemma create_allocation_ok: "valid (on_db db_ok) (create_allocation rt p tp) (\<lambda>_. on_db db_ok) (\<lambda>_. on_db db_ok)"
  by (rule validI) (auto dest!: create_allocation_db simp: on_db_def intro: created_db_ok)

end
