(* ===== verification/Relayd_Consistency.thy ===== *)
theory Relayd_Consistency
  imports Relayd_Service
begin

text \<open>
  The service as a transition system. Every reachable state has sound tables, whatever the runtime
  does and whatever statement fails. With a repository that does not fail and a runtime that keeps
  the facade's contract, the runtime serves exactly the stored allocations in every reachable state.
\<close>

text \<open>
  One step: an operation of the service, whatever its result, a read, a look at the clock, or a step of
  the data plane itself (\<open>R\<close>).
\<close>

inductive service_step :: "'rt runtime_facade \<Rightarrow> ('rt \<Rightarrow> 'rt \<Rightarrow> bool) \<Rightarrow> 'rt service \<Rightarrow> 'rt service \<Rightarrow> bool"
  for rt :: "'rt runtime_facade" and R :: "'rt \<Rightarrow> 'rt \<Rightarrow> bool" where
  step_create: "create_allocation rt p tp s = (res, s') \<Longrightarrow> service_step rt R s s'"
| step_put: "put_binding rt aid host tp s = (res, s') \<Longrightarrow> service_step rt R s s'"
| step_unbind: "delete_binding rt aid s = (res, s') \<Longrightarrow> service_step rt R s s'"
| step_update: "update_allocation rt aid tpo ho s = (res, s') \<Longrightarrow> service_step rt R s s'"
| step_delete: "delete_allocation rt aid s = (res, s') \<Longrightarrow> service_step rt R s s'"
| step_get: "get_allocation_view rt aid s = (res, s') \<Longrightarrow> service_step rt R s s'"
| step_list: "list_allocation_resources s = (res, s') \<Longrightarrow> service_step rt R s s'"
| step_views: "list_allocations rt s = (res, s') \<Longrightarrow> service_step rt R s s'"
| step_resource: "get_allocation_resource aid s = (res, s') \<Longrightarrow> service_step rt R s s'"
| step_binding: "get_binding_view rt aid s = (res, s') \<Longrightarrow> service_step rt R s s'"
| step_clock: "now_ms s = (res, s') \<Longrightarrow> service_step rt R s s'"
| step_runtime: "R (runtime s) x \<Longrightarrow> service_step rt R s (s\<lparr>runtime := x\<rparr>)"

inductive_cases service_stepE: "service_step rt R s s'"

subsection \<open>Sound tables\<close>

lemma ask_runtime_db: "valid (on_db Q) (ask_runtime q) (\<lambda>_. on_db Q) (\<lambda>_. on_db Q)"
  by (rule validI) (auto simp: ask_runtime_def on_db_def)

lemma get_allocation_view_ok: "valid (on_db db_ok) (get_allocation_view rt aid) (\<lambda>_. on_db db_ok) (\<lambda>_. on_db db_ok)"
  unfolding get_allocation_view_def allocation_view_for_def
  by (rule valid_and_then [OF get_ok])
    (auto split: option.split intro!: valid_return valid_and_then [OF ask_runtime_db] valid_and_then)

lemma list_allocation_resources_ok:
  "valid (on_db db_ok) list_allocation_resources (\<lambda>_. on_db db_ok) (\<lambda>_. on_db db_ok)"
  unfolding list_allocation_resources_def
  by (rule valid_and_then [OF list_ok]) (auto intro!: valid_return simp: on_db_def)

lemma allocation_views_keeps:
  assumes "\<And>q :: 'rt \<Rightarrow> runtime_error + observed_state option. valid P (ask_runtime q) (\<lambda>_. P) (\<lambda>_. P)"
  shows "valid P (allocation_views rt xs) (\<lambda>_. P) (\<lambda>_. P)"
proof (induction xs)
  case Nil
  then show ?case unfolding allocation_views.simps by (intro valid_return)
next
  case (Cons a xs)
  have view: "valid P (allocation_view_for rt a) (\<lambda>_. P) (\<lambda>_. P)"
    unfolding allocation_view_for_def by (intro valid_and_then [OF assms] valid_return)
  show ?case unfolding allocation_views.simps by (intro valid_and_then [OF view] valid_and_then [OF Cons.IH] valid_return)
qed

lemma list_allocations_ok: "valid (on_db db_ok) (list_allocations rt) (\<lambda>_. on_db db_ok) (\<lambda>_. on_db db_ok)"
  unfolding list_allocations_def
  by (rule valid_and_then [OF valid_post [OF list_ok] allocation_views_keeps [OF ask_runtime_db]]) (simp add: on_db_def)

lemma get_allocation_resource_ok:
  "valid (on_db db_ok) (get_allocation_resource aid) (\<lambda>_. on_db db_ok) (\<lambda>_. on_db db_ok)"
  unfolding get_allocation_resource_def by (intro valid_and_then [OF get_ok] valid_return)

lemma get_binding_view_ok: "valid (on_db db_ok) (get_binding_view rt aid) (\<lambda>_. on_db db_ok) (\<lambda>_. on_db db_ok)"
proof -
  have "valid (on_db db_ok) (with_repo (repo_get_binding aid)) (\<lambda>_. on_db db_ok) (\<lambda>_. on_db db_ok)"
    by (rule on_db_with_repo [OF implements_get_binding]) (simp add: read_spec_def)
  then show ?thesis
    unfolding get_binding_view_def binding_view_for_def
    by (rule valid_and_then)
      (auto split: option.split intro!: valid_return valid_and_then [OF ask_runtime_db] valid_and_then)
qed

lemmas ops_db_ok = valid_result [OF create_allocation_ok] valid_result [OF put_binding_ok]
  valid_result [OF delete_binding_ok] valid_result [OF update_allocation_ok] valid_result [OF delete_allocation_ok]
  valid_result [OF get_allocation_view_ok] valid_result [OF list_allocation_resources_ok]
  valid_result [OF list_allocations_ok] valid_result [OF get_allocation_resource_ok] valid_result [OF get_binding_view_ok]
  valid_result [OF on_db_other(4)]

lemma step_db_ok: "service_step rt R s s' \<Longrightarrow> on_db db_ok s \<Longrightarrow> on_db db_ok s'"
  by (erule service_stepE; (erule (1) ops_db_ok [rotated])?) (simp add: on_db_def)

lemma reachable_db_ok: "(service_step rt R)\<^sup>*\<^sup>* s s' \<Longrightarrow> on_db db_ok s \<Longrightarrow> on_db db_ok s'"
  by (induction rule: rtranclp_induct) (auto dest: step_db_ok)

subsection \<open>The runtime serves what is stored\<close>

definition stored_keys :: "database \<Rightarrow> string \<Rightarrow> (protocol \<times> u16) option" where
  "stored_keys d i = map_option (\<lambda>(a, _). alloc_key a) (abs_store d i)"

text \<open>
  The invariant \<open>agree\<close> between tables and runtime, and the circumstances under which it is kept: a
  repository without faults, no injected delete failure, and generated ids that do not repeat. The
  ids in use, stored by this process or an earlier one, are never generated again.
\<close>

definition agree :: "('rt \<Rightarrow> bool) \<Rightarrow> ('rt \<Rightarrow> string \<Rightarrow> (protocol \<times> u16) option) \<Rightarrow> string set \<Rightarrow> database \<Rightarrow> 'rt \<Rightarrow> bool" where
  "agree rt_inv served U d x \<longleftrightarrow> db_ok d \<and> rt_inv x \<and> served x = stored_keys d \<and> dom (abs_store d) \<subseteq> U"

definition used_ids :: "'rt service \<Rightarrow> string set" where
  "used_ids s = - generated_ids s ` {id_calls s..}"

definition in_ctx :: "string set \<Rightarrow> (database \<Rightarrow> 'rt \<Rightarrow> bool) \<Rightarrow> 'rt service \<Rightarrow> bool" where
  "in_ctx U Q s \<longleftrightarrow> fault_free (repo s) \<and> \<not> fp_delete_db_failure (service_failpoints s) \<and> inj (generated_ids s) \<and>
     U = used_ids s \<and> Q (db (repo s)) (runtime s)"

definition consistent :: "('rt \<Rightarrow> bool) \<Rightarrow> ('rt \<Rightarrow> string \<Rightarrow> (protocol \<times> u16) option) \<Rightarrow> 'rt service \<Rightarrow> bool" where
  "consistent rt_inv served s \<longleftrightarrow> in_ctx (used_ids s) (agree rt_inv served (used_ids s)) s"

lemma in_ctx_with_repo:
  assumes "implements m spec" and "\<And>d x. Q d x \<Longrightarrow> \<exists>y d'. spec d = (Inr y, d') \<and> T y d' x"
  shows "valid (in_ctx U Q) (with_repo m) (\<lambda>y. in_ctx U (T y)) (\<lambda>_ _. False)"
proof -
  have "\<exists>y r'. with_repo m s = (Inr y, s\<lparr>repo := r'\<rparr>) \<and> in_ctx U (T y) (s\<lparr>repo := r'\<rparr>)" if ctx: "in_ctx U Q s" for s
  proof -
    obtain y d' where "spec (db (repo s)) = (Inr y, d')" "T y d' (runtime s)"
      using assms(2) ctx unfolding in_ctx_def by blast
    moreover from this(1) obtain r' where "m (repo s) = (Inr y, r')" "db r' = d'" "faults r' = faults (repo s)"
      using implements_fault_free [OF assms(1)] ctx unfolding in_ctx_def by metis
    ultimately show ?thesis
      using ctx by (auto simp: with_repo_def zoom_def in_ctx_def fault_free_def used_ids_def)
  qed
  then show ?thesis by (intro validI) fastforce+
qed

lemma in_ctx_with_repo_total:
  assumes "implements m (\<lambda>d. (Inr (f d), g d))" and "\<And>d x. Q d x \<Longrightarrow> T (f d) (g d) x"
  shows "valid (in_ctx U Q) (with_repo m) (\<lambda>y. in_ctx U (T y)) (\<lambda>_ _. False)"
  by (rule in_ctx_with_repo [OF assms(1)]) (use assms(2) in auto)

lemma in_ctx_with_runtime:
  assumes "\<And>d x y x'. Q d x \<Longrightarrow> m x = (Inr y, x') \<Longrightarrow> T y d x'" and "\<And>d x e x'. Q d x \<Longrightarrow> m x = (Inl e, x') \<Longrightarrow> E d x'"
  shows "valid (in_ctx U Q) (with_runtime m) (\<lambda>y. in_ctx U (T y)) (\<lambda>_. in_ctx U E)"
proof (rule validI)
  fix s y s' assume "in_ctx U Q s" "with_runtime m s = (Inr y, s')"
  then show "in_ctx U (T y) s'"
    using assms(1) by (cases "m (runtime s)") (auto simp: with_runtime_def zoom_def in_ctx_def used_ids_def)
next
  fix s e s' assume "in_ctx U Q s" "with_runtime m s = (Inl e, s')"
  then show "in_ctx U E s'"
    using assms(2) by (cases "m (runtime s)"; cases "fst (m (runtime s))")
      (auto simp: with_runtime_def zoom_def in_ctx_def used_ids_def)
qed

lemma in_ctx_other:
  "valid (in_ctx U Q) now_ms (\<lambda>_. in_ctx U Q) (\<lambda>_. in_ctx U Q)"
  "valid (in_ctx U Q) (fail_if fp e) (\<lambda>_. in_ctx U Q) (\<lambda>_. in_ctx U Q)"
  "valid (in_ctx U Q) (check_host h) (\<lambda>_. in_ctx U Q) (\<lambda>_. in_ctx U Q)"
  by (rule validI; auto simp: now_ms_def current_time_ms_def fail_if_def check_host_def in_ctx_def used_ids_def
      split: prod.splits if_splits sum.splits)+

lemma abs_store_id: "db_wf d \<Longrightarrow> abs_store d i = Some (a, bd) \<Longrightarrow> a_id a = i"
  by (auto simp: abs_store_alt bind_eq_Some_conv select_row_def dest!: decode_join_Some dest: find_key_Some)

lemma stored_keys_put: "db_wf d \<Longrightarrow> stored_keys (db_put_binding b d) = stored_keys d"
  by (rule ext) (auto simp: stored_keys_def abs_put_binding store_put_binding_def assign_target_def alloc_key_def
      split: option.split)

lemma stored_keys_unbind: "db_wf d \<Longrightarrow> stored_keys (db_delete_binding aid upd d) = stored_keys d"
  by (rule ext) (auto simp: stored_keys_def abs_delete_binding store_delete_binding_def assign_target_def alloc_key_def
      split: option.split)

lemma stored_keys_delete: "stored_keys (db_delete_allocation aid d) = (stored_keys d)(aid := None)"
  by (rule ext) (simp add: stored_keys_def abs_delete_allocation)

lemma stored_keys_persist:
  "db_wf d \<Longrightarrow> \<not> db_has_key (a_id a) (a_protocol a) (a_port a) d \<Longrightarrow>
     stored_keys (db_persist a d) = (stored_keys d)(a_id a \<mapsto> alloc_key a)"
  by (rule ext) (simp add: stored_keys_def abs_db_persist)

lemma stored_ids_put: "db_wf d \<Longrightarrow> dom (abs_store (db_put_binding b d)) = dom (abs_store d)"
  by (auto simp: abs_put_binding store_put_binding_def split: option.splits if_splits)

lemma stored_ids_unbind: "db_wf d \<Longrightarrow> dom (abs_store (db_delete_binding aid upd d)) = dom (abs_store d)"
  by (auto simp: abs_delete_binding store_delete_binding_def split: option.splits if_splits)

lemma agree_put:
  "agree I S U d x \<Longrightarrow> abs_store d (b_allocation_id b) \<noteq> None \<Longrightarrow> host_literal (b_host b) \<Longrightarrow> agree I S U (db_put_binding b d) x"
  by (simp add: agree_def db_ok_put_binding stored_keys_put stored_ids_put db_ok_wf)

lemma agree_unbind: "agree I S U d x \<Longrightarrow> agree I S U (db_delete_binding aid upd d) x"
  by (simp add: agree_def db_ok_delete_binding stored_keys_unbind stored_ids_unbind db_ok_wf)

lemma in_ctx_get_with_binding:
  "valid (in_ctx U (agree I S U)) (with_repo (repo_get_allocation_with_binding aid))
     (\<lambda>found. in_ctx U (\<lambda>d x. agree I S U d x \<and> abs_store d aid = found)) (\<lambda>_ _. False)"
  by (rule in_ctx_with_repo [OF implements_get_allocation_with_binding])
    (auto simp: read_spec_def agree_def abs_store_read_with_binding db_ok_wf)

lemma in_ctx_get:
  "valid (in_ctx U (agree I S U)) (with_repo (repo_get_allocation aid))
     (\<lambda>found. in_ctx U (\<lambda>d x. agree I S U d x \<and> map_option fst (abs_store d aid) = found)) (\<lambda>_ _. False)"
  by (rule in_ctx_with_repo [OF implements_get_allocation])
    (auto simp: read_spec_def agree_def abs_store_read db_ok_wf)

lemma in_ctx_weaken: "in_ctx U P s \<Longrightarrow> (\<And>d x. P d x \<Longrightarrow> Q d x) \<Longrightarrow> in_ctx U Q s"
  by (simp add: in_ctx_def)

lemma in_ctx_read:
  assumes "implements m (read_spec q)"
  shows "valid (in_ctx U Q) (with_repo m) (\<lambda>_. in_ctx U Q) (\<lambda>_. in_ctx U Q)"
proof -
  have "in_ctx U Q s'" if ctx: "in_ctx U Q s" and run: "with_repo m s = (res, s')" for s res s'
  proof -
    obtain out r where m: "m (repo s) = (out, r)" by fastforce
    have "faults r = faults (repo s) \<and> db r = db (repo s)"
      using implements_Err(1,2) [OF assms, of "repo s" _ r] implements_Ok [OF assms, of "repo s" _ r] m
      by (cases out) (simp_all add: read_spec_def)
    then show ?thesis using ctx run m by (auto simp: with_repo_def zoom_def in_ctx_def fault_free_def used_ids_def)
  qed
  then show ?thesis by (intro validI)
qed

lemma valid_no_error: "valid P m Q (\<lambda>_ _. False) \<Longrightarrow> valid P m Q E"
  by (erule valid_weaken) simp_all

lemma valid_ctx_call:
  "valid (in_ctx U Q) m (\<lambda>_. in_ctx U Q) (\<lambda>_. in_ctx U Q) \<Longrightarrow> (\<And>d x. Q d x \<Longrightarrow> T d x) \<Longrightarrow>
     valid (in_ctx U Q) m (\<lambda>_. in_ctx U Q) (\<lambda>_. in_ctx U T)"
  by (erule valid_weaken) (auto elim: in_ctx_weaken)

lemma valid_found:
  assumes "\<And>a eb. found = Some (a, eb) \<Longrightarrow> valid P (f a eb) Q E" and "\<And>s. P s \<Longrightarrow> E NotFound s"
  shows "valid P (case found of None \<Rightarrow> throw NotFound | Some (a, eb) \<Rightarrow> f a eb) Q E"
  using assms by (auto intro: valid_throw split: option.split)

lemma port_free_no_key:
  "db_wf d \<Longrightarrow> abs_store d i = None \<Longrightarrow> port_free p (uint port) d \<Longrightarrow> \<not> db_has_key i p port d"
  by (auto simp: db_has_key_def port_free_def abs_store_None)

lemma in_ctx_ask_runtime: "valid (in_ctx U Q) (ask_runtime q) (\<lambda>_. in_ctx U Q) (\<lambda>_. in_ctx U Q)"
  by (rule validI) (auto simp: ask_runtime_def)

lemma in_ctx_list:
  assumes "\<And>d x. Q d x \<Longrightarrow> db_wf d"
  shows "valid (in_ctx U Q) (with_repo repo_list_allocations)
    (\<lambda>xs. in_ctx U (\<lambda>d x. Q d x \<and> list_spec d = Ok xs)) (\<lambda>_ _. False)"
proof -
  have "\<exists>xs r. with_repo repo_list_allocations s = (Ok xs, s\<lparr>repo := r\<rparr>) \<and> db r = db (repo s) \<and>
      faults r = faults (repo s) \<and> list_spec (db (repo s)) = Ok xs" if ctx: "in_ctx U Q s" for s
  proof -
    have wf: "db_wf (db (repo s))" using assms ctx by (auto simp: in_ctx_def)
    obtain res r where run: "repo_list_allocations (repo s) = (res, r)" by fastforce
    obtain xs where xs: "list_spec (db (repo s)) = Ok xs" using list_spec_wf [OF wf] by blast
    have "res = Ok xs" using repo_list_allocations_run(3) [OF wf run] ctx xs by (simp add: in_ctx_def)
    with xs run repo_list_allocations_run(1,2) [OF wf run] show ?thesis
      by (intro exI [of _ xs] exI [of _ r]) (simp add: with_repo_def zoom_def)
  qed
  then have "\<exists>xs s'. with_repo repo_list_allocations s = (Ok xs, s') \<and> in_ctx U (\<lambda>d x. Q d x \<and> list_spec d = Ok xs) s'"
    if "in_ctx U Q s" for s
    using that by (fastforce simp: in_ctx_def fault_free_def used_ids_def)
  then show ?thesis by (intro validI) fastforce+
qed

lemma create_loop_keeps:
  assumes "\<And>start s out s'. I s \<Longrightarrow> create_attempt rt p tp start s = (out, s') \<Longrightarrow> I s'"
    and "create_loop rt p tp np s = (res, s')" and "I s"
  shows "I s'"
  using assms
proof (induction rt p tp np s arbitrary: res s' rule: create_loop.induct)
  case (2 rt p tp start s)
  obtain out s1 where att: "create_attempt rt p tp start s = (out, s1)" by fastforce
  have s1: "I s1" using 2(2,4) att by blast
  show ?case
  proof (cases out)
    case (Stop r)
    with 2(3) att s1 show ?thesis by simp
  next
    case (Continue np)
    with 2(3) att have "create_loop rt p tp np s1 = (res, s')" by simp
    with 2(1) [OF att [symmetric] Continue] 2(2) s1 show ?thesis by metis
  qed
qed simp

text \<open>Ids stay in use, and a change that keeps the agreement keeps the state consistent.\<close>

lemma used_ids_mono: "same_env s s' \<Longrightarrow> id_calls s \<le> id_calls s' \<Longrightarrow> used_ids s \<subseteq> used_ids s'"
  by (auto simp: used_ids_def same_env_def)

lemma used_ids_new: "same_env s s' \<Longrightarrow> inj (generated_ids s) \<Longrightarrow> id_calls s < id_calls s' \<Longrightarrow> generated_ids s (id_calls s) \<in> used_ids s'"
  by (auto simp: used_ids_def same_env_def inj_eq)

lemma consistent_change:
  assumes "consistent rt_inv served s" and "same_env s s'" and "db_ok (db (repo s'))" and "rt_inv (runtime s')"
    and "served (runtime s') = stored_keys (db (repo s'))" and "dom (abs_store (db (repo s'))) \<subseteq> used_ids s'"
  shows "consistent rt_inv served s'"
  using assms by (auto simp: consistent_def in_ctx_def agree_def same_env_def fault_free_def)

context runtime_contract
begin

abbreviation agreed :: "string set \<Rightarrow> 'rt service \<Rightarrow> bool" where
  "agreed U \<equiv> in_ctx U (agree inv served U)"

lemma update_in_runtime_agreed:
  "valid (in_ctx U (\<lambda>d x. agree inv served U d x \<and> stored_keys d (a_id a) = Some (alloc_key a)))
     (update_in_runtime rt a) (\<lambda>_. agreed U) (\<lambda>_. agreed U)"
proof -
  let ?P = "\<lambda>d x. agree inv served U d x \<and> stored_keys d (a_id a) = Some (alloc_key a)"
  have "valid (in_ctx U ?P) (with_runtime (rf_update rt a t)) (\<lambda>_. agreed U) (\<lambda>_. agreed U)" for t
  proof (rule in_ctx_with_runtime)
    show "agree inv served U d x'" if "?P d x" "rf_update rt a t x = (Inr y, x')" for d x y x'
      using that update_law [of x a t "Inr y" x'] by (simp add: agree_def)
    show "agree inv served U d x'" if "?P d x" "rf_update rt a t x = (Inl e, x')" for d x e x'
      using that update_law [of x a t "Inl e" x'] by (simp add: agree_def)
  qed
  then show ?thesis by (simp add: valid_def update_in_runtime_def)
qed

lemma apply_binding_agreed:
  assumes "host_literal (b_host b)"
  shows "valid (in_ctx U (\<lambda>d x. agree inv served U d x \<and> abs_store d (b_allocation_id b) = Some (a, bd)))
     (apply_binding rt a b) (\<lambda>_. agreed U) (\<lambda>_. agreed U)"
proof -
  let ?P = "\<lambda>d x. agree inv served U d x \<and> abs_store d (b_allocation_id b) = Some (a, bd)"
  let ?u = "allocation_with_binding a b"
  let ?R = "\<lambda>d x. agree inv served U d x \<and> stored_keys d (a_id ?u) = Some (alloc_key ?u)"
  have R: "?R (db_put_binding b d) x" if "?P d x" for d x
  proof -
    have wf: "db_wf d" using that by (simp add: agree_def db_ok_wf)
    then have id: "a_id a = b_allocation_id b" using that abs_store_id by blast
    then have "stored_keys (db_put_binding b d) (a_id ?u) = Some (alloc_key ?u)"
      using that wf by (simp add: stored_keys_put allocation_with_binding_def) (simp add: stored_keys_def alloc_key_def)
    moreover have "agree inv served U (db_put_binding b d) x" using that assms by (intro agree_put) auto
    ultimately show ?thesis by simp
  qed
  have put: "valid (in_ctx U ?P) (with_repo (repo_put_binding b)) (\<lambda>_. in_ctx U ?R) (\<lambda>_ _. False)"
    by (rule in_ctx_with_repo_total [OF implements_put_binding]) (rule R)
  show ?thesis
    unfolding apply_binding_def Let_def
    by (intro valid_and_then [OF valid_no_error [OF put]] valid_and_then [OF valid_ctx_call [OF in_ctx_other(2)]]
        valid_and_then [OF update_in_runtime_agreed] valid_return) simp_all
qed

lemma put_binding_agreed: "valid (agreed U) (put_binding rt aid host tp) (\<lambda>_. agreed U) (\<lambda>_. agreed U)"
proof -
  have check: "valid (agreed U) (check_host host) (\<lambda>_ s. host_literal (Some host) \<and> agreed U s) (\<lambda>_. agreed U)"
    by (rule validI) (auto simp: check_host_def parse_ip_literal_def host_literal_def split: sum.splits option.splits)
  have bind: "valid (in_ctx U (\<lambda>d x. agree inv served U d x \<and> abs_store d aid = Some (a, eb)))
      (and_then now_ms (\<lambda>now. and_then (apply_binding rt a (make_binding aid tp (Some host) eb now))
        (\<lambda>_. return (make_binding aid tp (Some host) eb now)))) (\<lambda>_. agreed U) (\<lambda>_. agreed U)"
    if lit: "host_literal (Some host)" for a eb
  proof (rule valid_and_then [OF valid_ctx_call [OF in_ctx_other(1)]])
    fix now
    show "valid (in_ctx U (\<lambda>d x. agree inv served U d x \<and> abs_store d aid = Some (a, eb)))
      (and_then (apply_binding rt a (make_binding aid tp (Some host) eb now))
        (\<lambda>_. return (make_binding aid tp (Some host) eb now))) (\<lambda>_. agreed U) (\<lambda>_. agreed U)"
      using apply_binding_agreed [of "make_binding aid tp (Some host) eb now" U a eb] lit
      by (intro valid_and_then valid_return) (simp_all add: make_binding_def)
  qed simp
  show ?thesis
    unfolding put_binding_def Let_def
  proof (intro valid_and_then [OF check] valid_fact valid_and_then [OF valid_no_error [OF in_ctx_get_with_binding]])
    fix found
    assume "host_literal (Some host)"
    then show "valid (in_ctx U (\<lambda>d x. agree inv served U d x \<and> abs_store d aid = found))
        (case found of None \<Rightarrow> throw NotFound | Some (a, eb) \<Rightarrow> and_then now_ms (\<lambda>now.
          and_then (apply_binding rt a (make_binding aid tp (Some host) eb now))
            (\<lambda>_. return (make_binding aid tp (Some host) eb now)))) (\<lambda>_. agreed U) (\<lambda>_. agreed U)"
      using bind by (auto intro: valid_throw elim: in_ctx_weaken split: option.split)
  qed
qed

lemma update_found_agreed:
  "valid (in_ctx U (\<lambda>d x. agree inv served U d x \<and> abs_store d aid = Some (a, eb)))
     (and_then (case host of None \<Rightarrow> return () | Some h \<Rightarrow> check_host h) (\<lambda>_.
        case or_else tp (map_option b_target_port eb) of None \<Rightarrow> throw NotFound
        | Some rtp \<Rightarrow> and_then now_ms (\<lambda>now. apply_binding rt a (make_binding aid rtp (resolved_host host eb a) eb now))))
     (\<lambda>_. agreed U) (\<lambda>_. agreed U)" (is "valid ?P _ _ _")
proof (rule valid_knows)
  show "host_literal (a_host a) \<and> (\<forall>b. eb = Some b \<longrightarrow> host_literal (b_host b))" if "?P s" for s
    using that stored_host_literal [of "db (repo s)" aid a eb] by (auto simp: in_ctx_def agree_def)
next
  assume hosts: "host_literal (a_host a) \<and> (\<forall>b. eb = Some b \<longrightarrow> host_literal (b_host b))"
  have check: "valid ?P (case host of None \<Rightarrow> return () | Some h \<Rightarrow> check_host h) (\<lambda>_ s. host_literal host \<and> ?P s) (\<lambda>_. agreed U)"
    by (rule validI) (auto simp: check_host_def parse_ip_literal_def host_literal_def elim: in_ctx_weaken
        split: sum.splits option.splits)
  show "valid ?P (and_then (case host of None \<Rightarrow> return () | Some h \<Rightarrow> check_host h) (\<lambda>_.
      case or_else tp (map_option b_target_port eb) of None \<Rightarrow> throw NotFound
      | Some rtp \<Rightarrow> and_then now_ms (\<lambda>now. apply_binding rt a (make_binding aid rtp (resolved_host host eb a) eb now))))
   (\<lambda>_. agreed U) (\<lambda>_. agreed U)"
  proof (intro valid_and_then [OF check] valid_fact)
    assume "host_literal host"
    with hosts have lit: "host_literal (resolved_host host eb a)"
      unfolding resolved_host_def by (intro host_literal_or_else host_literal_bind) auto
    have "valid ?P (and_then now_ms (\<lambda>now. apply_binding rt a (make_binding aid rtp (resolved_host host eb a) eb now)))
        (\<lambda>_. agreed U) (\<lambda>_. agreed U)" for rtp
    proof (rule valid_and_then [OF valid_ctx_call [OF in_ctx_other(1)]])
      show "valid ?P (apply_binding rt a (make_binding aid rtp (resolved_host host eb a) eb now)) (\<lambda>_. agreed U) (\<lambda>_. agreed U)" for now
        using apply_binding_agreed [of "make_binding aid rtp (resolved_host host eb a) eb now" U a eb] lit
        by (simp add: make_binding_def)
    qed simp
    then show "valid ?P (case or_else tp (map_option b_target_port eb) of None \<Rightarrow> throw NotFound
      | Some rtp \<Rightarrow> and_then now_ms (\<lambda>now. apply_binding rt a (make_binding aid rtp (resolved_host host eb a) eb now)))
      (\<lambda>_. agreed U) (\<lambda>_. agreed U)"
      by (auto intro: valid_throw elim: in_ctx_weaken split: option.split)
  qed
qed

lemma update_allocation_agreed: "valid (agreed U) (update_allocation rt aid tp host) (\<lambda>_. agreed U) (\<lambda>_. agreed U)"
  unfolding update_allocation_def
proof (rule valid_and_then [OF valid_no_error [OF in_ctx_get_with_binding]], rule valid_found)
  fix f and a :: allocation and eb :: "binding option"
  assume "f = Some (a, eb)"
  with update_found_agreed [of U aid a eb host tp] show "valid (in_ctx U (\<lambda>d x. agree inv served U d x \<and> abs_store d aid = f))
   (and_then (case host of None \<Rightarrow> return () | Some h \<Rightarrow> check_host h) (\<lambda>_.
      case or_else tp (map_option b_target_port eb) of None \<Rightarrow> throw NotFound
      | Some rtp \<Rightarrow> and_then now_ms (\<lambda>now. apply_binding rt a (make_binding aid rtp (resolved_host host eb a) eb now))))
   (\<lambda>_. agreed U) (\<lambda>_. agreed U)" by simp
qed (auto elim: in_ctx_weaken)

lemma delete_binding_agreed: "valid (agreed U) (delete_binding rt aid) (\<lambda>_. agreed U) (\<lambda>_. agreed U)"
proof -
  let ?P = "\<lambda>a eb d x. agree inv served U d x \<and> abs_store d aid = Some (a, eb)"
  have unbind: "valid (in_ctx U (?P a (Some b)))
      (and_then now_ms (\<lambda>now. and_then (with_repo (repo_delete_binding aid now)) (\<lambda>deleted.
         if \<not> deleted then throw NotFound
         else and_then (fail_if fp_update_timeout ServiceTimeout)
           (\<lambda>_. update_in_runtime rt (a\<lparr>a_target_port := None, a_host := None, a_updated_at_ms := now\<rparr>)))))
      (\<lambda>_. agreed U) (\<lambda>_. agreed U)" for a b
  proof (rule valid_and_then [OF valid_ctx_call [OF in_ctx_other(1)]])
    fix now
    let ?u = "a\<lparr>a_target_port := None, a_host := None, a_updated_at_ms := now\<rparr>"
    let ?R = "\<lambda>d x. agree inv served U d x \<and> stored_keys d (a_id ?u) = Some (alloc_key ?u)"
    have R: "?R (db_delete_binding aid now d) x" if "?P a (Some b) d x" for d x
    proof -
      have "db_wf d" using that by (simp add: agree_def db_ok_wf)
      moreover from this have "a_id a = aid" using that abs_store_id by blast
      ultimately show ?thesis
        using that by (simp add: agree_unbind stored_keys_unbind) (simp add: stored_keys_def alloc_key_def)
    qed
    have del: "valid (in_ctx U (?P a (Some b))) (with_repo (repo_delete_binding aid now)) (\<lambda>_. in_ctx U ?R) (\<lambda>_ _. False)"
      by (rule in_ctx_with_repo_total [OF implements_delete_binding]) (rule R)
    have tail: "valid (in_ctx U ?R) (if \<not> deleted then throw NotFound
         else and_then (fail_if fp_update_timeout ServiceTimeout) (\<lambda>_. update_in_runtime rt ?u))
        (\<lambda>_. agreed U) (\<lambda>_. agreed U)" for deleted
    proof (cases deleted)
      case True
      then show ?thesis
        by (simp only: not_True_eq_False if_False)
          (rule valid_and_then [OF valid_ctx_call [OF in_ctx_other(2)] update_in_runtime_agreed], simp)
    next
      case False
      then show ?thesis by (auto intro!: valid_throw elim: in_ctx_weaken)
    qed
    show "valid (in_ctx U (?P a (Some b))) (and_then (with_repo (repo_delete_binding aid now)) (\<lambda>deleted.
         if \<not> deleted then throw NotFound
         else and_then (fail_if fp_update_timeout ServiceTimeout) (\<lambda>_. update_in_runtime rt ?u)))
      (\<lambda>_. agreed U) (\<lambda>_. agreed U)"
      by (rule valid_and_then [OF valid_no_error [OF del] tail])
  qed simp
  show ?thesis
    unfolding delete_binding_def
    by (rule valid_and_then [OF valid_no_error [OF in_ctx_get_with_binding]])
      (use unbind in \<open>auto intro!: valid_throw elim: in_ctx_weaken split: option.split\<close>)
qed

lemma delete_in_runtime_agreed:
  "valid (agreed U) (delete_in_runtime rt aid)
     (\<lambda>_. in_ctx U (\<lambda>d x. db_ok d \<and> inv x \<and> served x = (stored_keys d)(aid := None) \<and> dom (abs_store d) \<subseteq> U))
     (\<lambda>_. agreed U)"
proof -
  have "valid (agreed U) (with_runtime (rf_delete rt aid t))
     (\<lambda>_. in_ctx U (\<lambda>d x. db_ok d \<and> inv x \<and> served x = (stored_keys d)(aid := None) \<and> dom (abs_store d) \<subseteq> U))
     (\<lambda>_. agreed U)" for t
    by (rule in_ctx_with_runtime) (auto simp: agree_def dest: delete_law)
  then show ?thesis by (simp add: valid_def delete_in_runtime_def)
qed

lemma delete_allocation_agreed: "valid (agreed U) (delete_allocation rt aid) (\<lambda>_. agreed U) (\<lambda>_. agreed U)"
proof -
  let ?M = "\<lambda>d x. db_ok d \<and> inv x \<and> served x = (stored_keys d)(aid := None) \<and> dom (abs_store d) \<subseteq> U"
  have "valid (in_ctx U ?M) (with_repo (repo_delete_allocation aid)) (\<lambda>_. agreed U) (\<lambda>_ _. False)"
    by (rule in_ctx_with_repo_total [OF implements_delete_allocation])
      (auto simp: agree_def db_ok_delete_allocation stored_keys_delete abs_delete_allocation)
  then have "valid (in_ctx U ?M) (and_then (with_repo (repo_delete_allocation aid))
      (\<lambda>deleted. if deleted then return () else throw NotFound)) (\<lambda>_. agreed U) (\<lambda>_. agreed U)"
    by (rule valid_and_then [OF valid_no_error]) (auto intro: valid_return valid_throw)
  then have final: "valid (in_ctx U ?M) (\<lambda>s. if fp_delete_db_failure (service_failpoints s)
      then and_then (restore_in_runtime rt a (apply_timeout_ms s)) (\<lambda>_. throw DeletePersistenceFailed) s
      else and_then (with_repo (repo_delete_allocation aid)) (\<lambda>deleted. if deleted then return () else throw NotFound) s)
      (\<lambda>_. agreed U) (\<lambda>_. agreed U)" for a
    by (simp add: valid_def in_ctx_def)
  have found: "valid (agreed U)
      (and_then (fail_if fp_delete_timeout ServiceTimeout) (\<lambda>_. and_then (delete_in_runtime rt aid) (\<lambda>_ s.
         if fp_delete_db_failure (service_failpoints s)
         then and_then (restore_in_runtime rt a (apply_timeout_ms s)) (\<lambda>_. throw DeletePersistenceFailed) s
         else and_then (with_repo (repo_delete_allocation aid)) (\<lambda>deleted. if deleted then return () else throw NotFound) s)))
      (\<lambda>_. agreed U) (\<lambda>_. agreed U)" for a
    by (intro valid_and_then [OF in_ctx_other(2)] valid_and_then [OF delete_in_runtime_agreed final])
  have get: "valid (agreed U) (with_repo (repo_get_allocation aid)) (\<lambda>_. agreed U) (\<lambda>_. agreed U)"
    by (rule valid_weaken [OF in_ctx_get]) (auto elim: in_ctx_weaken)
  show ?thesis
    unfolding delete_allocation_def
    by (rule valid_and_then [OF get]) (use found in \<open>auto intro: valid_throw split: option.split\<close>)
qed

lemma get_allocation_view_agreed: "valid (agreed U) (get_allocation_view rt aid) (\<lambda>_. agreed U) (\<lambda>_. agreed U)"
proof -
  have get: "valid (agreed U) (with_repo (repo_get_allocation aid)) (\<lambda>_. agreed U) (\<lambda>_. agreed U)"
    by (rule valid_weaken [OF in_ctx_get]) (auto elim: in_ctx_weaken)
  show ?thesis
    unfolding get_allocation_view_def allocation_view_for_def
    by (rule valid_and_then [OF get])
      (auto split: option.split intro!: valid_return valid_and_then [OF in_ctx_ask_runtime] valid_and_then)
qed

lemma list_allocation_resources_agreed: "valid (agreed U) list_allocation_resources (\<lambda>_. agreed U) (\<lambda>_. agreed U)"
proof -
  have "valid (agreed U) (with_repo repo_list_allocations) (\<lambda>_. agreed U) (\<lambda>_. agreed U)"
    by (rule valid_weaken [OF in_ctx_list]) (auto elim: in_ctx_weaken simp: agree_def db_ok_wf)
  then show ?thesis
    unfolding list_allocation_resources_def by (rule valid_and_then) (auto intro: valid_return)
qed

lemma list_allocations_agreed: "valid (agreed U) (list_allocations rt) (\<lambda>_. agreed U) (\<lambda>_. agreed U)"
proof -
  have "valid (agreed U) (with_repo repo_list_allocations) (\<lambda>_. agreed U) (\<lambda>_. agreed U)"
    by (rule valid_weaken [OF in_ctx_list]) (auto elim: in_ctx_weaken simp: agree_def db_ok_wf)
  then show ?thesis
    unfolding list_allocations_def by (rule valid_and_then [OF _ allocation_views_keeps [OF in_ctx_ask_runtime]])
qed

lemma get_allocation_resource_agreed: "valid (agreed U) (get_allocation_resource aid) (\<lambda>_. agreed U) (\<lambda>_. agreed U)"
  unfolding get_allocation_resource_def
  by (rule valid_and_then [OF valid_no_error [OF in_ctx_get]]) (auto intro!: valid_return elim: in_ctx_weaken)

lemma get_binding_view_agreed: "valid (agreed U) (get_binding_view rt aid) (\<lambda>_. agreed U) (\<lambda>_. agreed U)"
  unfolding get_binding_view_def binding_view_for_def
  by (rule valid_and_then [OF in_ctx_read [OF implements_get_binding]])
    (auto split: option.split intro!: valid_return valid_and_then [OF in_ctx_ask_runtime] valid_and_then)

lemma agreed_consistent: "valid (agreed U) m (\<lambda>_. agreed U) (\<lambda>_. agreed U) \<Longrightarrow> consistent inv served s \<Longrightarrow> U = used_ids s \<Longrightarrow>
    m s = (res, s') \<Longrightarrow> consistent inv served s'"
  using valid_result [of "agreed U" m "agreed U" s res s'] by (auto simp: consistent_def in_ctx_def)

text \<open>A new allocation has an id that nothing uses and a key that no row has, and persisting it keeps the agreement.\<close>

lemma new_allocation_unused:
  assumes con: "consistent inv served s" and new: "is_new_allocation s p tp port a" and free: "port_free p (uint port) (db (repo s))"
  shows "served (runtime s) (a_id a) = None" "\<not> db_has_key (a_id a) (a_protocol a) (a_port a) (db (repo s))"
proof -
  let ?d = "db (repo s)"
  have ok: "db_wf ?d" "served (runtime s) = stored_keys ?d" "dom (abs_store ?d) \<subseteq> used_ids s" "inj (generated_ids s)"
    using con by (auto simp: consistent_def in_ctx_def agree_def db_ok_wf)
  have id: "a_id a = generated_ids s (id_calls s)" "a_protocol a = p" "a_port a = port"
    using new by (auto simp: is_new_allocation_def)
  have "a_id a \<notin> used_ids s" using ok(4) id(1) by (auto simp: used_ids_def inj_def)
  then have fresh: "abs_store ?d (a_id a) = None" using ok(3) by auto
  then show "served (runtime s) (a_id a) = None" using ok(2) by (simp add: stored_keys_def)
  show "\<not> db_has_key (a_id a) (a_protocol a) (a_port a) ?d" using port_free_no_key [OF ok(1) fresh free] id by simp
qed

lemma persisted_consistent:
  assumes con: "consistent inv served s" and new: "is_new_allocation s p tp port a" and free: "port_free p (uint port) (db (repo s))"
    and create: "rf_create rt a t (runtime s) = (Inr u, runtime s')" and env: "same_env s s'" "id_calls s' = id_calls s + 1"
    and d': "db (repo s') = db_persist a (db (repo s))"
  shows "consistent inv served s'"
proof -
  let ?d = "db (repo s)"
  have ok: "db_ok ?d" "inv (runtime s)" "served (runtime s) = stored_keys ?d" "dom (abs_store ?d) \<subseteq> used_ids s" "inj (generated_ids s)"
    using con by (auto simp: consistent_def in_ctx_def agree_def)
  have id: "a_id a = generated_ids s (id_calls s)" "a_protocol a = p" "a_port a = port" "a_host a = None"
    using new by (auto simp: is_new_allocation_def)
  note unused = new_allocation_unused [OF con new free] and wf = db_ok_wf [OF ok(1)]
  note law = create_law [OF ok(2) unused(1) create]
  have used: "a_id a \<in> used_ids s'" "used_ids s \<subseteq> used_ids s'"
    using used_ids_new [OF env(1) ok(5)] used_ids_mono [OF env(1)] env(2) id(1) by simp_all
  show ?thesis
  proof (rule consistent_change [OF con])
    show "db_ok (db (repo s'))" using d' db_persist_ok [OF ok(1) unused(2)] free id by simp
    show "served (runtime s') = stored_keys (db (repo s'))"
      using d' law ok(3) stored_keys_persist [OF wf unused(2)] by simp
    show "dom (abs_store (db (repo s'))) \<subseteq> used_ids s'"
      using d' abs_db_persist [OF wf unused(2)] ok(4) used by auto
  qed (use env law in auto)
qed

lemma create_attempt_consistent:
  assumes con: "consistent inv served s" and run: "create_attempt rt p tp start s = (out, s')"
  shows "consistent inv served s'"
proof -
  let ?d = "db (repo s)"
  have ok: "db_ok ?d" "inv (runtime s)" "served (runtime s) = stored_keys ?d" "dom (abs_store ?d) \<subseteq> used_ids s" "fault_free (repo s)"
    using con by (auto simp: consistent_def in_ctx_def agree_def)
  have wf: "db_wf ?d" using ok(1) by (rule db_ok_wf)
  note keep = consistent_change [OF con]
  from wf run show ?thesis
  proof (cases rule: create_attempt_cases)
    case (query_failed e)
    with ok(5) show ?thesis by simp
  next
    case exhausted
    then show ?thesis using keep ok used_ids_mono [of s s'] by auto
  next
    case (tried port a x res)
    have free: "port_free p (uint port) ?d" using first_free_port_Some [OF tried(1)] by simp
    note unused = new_allocation_unused [OF con tried(2) free]
    show ?thesis
    proof (cases res)
      case (Inl e)
      have "used_ids s \<subseteq> used_ids s'" using used_ids_mono [OF tried(4)] tried(5) by simp
      then show ?thesis using Inl tried(4,6) create_law [OF ok(2) unused(1) tried(3)] ok by (intro keep) auto
    next
      case (Inr u)
      from tried(6) Inr consider
          (stored) r where "persist_action a r = (Inr (), repo s')" "db r = ?d" "runtime s' = x"
        | (undone) r e where "persist_action a r = (Inl e, repo s')" "db r = ?d" "faults r = faults (repo s)"
        by auto
      then show ?thesis
      proof cases
        case stored
        then have "db (repo s') = db_persist a ?d" using persist_action_Ok(2) wf by metis
        then show ?thesis using persisted_consistent [OF con tried(2) free _ tried(4,5)] tried(3) stored(3) Inr by simp
      next
        case undone
        then have "fault_free r" using ok(5) by (simp add: fault_free_def)
        with undone wf unused(2) show ?thesis using persist_action_fault_free [of r a] by fastforce
      qed
    qed
  qed
qed

lemma create_allocation_consistent:
  "create_allocation rt p tp s = (res, s') \<Longrightarrow> consistent inv served s \<Longrightarrow> consistent inv served s'"
  using create_loop_keeps [of "consistent inv served" rt p tp "Some (pr_start (service_port_range s))" s res s']
    create_attempt_consistent
  by (auto simp: create_allocation_def simp del: create_loop.simps split: if_splits)

lemma step_consistent:
  assumes "service_step rt R s s'" and "consistent inv served s"
    and "\<And>x y. R x y \<Longrightarrow> inv x \<Longrightarrow> inv y \<and> served y = served x"
  shows "consistent inv served s'"
  using assms(1)
proof cases
  case (step_runtime x)
  with assms(2) assms(3) [of "runtime s" x] show ?thesis
    by (auto simp: consistent_def in_ctx_def agree_def used_ids_def)
qed (use assms(2) create_allocation_consistent
    agreed_consistent [OF put_binding_agreed] agreed_consistent [OF delete_binding_agreed]
    agreed_consistent [OF update_allocation_agreed] agreed_consistent [OF delete_allocation_agreed]
    agreed_consistent [OF get_allocation_view_agreed] agreed_consistent [OF list_allocation_resources_agreed]
    agreed_consistent [OF list_allocations_agreed] agreed_consistent [OF get_allocation_resource_agreed]
    agreed_consistent [OF get_binding_view_agreed] agreed_consistent [OF in_ctx_other(1)] in metis)+

lemma reachable_consistent:
  assumes "(service_step rt R)\<^sup>*\<^sup>* s s'" and "consistent inv served s"
    and "\<And>x y. R x y \<Longrightarrow> inv x \<Longrightarrow> inv y \<and> served y = served x"
  shows "consistent inv served s'"
  using assms(1,2) by (induction rule: rtranclp_induct) (auto dest: step_consistent [OF _ _ assms(3)])

lemma restore_each_served:
  assumes "restore_each rt t xs s = (Inr (), s')" and "inv (runtime s)" and "distinct (map a_id xs)"
    and "\<forall>a \<in> set xs. served (runtime s) (a_id a) = None"
  shows "inv (runtime s') \<and> served (runtime s') = served (runtime s) ++ map_of (map (\<lambda>a. (a_id a, alloc_key a)) xs) \<and>
    repo s' = repo s"
  using assms
proof (induction xs arbitrary: s)
  case (Cons a xs)
  from Cons.prems(1) obtain x where restored: "rf_restore rt a t (runtime s) = (Inr (), x)"
    and rest: "restore_each rt t xs (s\<lparr>runtime := x\<rparr>) = (Inr (), s')"
    by (auto simp: and_then_eq_Ok restore_in_runtime_def with_runtime_def zoom_eq_Ok)
  have "inv x" "served x = (served (runtime s))(a_id a \<mapsto> alloc_key a)"
    using restore_law [OF Cons.prems(2) _ restored] Cons.prems(4) by auto
  moreover have "\<forall>b \<in> set xs. served x (a_id b) = None"
    using calculation(2) Cons.prems(3,4) by (auto simp: image_iff)
  moreover have "inv (runtime s') \<and> served (runtime s') = served x ++ map_of (map (\<lambda>a. (a_id a, alloc_key a)) xs) \<and> repo s' = repo s"
    using Cons.IH [OF rest] Cons.prems(3) calculation(1,3) by simp
  moreover have "map_of (map (\<lambda>a. (a_id a, alloc_key a)) xs) (a_id a) = None"
    using Cons.prems(3) by (auto simp: map_of_eq_None_iff image_iff)
  ultimately show ?case by (auto simp: fun_eq_iff map_add_def split: option.split)
qed simp

lemma restore_all_serves:
  assumes run: "restore_all rt t s = (Inr (), s')" and ok: "db_ok (db (repo s))"
    and start: "inv (runtime s)" "served (runtime s) = Map.empty"
  shows "db (repo s') = db (repo s) \<and> inv (runtime s') \<and> served (runtime s') = stored_keys (db (repo s))"
proof -
  from run obtain x xs r where init: "rf_initialize rt t (runtime s) = (Inr (), x)"
    and listed: "repo_list_allocations (repo s) = (Inr xs, r)"
    and each: "restore_each rt t xs (s\<lparr>runtime := x, repo := r\<rparr>) = (Inr (), s')"
    unfolding restore_all_def by (auto simp: and_then_eq_Ok with_runtime_def with_repo_def zoom_eq_Ok)
  note wf = db_ok_wf [OF ok]
  have r: "db r = db (repo s)" and spec: "list_spec (db (repo s)) = Inr xs"
    using repo_list_allocations_run(1,4) [OF wf listed] by simp_all
  have ids: "map a_id xs = map row_id (sort_key (\<lambda>r. (row_protocol r, row_port r)) (allocations (db (repo s))))"
    and abs: "\<forall>a \<in> set xs. \<exists>bd. abs_store (db (repo s)) (a_id a) = Some (a, bd)"
    using list_spec_wf [OF wf] spec by auto
  have dist: "distinct (map a_id xs)" using wf unfolding ids by (simp add: db_wf_def distinct_map)
  have "inv x" "served x = Map.empty" using initialize_law [OF start(1) init] start(2) by simp_all
  with restore_each_served [OF each] dist
  have fin: "inv (runtime s')" "served (runtime s') = map_of (map (\<lambda>a. (a_id a, alloc_key a)) xs)" "db (repo s') = db (repo s)"
    using r by auto
  have "map_of (map (\<lambda>a. (a_id a, alloc_key a)) xs) i = stored_keys (db (repo s)) i" for i
  proof (cases "abs_store (db (repo s)) i")
    case None
    then have "i \<notin> a_id ` set xs" using abs by (metis image_iff option.distinct(1))
    with None show ?thesis by (auto simp: stored_keys_def map_of_eq_None_iff image_iff)
  next
    case (Some ab)
    then have "i \<in> set (map row_id (allocations (db (repo s))))" using abs_store_None [OF wf, of i] by auto
    then have "i \<in> set (map a_id xs)" unfolding ids by simp
    then obtain a where a: "a \<in> set xs" "a_id a = i" by auto
    with abs Some have "fst ab = a" by fastforce
    moreover have "map_of (map (\<lambda>a. (a_id a, alloc_key a)) xs) i = Some (alloc_key a)"
      using dist a by (intro map_of_is_SomeI) (auto simp: comp_def image_iff)
    ultimately show ?thesis using Some by (cases ab) (simp add: stored_keys_def)
  qed
  with fin show ?thesis by auto
qed

end

section \<open>Properties\<close>

definition no_double_promise :: "database \<Rightarrow> bool" where
  "no_double_promise d \<longleftrightarrow> (\<forall>i j a b x y. i \<noteq> j \<longrightarrow> abs_store d i = Some (a, x) \<longrightarrow> abs_store d j = Some (b, y) \<longrightarrow>
     a_port a = a_port b \<longrightarrow> \<not> protocols_conflict (a_protocol a) (a_protocol b))"

lemma stored_row:
  assumes "db_wf d" and "abs_store d i = Some (a, bd)"
  shows "\<exists>r \<in> set (allocations d). row_id r = i \<and> row_protocol r = protocol_as_str (a_protocol a) \<and> row_port r = uint (a_port a)"
proof -
  from assms(2) obtain r where r: "select_row i d = Some r" "decode_join (r, select_binding i d) = Some (a, bd)"
    by (auto simp: abs_store_alt bind_eq_Some_conv)
  then have mem: "r \<in> set (allocations d)" "row_id r = i" by (auto simp: select_row_def dest: find_key_Some)
  then have "row_wf r" using assms(1) by (simp add: db_wf_def list_all_iff)
  moreover from this obtain q where "protocol_from_str (row_protocol r) = Ok q" "protocol_as_str q = row_protocol r"
    using protocol_from_str_wf unfolding row_wf_def by blast
  ultimately show ?thesis
    using decode_join_Some [OF r(2)] mem
    by (intro bexI [of _ r]) (auto simp: port_from_i32_eq_Ok row_wf_def uint_of_int_u16)
qed

lemma db_ok_no_double_promise:
  assumes "db_ok d"
  shows "no_double_promise d"
  unfolding no_double_promise_def
proof (intro allI impI)
  fix i j a b x y
  assume ne: "i \<noteq> j" and ab: "abs_store d i = Some (a, x)" "abs_store d j = Some (b, y)" and port: "a_port a = a_port b"
  have wf: "db_wf d" and cf: "conflict_free d" using assms by (auto simp: db_ok_def db_inv_def)
  obtain r s where "r \<in> set (allocations d)" "row_id r = i" "row_protocol r = protocol_as_str (a_protocol a)" "row_port r = uint (a_port a)"
    "s \<in> set (allocations d)" "row_id s = j" "row_protocol s = protocol_as_str (a_protocol b)" "row_port s = uint (a_port b)"
    using stored_row [OF wf ab(1)] stored_row [OF wf ab(2)] by blast
  with cf ne port have "\<not> row_protocols_conflict (protocol_as_str (a_protocol a)) (protocol_as_str (a_protocol b))"
    unfolding conflict_free_def by (metis)
  then show "\<not> protocols_conflict (a_protocol a) (a_protocol b)" unfolding row_protocols_conflict_as_str .
qed

text \<open>
  C4. Safety of the tables: from sound tables, in every state that any sequence of service operations
  reaches, with any runtime, any outcome of every operation and any database fault, no port is
  promised to two allocations whose protocols conflict, and every stored host is an IP literal.
\<close>

theorem tables_sound_reachable:
  assumes "(service_step rt R)\<^sup>*\<^sup>* s s'" and "db_ok (db (repo s))"
  shows "no_double_promise (db (repo s')) \<and> (\<forall>h \<in> db_hosts (db (repo s')). host_literal (Some h)) \<and> db_wf (db (repo s'))"
proof -
  have "db_ok (db (repo s'))" using reachable_db_ok [OF assms(1)] assms(2) by (simp add: on_db_def)
  then show ?thesis by (auto simp: db_ok_no_double_promise db_ok_def db_ok_wf)
qed

definition example_service :: "runtime_state service" where
  "example_service = with_id_generator example_repo
     (runtime_state_default\<lparr>rs_allocations := [''a'' \<mapsto> \<lparr>a_id = ''a'', a_protocol = Tcp, a_port = 1000, a_target_port = None,
        a_host = None, a_created_at_ms = 1, a_updated_at_ms = 1\<rparr>]\<rparr>)
     \<lparr>pr_start = 1000, pr_end = 1002\<rparr> 2000 (\<lambda>n. replicate (n + 1) CHR ''a'') (\<lambda>n. 10 + int n)"

lemma example_service_repo [simp]: "repo example_service = example_repo"
  by (simp add: example_service_def with_id_generator_def)

lemma db_ok_example [simp]: "db_ok (db example_repo)"
  using db_inv_example by (simp add: db_ok_def db_hosts_def example_row_def)

theorem tables_sound_reachable_witness:
  "\<exists>s'. (service_step in_memory_runtime (=))\<^sup>*\<^sup>* example_service s' \<and> s' \<noteq> example_service \<and> no_double_promise (db (repo s'))"
proof -
  obtain res s' where run: "delete_allocation in_memory_runtime ''b'' example_service = (res, s')" by fastforce
  have "round_trips (repo s') = 1" 
    using run by (auto simp: delete_allocation_def with_repo_def zoom_def repo_get_allocation_def and_then_def run_sql_def
        round_trip_def query_stmt_def select_joined_def lift_result_def example_row_def)
  moreover have "(service_step in_memory_runtime (=))\<^sup>*\<^sup>* example_service s'"
    using step_delete [OF run] by blast
  moreover from this have "no_double_promise (db (repo s'))"
    using tables_sound_reachable by fastforce
  ultimately show ?thesis by (metis example_service_repo example_repo_simps(4) zero_neq_one)
qed

text \<open>
  C3. Agreement of tables and data plane: with a runtime that keeps the facade's contract, a repository
  that does not fail and fresh ids, in every reachable state, after every operation whatever its result,
  the runtime serves exactly the stored allocations, each on its protocol and port.
\<close>

theorem runtime_serves_stored:
  assumes "runtime_contract rt rt_inv served" and "(service_step rt R)\<^sup>*\<^sup>* s s'" and "consistent rt_inv served s"
    and "\<And>x y. R x y \<Longrightarrow> rt_inv x \<Longrightarrow> rt_inv y \<and> served y = served x"
  shows "served (runtime s') = stored_keys (db (repo s'))"
  using runtime_contract.reachable_consistent [OF assms]
  by (simp add: consistent_def in_ctx_def agree_def)

lemma example_service_simps [simp]:
  "runtime example_service = runtime_state_default\<lparr>rs_allocations := [''a'' \<mapsto> \<lparr>a_id = ''a'', a_protocol = Tcp, a_port = 1000,
     a_target_port = None, a_host = None, a_created_at_ms = 1, a_updated_at_ms = 1\<rparr>]\<rparr>"
  "service_port_range example_service = \<lparr>pr_start = 1000, pr_end = 1002\<rparr>"
  "service_failpoints example_service = failpoints_default"
  "apply_timeout_ms example_service = 2000" "id_calls example_service = 0"
  "generated_ids example_service n = replicate (n + 1) CHR ''a''"
  "clock_calls example_service = 0" "system_clock_ms example_service n = 10 + int n"
  by (simp_all add: example_service_def with_id_generator_def)

lemma abs_store_example:
  "abs_store (db example_repo) i = (if i = ''a'' then Some (\<lparr>a_id = ''a'', a_protocol = Tcp, a_port = 1000,
      a_target_port = None, a_host = None, a_created_at_ms = 1, a_updated_at_ms = 1\<rparr>, None) else None)"
  using protocol_from_as_str [of Tcp]
  by (simp add: abs_store_alt select_row_def select_binding_def decode_join_def row_to_allocation_with_binding_def
      example_row_def legacy_target_port_def port_from_i32_def)

definition example_started :: "runtime_state service" where
  "example_started = example_service\<lparr>id_calls := 1\<rparr>"

lemma example_started_simps [simp]:
  "repo example_started = example_repo" "runtime example_started = runtime example_service"
  "service_failpoints example_started = failpoints_default" "id_calls example_started = 1"
  "generated_ids example_started = (\<lambda>n. replicate (n + 1) CHR ''a'')"
  by (simp_all add: example_started_def fun_eq_iff)

lemma consistent_example: "consistent (\<lambda>_. True) mem_served example_started"
  by (auto simp: consistent_def in_ctx_def agree_def used_ids_def mem_served_def stored_keys_def abs_store_example
      failpoints_default_def fun_eq_iff alloc_key_def runtime_state_default_def inj_def replicate_eq_replicate
      split: if_splits)

theorem runtime_serves_stored_witness:
  "\<exists>s' res. delete_allocation in_memory_runtime ''a'' example_started = (res, s') \<and>
     mem_served (runtime s') = stored_keys (db (repo s'))"
proof -
  obtain res s' where run: "delete_allocation in_memory_runtime ''a'' example_started = (res, s')" by fastforce
  have "(service_step in_memory_runtime (=))\<^sup>*\<^sup>* example_started s'" using step_delete [OF run] by blast
  from runtime_serves_stored [OF mem.runtime_contract_axioms this consistent_example] run show ?thesis by blast
qed




text \<open>
  The iterations of a search, and that the runtime refused a port in one of them: it was asked to create
  an allocation on that port and answered that it cannot bind it.
\<close>

inductive search_step :: "'rt runtime_facade \<Rightarrow> protocol \<Rightarrow> u16 option \<Rightarrow> u16 option \<times> 'rt service \<Rightarrow> u16 option \<times> 'rt service \<Rightarrow> bool"
  for rt p tp where
  search_continue: "create_attempt rt p tp start s = (Continue np, s') \<Longrightarrow> search_step rt p tp (Some start, s) (np, s')"

definition refused_during :: "'rt runtime_facade \<Rightarrow> protocol \<Rightarrow> u16 option \<Rightarrow> u16 option \<times> 'rt service \<Rightarrow> int \<Rightarrow> bool" where
  "refused_during rt p tp from n \<longleftrightarrow>
     (\<exists>i s1 s2 a. (search_step rt p tp)\<^sup>*\<^sup>* from (i, s1) \<and> search_step rt p tp (i, s1) s2 \<and>
        a_protocol a = p \<and> uint (a_port a) = n \<and>
        rf_create rt a (apply_timeout_ms s1) (runtime s1) = (Err RuntimeCreateFailed, runtime (snd s2)))"

lemma refused_during_step:
  "search_step rt p tp x y \<Longrightarrow> refused_during rt p tp y n \<Longrightarrow> refused_during rt p tp x n"
  unfolding refused_during_def by (blast intro: converse_rtranclp_into_rtranclp)

lemma uint_checked_add_1: "checked_add p 1 = Some q \<Longrightarrow> uint q = uint p + 1" for p q :: u16
  using unat_checked_add [of p 1 q] by (metis of_nat_add of_nat_1 uint_nat unat_1)

lemma checked_add_1_None: "checked_add p 1 = None \<Longrightarrow> uint p = 65535" for p :: u16
proof -
  assume "checked_add p 1 = None"
  then have "65536 \<le> unat p + 1" by (simp add: checked_add_def split: if_splits)
  moreover have "unat p < 65536" by simp
  ultimately have "unat p = 65535" by linarith
  then show ?thesis by (metis of_nat_numeral uint_nat)
qed

lemma refused_attempt:
  assumes "create_attempt rt p tp start s = (Continue np, s1)" and "is_new_allocation s p tp port a"
    and "rf_create rt a (apply_timeout_ms s) (runtime s) = (Err RuntimeCreateFailed, runtime s1)"
  shows "refused_during rt p tp (Some start, s) (uint port)"
proof -
  have "search_step rt p tp (Some start, s) (np, s1)" using assms(1) by (simp add: search_continue)
  moreover have "a_protocol a = p" "uint (a_port a) = uint port" using assms(2) by (simp_all add: is_new_allocation_def)
  ultimately show ?thesis using assms(3) unfolding refused_during_def by fastforce
qed

lemma next_port_reaches:
  fixes port hi :: u16
  assumes "uint port < n" and "n \<le> uint hi"
  obtains q where "checked_add port 1 = Some q" and "uint q \<le> n"
proof -
  have "n \<le> 65535" using assms(2) uint_u16_le order_trans by blast
  with assms(1) obtain q where q: "checked_add port 1 = Some q"
    using checked_add_1_None [of port] by (cases "checked_add port 1") auto
  moreover have "uint q \<le> n" using q uint_checked_add_1 assms(1) by fastforce
  ultimately show thesis by (rule that)
qed

lemma create_loop_exhausted:
  assumes "create_loop rt p tp np s = (Err NoAvailablePort, s')" and "db_ok (db (repo s))"
    and "np = Some start" and "uint start \<le> n" and "n \<le> uint (pr_end (service_port_range s))" and "port_free p n (db (repo s))"
  shows "refused_during rt p tp (Some start, s) n"
  using assms
proof (induction rt p tp np s arbitrary: s' start rule: create_loop.induct)
  case (2 rt p tp start0 s)
  have [simp]: "start0 = start" using 2(4) by simp
  obtain out s1 where att: "create_attempt rt p tp start s = (out, s1)" by fastforce
  from db_ok_wf [OF 2(3)] att show ?case
  proof (cases rule: create_attempt_cases)
    case (query_failed e)
    with 2(2) att show ?thesis by simp
  next
    case exhausted
    with 2 show ?thesis by (auto simp: first_free_port_None_iff)
  next
    case (tried port a x res)
    note first = tried(1) [unfolded first_free_port_Some_iff]
    show ?thesis
    proof (cases res)
      case (Inr u)
      with tried(6) 2(2) att show ?thesis by (auto split: attempt.splits)
    next
      case (Inl e)
      show ?thesis
      proof (cases "e = RuntimeCreateFailed")
        case False
        with tried(6) Inl 2(2) att show ?thesis by auto
      next
        case True
        with tried(6) Inl have out: "out = Continue (checked_add port 1)" and db: "db (repo s1) = db (repo s)" by simp_all
        with 2(2) att have rest: "create_loop rt p tp (checked_add port 1) s1 = (Err NoAvailablePort, s')" by simp
        have env: "service_port_range s1 = service_port_range s" using tried(4) by (simp add: same_env_def)
        have step: "search_step rt p tp (Some start, s) (checked_add port 1, s1)" using att out by (simp add: search_continue)
        consider "n < uint port" | "n = uint port" | "uint port < n" by linarith
        then show ?thesis
        proof cases
          case 1
          with first 2(5,7) show ?thesis by blast
        next
          case 2
          have "rf_create rt a (apply_timeout_ms s) (runtime s) = (Err RuntimeCreateFailed, runtime s1)"
            using tried(3,6) Inl True by simp
          then show ?thesis using refused_attempt [OF att [unfolded out] tried(2)] 2 by simp
        next
          case 3
          obtain q where q: "checked_add port 1 = Some q" "uint q \<le> n" using next_port_reaches [OF 3 2(6)] .
          moreover have "(out, s1) = create_attempt rt p tp start0 s" using att by simp
          ultimately have "refused_during rt p tp (Some q, s1) n"
            using 2(1) [OF _ out rest _ q(1)] 2(3,6,7) db env by simp
          then show ?thesis using step q(1) refused_during_step by fastforce
        qed
      qed
    qed
  qed
qed simp

text \<open>
  C11. \<open>NoAvailablePort\<close> is the truth: when the search reports that no port is available, every port of the
  configured range is held by a conflicting allocation or was refused by the runtime.
\<close>

theorem no_available_port_exhaustive:
  assumes "db_ok (db (repo s))" and "create_allocation rt p tp s = (Err NoAvailablePort, s')"
    and "port_range_contains (service_port_range s) q"
  shows "\<not> port_free p (uint q) (db (repo s)) \<or>
    refused_during rt p tp (Some (pr_start (service_port_range s)), s) (uint q)"
  using create_loop_exhausted [of rt p tp _ s s' "pr_start (service_port_range s)" "uint q"] assms
  by (auto simp: create_allocation_def port_range_contains_def word_le_def simp del: create_loop.simps split: if_splits)

definition refusing_service :: "runtime_state service" where
  "refusing_service = example_started\<lparr>service_port_range := \<lparr>pr_start = 1001, pr_end = 1001\<rparr>,
     runtime := fail_create_port 1001 (runtime example_service)\<rparr>"

lemma refusing_service_simps [simp]:
  "repo refusing_service = example_repo" "service_port_range refusing_service = \<lparr>pr_start = 1001, pr_end = 1001\<rparr>"
  "service_failpoints refusing_service = failpoints_default"
  by (simp_all add: refusing_service_def)

lemma port_1001_free: "port_free Tcp 1001 (db example_repo)"
  by (simp add: port_free_def example_row_def)

lemma refusing_example:
  "\<exists>s'. create_allocation in_memory_runtime Tcp None refusing_service = (Err NoAvailablePort, s')"
proof -
  have find: "find_available_allocation_port Tcp 1001 1001 example_repo = (Ok (Some 1001), example_repo\<lparr>round_trips := 1\<rparr>)"
    using port_1001_free
    by (simp add: find_available_allocation_port_def and_then_def run_sql_def round_trip_def query_stmt_def
        select_free_port_first lift_result_def first_free_port_def port_from_i32_def)
  have none: "find_available_allocation_port Tcp 1002 1001 (example_repo\<lparr>round_trips := 1\<rparr>) =
      (Ok None, example_repo\<lparr>round_trips := 2\<rparr>)"
    by (simp add: find_available_allocation_port_def and_then_def run_sql_def round_trip_def query_stmt_def
        select_free_port_first lift_result_def first_free_port_def)
  show ?thesis using find none
    by (simp add: create_allocation_def create_attempt_def with_repo_def zoom_def failpoints_default_def refusing_service_def
        new_allocation_def current_time_ms_def generate_id_def example_started_def in_memory_runtime_def mem_create_def
        fail_create_port_def runtime_state_default_def checked_add_def)
qed

theorem no_available_port_exhaustive_witness:
  "refused_during in_memory_runtime Tcp None (Some 1001, refusing_service) 1001"
proof -
  obtain s' where run: "create_allocation in_memory_runtime Tcp None refusing_service = (Err NoAvailablePort, s')"
    using refusing_example by blast
  have "db_ok (db (repo refusing_service))" "port_range_contains (service_port_range refusing_service) 1001"
    by (simp_all add: port_range_contains_def)
  from no_available_port_exhaustive [OF this(1) run this(2)] port_1001_free show ?thesis by simp
qed

subsection \<open>Updates\<close>

lemma with_repo_Ok:
  assumes "implements m spec" and "with_repo m s = (Inr x, s')"
  shows "spec (db (repo s)) = (Inr x, db (repo s'))" and "s' = s\<lparr>repo := repo s'\<rparr>"
  using assms(2) implements_Ok(2) [OF assms(1)] by (auto simp: with_repo_def zoom_eq_Ok)









text \<open>
  C8. Deleting an allocation that succeeds takes it out of the runtime and out of the store, and
  nothing else.
\<close>

theorem delete_allocation_correct:
  assumes "db_ok (db (repo s))" and "delete_allocation rt aid s = (Ok (), s')"
  shows "abs_store (db (repo s)) aid \<noteq> None \<and> abs_store (db (repo s')) = (abs_store (db (repo s)))(aid := None) \<and>
    rf_delete rt aid (apply_timeout_ms s) (runtime s) = (Ok (), runtime s') \<and> db_ok (db (repo s'))"
proof -
  from assms(2) obtain s1 a s2 s3 where get: "with_repo (repo_get_allocation aid) s = (Inr (Some a), s1)"
    and del: "delete_in_runtime rt aid s1 = (Inr (), s2)"
    and rep: "with_repo (repo_delete_allocation aid) s2 = (Inr True, s3)" and s': "s' = s3"
    by (auto simp: delete_allocation_def and_then_eq_Ok fail_if_def split: option.splits if_splits)
  have found: "Some a = map_option fst (abs_store (db (repo s)) aid)" and d1: "db (repo s1) = db (repo s)"
    and s1: "s1 = s\<lparr>repo := repo s1\<rparr>"
    using with_repo_Ok [OF implements_get_allocation get] abs_store_read [OF db_ok_wf [OF assms(1)]]
    by (auto simp: read_spec_def)
  from s1 have f1: "runtime s1 = runtime s" "apply_timeout_ms s1 = apply_timeout_ms s"
    by (metis service.select_convs service.update_convs(1) service.surjective)+
  from del have s2: "rf_delete rt aid (apply_timeout_ms s1) (runtime s1) = (Inr (), runtime s2)" "repo s2 = repo s1"
    by (auto simp: delete_in_runtime_def with_runtime_def zoom_eq_Ok)
  note r = with_repo_Ok [OF implements_delete_allocation rep]
  have "runtime s3 = runtime s2" using r(2) by (metis service.select_convs service.update_convs(1) service.surjective)
  moreover have "db (repo s3) = db_delete_allocation aid (db (repo s))" using r(1) s2(2) d1 by simp
  moreover have "abs_store (db (repo s)) aid \<noteq> None" using found by (cases "abs_store (db (repo s)) aid") auto
  ultimately show ?thesis
    using f1 s2(1) s' abs_delete_allocation [of aid "db (repo s)"] db_ok_delete_allocation [OF assms(1), of aid]
    by auto
qed

lemma get_example:
  obtains r where "repo_get_allocation ''a'' example_repo = (Ok (map_option fst (abs_store (db example_repo) ''a'')), r)"
      "db r = db example_repo" "faults r = faults example_repo"
  by (rule implements_fault_free [OF implements_get_allocation fault_free_example])
    (simp_all add: read_spec_def abs_store_read)

lemma delete_example: "\<exists>s'. delete_allocation in_memory_runtime ''a'' example_started = (Ok (), s')"
proof -
  obtain r where get: "repo_get_allocation ''a'' example_repo = (Ok (map_option fst (abs_store (db example_repo) ''a'')), r)"
      "db r = db example_repo" "faults r = faults example_repo"
    by (rule get_example)
  have "fault_free r" using get(3) by (simp add: fault_free_def)
  then obtain r2 where "repo_delete_allocation ''a'' r = (Ok (''a'' \<in> row_id ` set (allocations (db r))), r2)"
    using implements_fault_free [OF implements_delete_allocation] by blast
  moreover have "''a'' \<in> row_id ` set (allocations (db r))" by (simp add: get(2) example_row_def)
  ultimately show ?thesis
    using get(1)
    by (simp add: delete_allocation_def and_then_def with_repo_def zoom_def fail_if_def failpoints_default_def
        delete_in_runtime_def with_runtime_def in_memory_runtime_def mem_delete_def runtime_state_default_def
        abs_store_example example_started_def Let_def)
qed

theorem delete_allocation_correct_witness:
  "\<exists>s'. delete_allocation in_memory_runtime ''a'' example_started = (Ok (), s') \<and> abs_store (db (repo s')) ''a'' = None"
proof -
  obtain s' where run: "delete_allocation in_memory_runtime ''a'' example_started = (Ok (), s')"
    using delete_example by blast
  from delete_allocation_correct [OF _ run] run show ?thesis by simp
qed



text \<open>
  C9. Startup: when the restore sweep over an empty runtime succeeds, the runtime serves exactly the
  stored allocations and the tables are untouched.
\<close>

theorem restore_all_complete:
  assumes "runtime_contract rt rt_inv served" and "restore_all rt t s = (Ok (), s')" and "db_ok (db (repo s))"
    and "rt_inv (runtime s)" and "served (runtime s) = Map.empty"
  shows "db (repo s') = db (repo s) \<and> served (runtime s') = stored_keys (db (repo s'))"
  using runtime_contract.restore_all_serves [OF assms] by simp

lemma restore_example:
  "\<exists>s'. restore_all in_memory_runtime 30000 (example_started\<lparr>runtime := runtime_state_default\<rparr>) = (Ok (), s')"
proof -
  obtain res r where run: "repo_list_allocations example_repo = (res, r)" by fastforce
  obtain xs where "res = Ok xs" using repo_list_allocations_run(3) [OF db_wf_example run] list_spec_wf [OF db_wf_example] by auto
  with run have "with_repo repo_list_allocations (example_started\<lparr>runtime := x\<rparr>) = (Ok xs, example_started\<lparr>runtime := x, repo := r\<rparr>)" for x
    by (simp add: with_repo_def zoom_def)
  moreover have "\<exists>s'. restore_each in_memory_runtime t ys s = (Ok (), s')" if "rs_restore_fail_ids (runtime s) = {}" for t ys s
    using that
  proof (induction ys arbitrary: s)
    case (Cons a ys)
    obtain x where "rf_restore in_memory_runtime a t (runtime s) = (Ok (), x)" "rs_restore_fail_ids x = {}"
      using Cons.prems by (simp add: in_memory_runtime_def mem_restore_def Let_def)
    with Cons.IH [of "s\<lparr>runtime := x\<rparr>"] show ?case
      by (auto simp: and_then_def restore_in_runtime_def with_runtime_def zoom_def)
  qed simp
  ultimately show ?thesis
    by (simp add: restore_all_def and_then_def with_runtime_def zoom_def in_memory_runtime_def mem_initialize_def
        runtime_state_default_def Let_def)
qed

theorem restore_all_complete_witness:
  "\<exists>s'. restore_all in_memory_runtime 30000 (example_started\<lparr>runtime := runtime_state_default\<rparr>) = (Ok (), s') \<and>
     mem_served (runtime s') ''a'' = Some (Tcp, 1000)"
proof -
  obtain s' where run: "restore_all in_memory_runtime 30000 (example_started\<lparr>runtime := runtime_state_default\<rparr>) = (Ok (), s')"
    using restore_example by blast
  have "mem_served (runtime s') = stored_keys (db (repo s')) \<and> db (repo s') = db example_repo"
    using restore_all_complete [OF mem.runtime_contract_axioms run]
    by (simp add: mem_served_def runtime_state_default_def fun_eq_iff)
  with run show ?thesis by (simp add: stored_keys_def abs_store_example alloc_key_def)
qed



subsection \<open>A failed database delete loses the listener\<close>

text \<open>
  When the row of a deleted allocation cannot be removed, the injected failure restores the runtime but the
  real error path returns before doing so.
\<close>

definition failing_delete :: "runtime_state service" where
  "failing_delete = example_started\<lparr>repo := example_repo\<lparr>faults := (\<lambda>n. n = 1)\<rparr>\<rparr>"

lemma failing_delete_simps [simp]:
  "repo failing_delete = example_repo\<lparr>faults := (\<lambda>n. n = 1)\<rparr>" "runtime failing_delete = runtime example_service"
  "service_failpoints failing_delete = failpoints_default" "apply_timeout_ms failing_delete = 2000"
  by (simp_all add: failing_delete_def example_started_def)


end
