(* ===== verification/Relayd_Net.thy ===== *)
theory Relayd_Net
  imports Relayd_Facade Relayd_Metrics
begin

text \<open>
  What the data planes share: input and output errors and time as the Rust standard library has them,
  socket addresses, lists used as a store of reference-counted objects, and the contract of a runtime
  that serves listeners of one protocol, which the userspace runtime composes for TCP and UDP.
\<close>

subsection \<open>Errors, time and addresses\<close>

datatype io_kind = TimedOut | WouldBlock | BrokenPipe | ConnectionReset | NotConnected | WriteZero | InvalidData | OtherKind

datatype io_error = IoError io_kind string

fun io_error_kind :: "io_error \<Rightarrow> io_kind" where
  "io_error_kind (IoError k _) = k"

fun io_error_to_string :: "io_error \<Rightarrow> string" where
  "io_error_to_string (IoError _ msg) = msg"

type_synonym duration_ns = nat
type_synonym instant_ns = nat
type_synonym socket_addr = "ip_addr \<times> u16"

text \<open>The counters a listener keeps; the TCP and the UDP relay declare the same structure.\<close>

record listener_metrics =
  lm_active :: u64
  lm_rx :: u64
  lm_tx :: u64

definition listener_metrics_default :: listener_metrics where
  "listener_metrics_default = \<lparr>lm_active = 0, lm_rx = 0, lm_tx = 0\<rparr>"

subsection \<open>Counters that do not wrap\<close>

lemma u64_not_max: "n \<noteq> - 1 \<Longrightarrow> unat n + 1 < 2 ^ 64" for n :: u64
proof -
  assume "n \<noteq> - 1"
  then have "unat n \<noteq> unat (- 1 :: u64)" using word_eq_iff_unsigned by blast
  moreover have "unat n < 2 ^ 64" using unsigned_less [where ?'a = nat, of n] by simp
  moreover have "unat (- 1 :: u64) = 2 ^ 64 - 1" by (simp add: unsigned_minus_1_eq_mask mask_eq_exp_minus_1)
  ultimately show ?thesis by simp
qed

lemma u64_succ: "n \<noteq> - 1 \<Longrightarrow> s < n \<Longrightarrow> s < n + 1" "n \<noteq> - 1 \<Longrightarrow> n < n + 1" for n s :: u64
proof -
  have "n < n + 1" if "n \<noteq> - 1" using u64_not_max [OF that] by (simp add: word_less_nat_alt unat_word_ariths)
  then show "n \<noteq> - 1 \<Longrightarrow> s < n \<Longrightarrow> s < n + 1" "n \<noteq> - 1 \<Longrightarrow> n < n + 1" by auto
qed

lemma saturating_succ: "g \<noteq> - 1 \<Longrightarrow> saturating_add g 1 = g + 1 \<and> g < g + 1" for g :: u64
  using u64_not_max [of g] u64_succ(2) [of g] by (simp add: saturating_add_def)

subsection \<open>Stores\<close>

text \<open>
  Objects behind an \<open>Arc\<close> live in a list; an address is a position. Nothing is removed from the list, so an
  address stays valid after the object left the table that named it.
\<close>

definition on_nth :: "nat \<Rightarrow> ('a \<Rightarrow> 'a) \<Rightarrow> 'a list \<Rightarrow> 'a list" where
  "on_nth i f xs = xs[i := f (xs ! i)]"

lemma length_on_nth [simp]: "length (on_nth i f xs) = length xs"
  by (simp add: on_nth_def)

lemma nth_on_nth: "j < length xs \<Longrightarrow> on_nth i f xs ! j = (if i = j then f (xs ! j) else xs ! j)"
  by (simp add: on_nth_def nth_list_update)

lemma nth_on_nth_eq [simp]: "i < length xs \<Longrightarrow> on_nth i f xs ! i = f (xs ! i)"
  and nth_on_nth_neq [simp]: "i \<noteq> j \<Longrightarrow> on_nth i f xs ! j = xs ! j"
  by (simp_all add: on_nth_def)

lemma map_on_nth_same: "i < length xs \<Longrightarrow> g (f (xs ! i)) = g (xs ! i) \<Longrightarrow> map g (on_nth i f xs) = map g xs"
  by (auto simp: on_nth_def list_eq_iff_nth_eq nth_list_update)

lemma map_on_nth: "e < length xs \<Longrightarrow> map g (on_nth e f xs) = on_nth e (\<lambda>_. g (f (xs ! e))) (map g xs)"
  by (simp add: on_nth_def map_update)

lemma map_eq_nth: "map f xs = map f ys \<Longrightarrow> i < length ys \<Longrightarrow> f (xs ! i) = f (ys ! i)"
  by (metis length_map nth_map)

text \<open>A table from keys to addresses, as an association list in which no key and no address repeats.\<close>

lemma update_fresh: "i \<notin> fst ` set es \<Longrightarrow> AList.update i e es = es @ [(i, e)]"
  by (induction es) auto

lemma distinct_map_filter_keep: "distinct (map f xs) \<Longrightarrow> distinct (map f (filter P xs))"
  by (simp add: distinct_map inj_on_def)

lemma distinct_delete_both:
  "distinct (map fst es) \<Longrightarrow> distinct (map fst (AList.delete i es))" "distinct (map snd es) \<Longrightarrow> distinct (map snd (AList.delete i es))"
  by (simp_all add: AList.delete_eq distinct_map_filter_keep)

lemma snd_delete:
  assumes "distinct (map snd es)" and "map_of es i = Some e" and "distinct (map fst es)"
  shows "snd ` set (AList.delete i es) = snd ` set es - {e}"
proof -
  have mem: "(i, e) \<in> set es" using assms(2) by (rule map_of_SomeD)
  have uniq: "b = e" if "(i, b) \<in> set es" for b using map_of_is_SomeI [OF assms(3) that] assms(2) by simp
  have rest: "set (AList.delete i es) = set es - {(i, e)}" using mem by (auto simp: AList.delete_eq dest: uniq)
  have only_i: "k = i" if "(k, e) \<in> set es" for k
  proof -
    have "inj_on snd (set es)" using assms(1) by (simp add: distinct_map)
    from inj_onD [OF this _ that mem] show ?thesis by simp
  qed
  show ?thesis unfolding rest using mem by (auto dest: only_i)
qed

definition count_if :: "('a \<Rightarrow> bool) \<Rightarrow> 'a list \<Rightarrow> nat" where
  "count_if P xs = length (filter P xs)"

lemma count_if_Nil [simp]: "count_if P [] = 0"
  and count_if_snoc [simp]: "count_if P (xs @ [x]) = count_if P xs + (if P x then 1 else 0)"
  by (simp_all add: count_if_def)

lemma count_if_update:
  assumes "i < length xs"
  shows "count_if P (xs[i := y]) + (if P (xs ! i) then 1 else 0) = count_if P xs + (if P y then 1 else 0)"
  using assms
proof (induction xs arbitrary: i)
  case (Cons x xs)
  show ?case
  proof (cases i)
    case (Suc j)
    then have "count_if P (xs[j := y]) + (if P (xs ! j) then 1 else 0) = count_if P xs + (if P y then 1 else 0)"
      using Cons.IH [of j] Cons.prems by simp
    then show ?thesis using Suc by (simp add: count_if_def)
  qed (simp add: count_if_def)
qed simp

lemma count_if_on_nth_same: "i < length xs \<Longrightarrow> P (f (xs ! i)) = P (xs ! i) \<Longrightarrow> count_if P (on_nth i f xs) = count_if P xs"
  using count_if_update [of i xs P "f (xs ! i)"] by (simp add: on_nth_def split: if_splits)

lemma count_if_on_nth_add: "i < length xs \<Longrightarrow> \<not> P (xs ! i) \<Longrightarrow> P (f (xs ! i)) \<Longrightarrow> count_if P (on_nth i f xs) = count_if P xs + 1"
  using count_if_update [of i xs P "f (xs ! i)"] by (simp add: on_nth_def)

lemma count_if_on_nth_sub: "i < length xs \<Longrightarrow> P (xs ! i) \<Longrightarrow> \<not> P (f (xs ! i)) \<Longrightarrow> count_if P (on_nth i f xs) + 1 = count_if P xs"
  using count_if_update [of i xs P "f (xs ! i)"] by (simp add: on_nth_def)

lemma count_if_map: "count_if P (map f xs) = count_if (\<lambda>x. P (f x)) xs"
  by (induction xs) (simp_all add: count_if_def)

lemma count_if_cong: "(\<And>x. x \<in> set xs \<Longrightarrow> P x = Q x) \<Longrightarrow> count_if P xs = count_if Q xs"
  unfolding count_if_def by (metis filter_cong)

subsection \<open>The contract of a one-protocol runtime\<close>

text \<open>
  A listener runtime serves allocations of one protocol, reports the state it was last given, and
  deletes without failing. \<open>served\<close> is the port it listens on for an allocation id.
\<close>

definition observed_for :: "allocation \<Rightarrow> observed_state" where
  "observed_for a =
     (case (a_host a, a_target_port a) of
        (Some h, Some p) \<Rightarrow>
          \<lparr>os_effective_target_port = Some p, os_effective_host = Some h, os_runtime_status = Active,
           os_error_kind = None, os_last_error = None\<rparr>
      | _ \<Rightarrow>
          \<lparr>os_effective_target_port = None, os_effective_host = None, os_runtime_status = RejectingNoHost,
           os_error_kind = None, os_last_error = None\<rparr>)"

locale listener_runtime =
  fixes rt :: "'rt runtime_facade"
    and inv :: "'rt \<Rightarrow> bool"
    and served :: "'rt \<Rightarrow> string \<Rightarrow> u16 option"
    and proto :: protocol
  assumes create_law:
    "inv r \<Longrightarrow> a_protocol a = proto \<Longrightarrow> served r (a_id a) = None \<Longrightarrow> rf_create rt a t r = (res, r') \<Longrightarrow>
       inv r' \<and> served r' = (if res = Inr () then (served r)(a_id a \<mapsto> a_port a) else served r) \<and>
       (res = Inr () \<longrightarrow> rf_snapshot rt (a_id a) r' = Inr (Some (observed_for a))) \<and> res \<in> {Inr (), Inl RuntimeCreateFailed}"
    and update_law:
    "inv r \<Longrightarrow> rf_update rt a t r = (res, r') \<Longrightarrow>
       inv r' \<and> served r' = served r \<and> res = (if served r (a_id a) = None then Inl RuntimeUpdateFailed else Inr ()) \<and>
       (res = Inr () \<longrightarrow> rf_snapshot rt (a_id a) r' = Inr (Some (observed_for a)))"
    and delete_law:
    "inv r \<Longrightarrow> rf_delete rt i t r = (res, r') \<Longrightarrow> res = Inr () \<and> inv r' \<and> served r' = (served r)(i := None)"
    and restore_law:
    "inv r \<Longrightarrow> a_protocol a = proto \<Longrightarrow> served r (a_id a) = None \<Longrightarrow> rf_restore rt a t r = (res, r') \<Longrightarrow>
       inv r' \<and> served r' = (if res = Inr () then (served r)(a_id a \<mapsto> a_port a) else served r) \<and>
       (res = Inr () \<longrightarrow> rf_snapshot rt (a_id a) r' = Inr (Some (observed_for a))) \<and> res \<in> {Inr (), Inl RuntimeRestoreFailed}"
    and snapshot_law:
    "inv r \<Longrightarrow> \<exists>obs. rf_snapshot rt i r = Inr obs \<and> (obs = None \<longleftrightarrow> served r i = None)"

lemma observed_for_status: "os_runtime_status (observed_for a) = expected_status a"
  by (simp add: observed_for_def expected_status_def split: option.split)

end
