(* ===== verification/Relayd_Netlink.thy ===== *)
theory Relayd_Netlink
  imports Relayd_Net "HOL-Library.AList" "HOL-Library.List_Lexorder" "HOL-Library.Char_ord"
begin

text \<open>
  The kernel data plane (\<open>src/src/runtime/netlink.rs\<close>, \<open>src/src/runtime/netlink/maps.rs\<close>): projection of the
  allocations to DNAT rules, the runtime that replaces the whole ruleset on every change, and the batch
  that the libnftnl backend builds. A backend is a parameter; hash maps are association lists.
\<close>

record nft_dnat_rule =
  nr_allocation_id :: string
  nr_protocol :: protocol
  nr_in_port :: u16
  nr_out_host :: ip_addr
  nr_out_port :: u16

datatype nft_backend_error = NftApply string

definition nft_error_to_string :: "nft_backend_error \<Rightarrow> string" where
  "nft_error_to_string e = (case e of NftApply msg \<Rightarrow> msg)"

record 'b nft_backend =
  nb_replace_ruleset :: "string \<Rightarrow> string \<Rightarrow> nft_dnat_rule list \<Rightarrow> u32 \<Rightarrow> ('b, nft_backend_error, unit) action"

record netlink_runtime_config =
  nc_table :: string
  nc_chain :: string

definition netlink_runtime_config_new :: "string \<Rightarrow> string \<Rightarrow> netlink_runtime_config" where
  "netlink_runtime_config_new table chain = \<lparr>nc_table = table, nc_chain = chain\<rparr>"

record netlink_state =
  nl_allocations :: "(string \<times> allocation) list"
  nl_stale_error :: "string option"
  nl_initialized :: bool

record 'b netlink_runtime =
  nl_backend :: 'b
  nl_config :: netlink_runtime_config
  nl_state :: netlink_state

definition netlink_state_default :: netlink_state where
  "netlink_state_default = \<lparr>nl_allocations = [], nl_stale_error = None, nl_initialized = False\<rparr>"

definition netlink_runtime_new :: "netlink_runtime_config \<Rightarrow> 'b \<Rightarrow> 'b netlink_runtime" where
  "netlink_runtime_new config backend = \<lparr>nl_backend = backend, nl_config = config, nl_state = netlink_state_default\<rparr>"

subsection \<open>From allocations to rules\<close>

definition bound_target :: "allocation \<Rightarrow> (ip_addr \<times> u16) option" where
  "bound_target a =
     (case a_host a of
        None \<Rightarrow> None
      | Some host \<Rightarrow> (case ip_addr_from_str host of
            None \<Rightarrow> None
          | Some ip \<Rightarrow> (case a_target_port a of None \<Rightarrow> None | Some port \<Rightarrow> Some (ip, port))))"

fun protocols_for :: "protocol \<Rightarrow> protocol list" where
  "protocols_for Tcp = [Tcp]"
| "protocols_for Udp = [Udp]"
| "protocols_for Both = [Tcp, Udp]"

definition rules_for_allocation :: "allocation \<Rightarrow> nft_dnat_rule list" where
  "rules_for_allocation a =
     (case bound_target a of
        None \<Rightarrow> []
      | Some (out_host, out_port) \<Rightarrow>
          map (\<lambda>protocol. \<lparr>nr_allocation_id = a_id a, nr_protocol = protocol, nr_in_port = a_port a,
                 nr_out_host = out_host, nr_out_port = out_port\<rparr>) (protocols_for (a_protocol a)))"

definition rules_for_allocations :: "(string \<times> allocation) list \<Rightarrow> nft_dnat_rule list" where
  "rules_for_allocations allocs =
     concat (map rules_for_allocation
       (sort_key a_id (filter (\<lambda>a. a_host a \<noteq> None \<and> a_target_port a \<noteq> None) (map snd allocs))))"

text \<open>
  A candidate change is projected by applying it, computing the rules, and taking it back.
\<close>

definition project_upsert :: "allocation \<Rightarrow> netlink_state \<Rightarrow> nft_dnat_rule list \<times> netlink_state" where
  "project_upsert a st =
     (let previous = map_of (nl_allocations st) (a_id a);
          applied = AList.update (a_id a) a (nl_allocations st);
          rules = rules_for_allocations applied;
          back = (case previous of Some prev \<Rightarrow> AList.update (a_id a) prev applied | None \<Rightarrow> AList.delete (a_id a) applied)
      in (rules, st\<lparr>nl_allocations := back\<rparr>))"

definition project_delete :: "string \<Rightarrow> netlink_state \<Rightarrow> nft_dnat_rule list \<times> netlink_state" where
  "project_delete i st =
     (let removed = map_of (nl_allocations st) i;
          applied = AList.delete i (nl_allocations st);
          rules = rules_for_allocations applied;
          back = (case removed of Some a \<Rightarrow> AList.update i a applied | None \<Rightarrow> applied)
      in (rules, st\<lparr>nl_allocations := back\<rparr>))"

subsection \<open>The runtime\<close>

definition mark_fresh :: "netlink_state \<Rightarrow> netlink_state" where
  "mark_fresh st = st\<lparr>nl_stale_error := None, nl_initialized := True\<rparr>"

definition mark_stale :: "nft_backend_error \<Rightarrow> netlink_state \<Rightarrow> runtime_error \<times> netlink_state" where
  "mark_stale e st = (RuntimeApplyFailed, st\<lparr>nl_stale_error := Some (nft_error_to_string e)\<rparr>)"

definition apply_rules :: "'b nft_backend \<Rightarrow> nft_dnat_rule list \<Rightarrow> u32 \<Rightarrow> ('b netlink_runtime, nft_backend_error, unit) action" where
  "apply_rules nb rules timeout_ms r =
     (case nb_replace_ruleset nb (nc_table (nl_config r)) (nc_chain (nl_config r)) rules timeout_ms (nl_backend r) of
        (res, b) \<Rightarrow> (res, r\<lparr>nl_backend := b\<rparr>))"

text \<open>The end of every mutation: the state is marked fresh or stale according to the backend's answer.\<close>

definition conclude :: "nft_backend_error + unit \<Rightarrow> 'b netlink_runtime \<Rightarrow> (runtime_error + unit) \<times> 'b netlink_runtime" where
  "conclude result r =
     (case result of
        Inr _ \<Rightarrow> (Ok (), r\<lparr>nl_state := mark_fresh (nl_state r)\<rparr>)
      | Inl e \<Rightarrow> (case mark_stale e (nl_state r) of (err, st) \<Rightarrow> (Err err, r\<lparr>nl_state := st\<rparr>)))"

definition store_allocation :: "allocation \<Rightarrow> 'b netlink_runtime \<Rightarrow> 'b netlink_runtime" where
  "store_allocation a r =
     r\<lparr>nl_state := (nl_state r)\<lparr>nl_allocations := AList.update (a_id a) a (nl_allocations (nl_state r))\<rparr>\<rparr>"

definition remove_allocation :: "string \<Rightarrow> 'b netlink_runtime \<Rightarrow> 'b netlink_runtime" where
  "remove_allocation i r =
     r\<lparr>nl_state := (nl_state r)\<lparr>nl_allocations := AList.delete i (nl_allocations (nl_state r))\<rparr>\<rparr>"

definition nl_initialize :: "'b nft_backend \<Rightarrow> u32 \<Rightarrow> ('b netlink_runtime, runtime_error, unit) action" where
  "nl_initialize nb timeout_ms r =
     (case apply_rules nb (rules_for_allocations (nl_allocations (nl_state r))) timeout_ms r of
        (result, r1) \<Rightarrow> conclude result r1)"

definition nl_create :: "'b nft_backend \<Rightarrow> allocation \<Rightarrow> u32 \<Rightarrow> ('b netlink_runtime, runtime_error, unit) action" where
  "nl_create nb a timeout_ms r =
     (case project_upsert a (nl_state r) of (rules, st) \<Rightarrow>
      case apply_rules nb rules timeout_ms (r\<lparr>nl_state := st\<rparr>) of (result, r1) \<Rightarrow>
        conclude result (if result = Inr () then store_allocation a r1 else r1))"

definition nl_update :: "'b nft_backend \<Rightarrow> allocation \<Rightarrow> u32 \<Rightarrow> ('b netlink_runtime, runtime_error, unit) action" where
  "nl_update nb a timeout_ms r =
     (case project_upsert a (nl_state r) of (rules, st) \<Rightarrow>
      case apply_rules nb rules timeout_ms (r\<lparr>nl_state := st\<rparr>) of (result, r1) \<Rightarrow>
        conclude result (store_allocation a r1))"

definition nl_delete :: "'b nft_backend \<Rightarrow> string \<Rightarrow> u32 \<Rightarrow> ('b netlink_runtime, runtime_error, unit) action" where
  "nl_delete nb i timeout_ms r =
     (case project_delete i (nl_state r) of (rules, st) \<Rightarrow>
      case apply_rules nb rules timeout_ms (r\<lparr>nl_state := st\<rparr>) of (result, r1) \<Rightarrow>
        conclude result (if result = Inr () then remove_allocation i r1 else r1))"

definition nl_restore :: "'b nft_backend \<Rightarrow> allocation \<Rightarrow> u32 \<Rightarrow> ('b netlink_runtime, runtime_error, unit) action" where
  "nl_restore nb a timeout_ms r =
     (case project_upsert a (nl_state r) of (rules, st) \<Rightarrow>
      case apply_rules nb rules timeout_ms (r\<lparr>nl_state := st\<rparr>) of (result, r1) \<Rightarrow>
        conclude result (store_allocation a r1))"

definition nl_observed_state_for :: "allocation \<Rightarrow> observed_state" where
  "nl_observed_state_for a =
     (case bound_target a of
        Some (host, port) \<Rightarrow>
          \<lparr>os_effective_target_port = Some port, os_effective_host = Some (ip_to_string host),
           os_runtime_status = Active, os_error_kind = None, os_last_error = None\<rparr>
      | None \<Rightarrow>
          \<lparr>os_effective_target_port = a_target_port a, os_effective_host = a_host a,
           os_runtime_status = RejectingNoHost, os_error_kind = None, os_last_error = None\<rparr>)"

definition nl_snapshot :: "string \<Rightarrow> 'b netlink_runtime \<Rightarrow> runtime_error + observed_state option" where
  "nl_snapshot i r =
     Ok (map_option (\<lambda>a.
       if bound_target a = None then nl_observed_state_for a
       else case nl_stale_error (nl_state r) of
              Some e \<Rightarrow>
                \<lparr>os_effective_target_port = a_target_port a, os_effective_host = a_host a,
                 os_runtime_status = DegradedApplyFailed, os_error_kind = Some ApplyFailed, os_last_error = Some e\<rparr>
            | None \<Rightarrow> nl_observed_state_for a)
       (map_of (nl_allocations (nl_state r)) i))"

definition nl_snapshot_listener_metrics :: "'b netlink_runtime \<Rightarrow> runtime_error + listener_metrics_snapshot list" where
  "nl_snapshot_listener_metrics r = Ok []"

definition netlink_facade :: "'b nft_backend \<Rightarrow> 'b netlink_runtime runtime_facade" where
  "netlink_facade nb =
     \<lparr>rf_initialize = nl_initialize nb, rf_create = nl_create nb, rf_update = nl_update nb, rf_delete = nl_delete nb,
      rf_restore = nl_restore nb, rf_snapshot = nl_snapshot, rf_snapshot_listener_metrics = nl_snapshot_listener_metrics\<rparr>"

subsection \<open>The batch of the libnftnl backend\<close>

text \<open>
  The messages and expressions of a batch, as the calls to nftnl state them. How libnftnl splits the
  elements of a map into messages (\<open>pages\<close>) and how a batch is sent and acknowledged (\<open>send\<close>) are
  parameters: that code is the libraries'.
\<close>

datatype nft_register = Reg1 | Reg2 | Reg3

definition REG_PROTOCOL :: nft_register where "REG_PROTOCOL = Reg1"
definition REG_PORT :: nft_register where "REG_PORT = Reg2"
definition REG_FIB_TYPE :: nft_register where "REG_FIB_TYPE = Reg3"
definition REG_DNAT_ADDR :: nft_register where "REG_DNAT_ADDR = Reg1"
definition REG_DNAT_PORT :: nft_register where "REG_DNAT_PORT = Reg2"

definition NF_IP_PRI_NAT_DST :: i32 where "NF_IP_PRI_NAT_DST = - 100"
definition NFT_FIB_RESULT_ADDRTYPE :: u32 where "NFT_FIB_RESULT_ADDRTYPE = 3"
definition NFT_FIB_F_DADDR :: u32 where "NFT_FIB_F_DADDR = push_bit 1 1"
definition RTN_LOCAL :: u8 where "RTN_LOCAL = 2"

datatype nft_meta = NfProto | L4Proto

record port_map =
  pm_name :: string
  pm_id :: u32
  pm_flags :: "string list"
  pm_data_type :: u32
  pm_data_len :: u32
  pm_elements :: "(u8 list \<times> u8 list) list"

datatype nft_expr =
    LoadMeta nft_meta nft_register
  | CmpRegister nft_register u8
  | LoadPayload string u32 u32 nft_register
  | FibDaddrType nft_register
  | MapLookup port_map nft_register
  | CounterExpr
  | DnatExpr string nft_register "nft_register option"

datatype nft_msg =
    EnsureTable string
  | AddChain string string string string i32 string
  | FlushChain string string
  | AddSet string port_map
  | AddSetElements string u32 "(u8 list \<times> u8 list) list"
  | AddRule string string "nft_expr list"

definition u16_to_be_bytes :: "u16 \<Rightarrow> u8 list" where
  "u16_to_be_bytes p = [ucast (drop_bit 8 p), ucast p]"

fun ip_octets :: "ip_addr \<Rightarrow> u8 list" where
  "ip_octets (V4 a b c d) = [a, b, c, d]"
| "ip_octets (V6 segments) = concat (map u16_to_be_bytes segments)"

fun nfproto_for :: "ip_addr \<Rightarrow> u8" where
  "nfproto_for (V4 _ _ _ _) = 2"
| "nfproto_for (V6 _) = 10"

fun nfproto_family_for :: "ip_addr \<Rightarrow> string" where
  "nfproto_family_for (V4 _ _ _ _) = ''Ipv4''"
| "nfproto_family_for (V6 _) = ''Ipv6''"

text \<open>\<open>Both\<close> is expanded before the projection; the source marks that case unreachable.\<close>

fun l4proto_for :: "protocol \<Rightarrow> u8 option" where
  "l4proto_for Tcp = Some 6"
| "l4proto_for Udp = Some 17"
| "l4proto_for Both = None"

text \<open>
  The attributes that the expressions of this crate set on a libnftnl object, in the order of the calls;
  counter and NAT expressions are the library's own. A message is its header and the attributes of
  its payload.
\<close>

datatype nft_value = NftU32 u32 | NftStr string | NftData "u8 list" | NftReg nft_register | NftMeta nft_meta | NftSym string

definition map_lookup_to_expr :: "port_map \<Rightarrow> nft_register \<Rightarrow> string \<times> (string \<times> nft_value) list" where
  "map_lookup_to_expr m destination =
     (''lookup'', [(''NFTNL_EXPR_LOOKUP_SREG'', NftReg REG_PORT), (''NFTNL_EXPR_LOOKUP_DREG'', NftReg destination),
       (''NFTNL_EXPR_LOOKUP_SET'', NftStr (pm_name m)), (''NFTNL_EXPR_LOOKUP_SET_ID'', NftU32 (pm_id m))])"

fun to_expr :: "nft_expr \<Rightarrow> (string \<times> (string \<times> nft_value) list) option" where
  "to_expr (LoadMeta key register) =
     Some (''meta'', [(''NFTNL_EXPR_META_DREG'', NftReg register), (''NFTNL_EXPR_META_KEY'', NftMeta key)])"
| "to_expr (LoadPayload base offset len register) =
     Some (''payload'', [(''NFTNL_EXPR_PAYLOAD_BASE'', NftSym base), (''NFTNL_EXPR_PAYLOAD_OFFSET'', NftU32 offset),
       (''NFTNL_EXPR_PAYLOAD_LEN'', NftU32 len), (''NFTNL_EXPR_PAYLOAD_DREG'', NftReg register)])"
| "to_expr (CmpRegister register data) =
     Some (''cmp'', [(''NFTNL_EXPR_CMP_SREG'', NftReg register), (''NFTNL_EXPR_CMP_OP'', NftSym ''NFT_CMP_EQ''),
       (''NFTNL_EXPR_CMP_DATA'', NftData [data])])"
| "to_expr (FibDaddrType register) =
     Some (''fib'', [(''NFTNL_EXPR_FIB_DREG'', NftReg register), (''NFTNL_EXPR_FIB_RESULT'', NftU32 NFT_FIB_RESULT_ADDRTYPE),
       (''NFTNL_EXPR_FIB_FLAGS'', NftU32 NFT_FIB_F_DADDR)])"
| "to_expr (MapLookup m destination) = Some (map_lookup_to_expr m destination)"
| "to_expr CounterExpr = None"
| "to_expr (DnatExpr _ _ _) = None"

record netlink_message =
  nm_type :: string
  nm_family :: string
  nm_flags :: "string list"
  nm_seq :: u32
  nm_payload :: "(string \<times> nft_value) list"

definition write_ensure_table :: "string \<Rightarrow> u32 \<Rightarrow> netlink_message" where
  "write_ensure_table name seq =
     \<lparr>nm_type = ''NFT_MSG_NEWTABLE'', nm_family = ''Inet'', nm_flags = [''NLM_F_ACK'', ''NLM_F_CREATE''], nm_seq = seq,
      nm_payload = [(''NFTNL_TABLE_FAMILY'', NftSym ''Inet''), (''NFTNL_TABLE_NAME'', NftStr name), (''NFTNL_TABLE_FLAGS'', NftU32 0)]\<rparr>"

definition write_flush_chain :: "string \<Rightarrow> string \<Rightarrow> u32 \<Rightarrow> netlink_message" where
  "write_flush_chain table chain seq =
     \<lparr>nm_type = ''NFT_MSG_DELRULE'', nm_family = ''Inet'', nm_flags = [''NLM_F_ACK''], nm_seq = seq,
      nm_payload = [(''NFTNL_RULE_FAMILY'', NftSym ''Inet''), (''NFTNL_RULE_TABLE'', NftStr table), (''NFTNL_RULE_CHAIN'', NftStr chain)]\<rparr>"

definition new_port_map :: "u32 \<Rightarrow> u32 \<Rightarrow> u32 \<Rightarrow> port_map" where
  "new_port_map set_id data_type data_len =
     \<lparr>pm_name = ''__relayd%d'', pm_id = set_id, pm_flags = [''NFT_SET_ANONYMOUS'', ''NFT_SET_CONSTANT'', ''NFT_SET_MAP''],
      pm_data_type = data_type, pm_data_len = data_len, pm_elements = []\<rparr>"

definition add_element :: "u16 \<Rightarrow> u8 list \<Rightarrow> port_map \<Rightarrow> port_map" where
  "add_element port data m = m\<lparr>pm_elements := pm_elements m @ [(u16_to_be_bytes port, data)]\<rparr>"

definition add_dnat_rule_exprs :: "nft_dnat_rule \<Rightarrow> port_map \<Rightarrow> port_map \<Rightarrow> nft_expr list" where
  "add_dnat_rule_exprs dnat addresses ports =
     [LoadMeta NfProto REG_PROTOCOL,
      CmpRegister REG_PROTOCOL (nfproto_for (nr_out_host dnat)),
      LoadMeta L4Proto REG_PROTOCOL,
      CmpRegister REG_PROTOCOL (case l4proto_for (nr_protocol dnat) of Some p \<Rightarrow> p | None \<Rightarrow> 0),
      LoadPayload ''NFT_PAYLOAD_TRANSPORT_HEADER'' 2 2 REG_PORT,
      FibDaddrType REG_FIB_TYPE,
      CmpRegister REG_FIB_TYPE RTN_LOCAL,
      MapLookup addresses REG_DNAT_ADDR,
      MapLookup ports REG_DNAT_PORT,
      CounterExpr,
      DnatExpr (nfproto_family_for (nr_out_host dnat)) REG_DNAT_ADDR (Some REG_DNAT_PORT)]"

text \<open>Filling the two maps of a group; a port that was seen is skipped, so the first rule wins.\<close>

fun fill_maps :: "u16 list \<Rightarrow> nft_dnat_rule list \<Rightarrow> port_map \<times> port_map \<Rightarrow> port_map \<times> port_map" where
  "fill_maps seen [] maps = maps"
| "fill_maps seen (entry # rest) (addresses, ports) =
     (if nr_in_port entry \<in> set seen then fill_maps seen rest (addresses, ports)
      else fill_maps (nr_in_port entry # seen) rest
        (add_element (nr_in_port entry) (ip_octets (nr_out_host entry)) addresses,
         add_element (nr_in_port entry) (u16_to_be_bytes (nr_out_port entry)) ports))"

definition group_rules :: "bool \<Rightarrow> protocol \<Rightarrow> nft_dnat_rule list \<Rightarrow> nft_dnat_rule list" where
  "group_rules ipv6 protocol rules = filter (\<lambda>r. is_ipv6 (nr_out_host r) = ipv6 \<and> nr_protocol r = protocol) rules"

definition group_maps :: "bool \<Rightarrow> u32 \<Rightarrow> nft_dnat_rule list \<Rightarrow> port_map \<times> port_map" where
  "group_maps ipv6 set_id entries =
     fill_maps [] entries
       (new_port_map set_id (if ipv6 then 8 else 7) (if ipv6 then 16 else 4), new_port_map (set_id + 1) 13 2)"

fun build_groups :: "((u8 list \<times> u8 list) list \<Rightarrow> (u8 list \<times> u8 list) list list) \<Rightarrow> string \<Rightarrow> string \<Rightarrow>
    nft_dnat_rule list \<Rightarrow> u32 \<Rightarrow> (bool \<times> protocol) list \<Rightarrow> nft_msg list" where
  "build_groups pages table chain rules set_id [] = []"
| "build_groups pages table chain rules set_id ((ipv6, protocol) # rest) =
     (case group_rules ipv6 protocol rules of
        [] \<Rightarrow> build_groups pages table chain rules set_id rest
      | first # others \<Rightarrow>
          (case group_maps ipv6 set_id (first # others) of (addresses, ports) \<Rightarrow>
             concat (map (\<lambda>m. AddSet table m # map (AddSetElements table (pm_id m)) (pages (pm_elements m))) [addresses, ports]) @
             [AddRule table chain (add_dnat_rule_exprs first addresses ports)] @
             build_groups pages table chain rules (set_id + 2) rest))"

definition dispatch_groups :: "(bool \<times> protocol) list" where
  "dispatch_groups = [(False, Tcp), (False, Udp), (True, Tcp), (True, Udp)]"

definition build_batch :: "((u8 list \<times> u8 list) list \<Rightarrow> (u8 list \<times> u8 list) list list) \<Rightarrow> string \<Rightarrow> string \<Rightarrow>
    nft_dnat_rule list \<Rightarrow> nft_msg list" where
  "build_batch pages table chain rules =
     [EnsureTable table, AddChain table chain ''nat'' ''prerouting'' NF_IP_PRI_NAT_DST ''accept'', FlushChain table chain] @
     build_groups pages table chain rules 1 dispatch_groups"

subsection \<open>Sending a batch\<close>

text \<open>
  The netlink socket (libmnl) is a parameter: opening it, setting its timeouts, sending a message,
  receiving a batch of replies, checking a reply, and reading the monotonic clock. The receive loop
  may go on for as long as the socket delivers nothing, so its result is optional.
\<close>

record timeval =
  tv_sec :: i64
  tv_usec :: i64

datatype socket_option = SO_RCVTIMEO | SO_SNDTIMEO

record ('k, 'm, 'reply) mnl_socket =
  mnl_new :: "('k, io_error, unit) action"
  mnl_portid :: "'k \<Rightarrow> u32"
  mnl_setsockopt :: "socket_option \<Rightarrow> timeval \<Rightarrow> ('k, io_error, unit) action"
  mnl_send :: "'m \<Rightarrow> ('k, io_error, nat) action"
  mnl_msg_len :: "'m \<Rightarrow> nat"
  mnl_recv :: "('k, io_error, (io_error + 'reply) list) action"
  mnl_cb_run :: "'reply \<Rightarrow> u32 \<Rightarrow> u32 \<Rightarrow> io_error + unit"
  mnl_now :: "'k \<Rightarrow> instant_ns \<times> 'k"

definition timed_out :: io_error where
  "timed_out = IoError TimedOut ''nftables netlink apply timed out''"

definition timeout_duration :: "u32 \<Rightarrow> duration_ns" where
  "timeout_duration timeout_ms = unat (max timeout_ms 1) * 1000000"

definition apply_deadline :: "('k, 'm, 'reply) mnl_socket \<Rightarrow> u32 \<Rightarrow> 'k \<Rightarrow> instant_ns \<times> 'k" where
  "apply_deadline sock timeout_ms k = (case mnl_now sock k of (now, k') \<Rightarrow> (now + timeout_duration timeout_ms, k'))"

definition remaining_timeout :: "('k, 'm, 'reply) mnl_socket \<Rightarrow> instant_ns \<Rightarrow> ('k, io_error, duration_ns) action" where
  "remaining_timeout sock deadline k =
     (case mnl_now sock k of (now, k') \<Rightarrow> (if now < deadline then Ok (deadline - now) else Err timed_out, k'))"

definition timeout_io_error :: "io_error \<Rightarrow> io_error" where
  "timeout_io_error e = (if io_error_kind e \<in> {WouldBlock, TimedOut} then timed_out else e)"

definition duration_to_timeval :: "duration_ns \<Rightarrow> timeval" where
  "duration_to_timeval d =
     \<lparr>tv_sec = min (2 ^ 63 - 1) (int (d div 1000000000)), tv_usec = int (d mod 1000000000 div 1000)\<rparr>"

definition set_socket_timeout :: "('k, 'm, 'reply) mnl_socket \<Rightarrow> socket_option \<Rightarrow> timeval \<Rightarrow> ('k, io_error, unit) action" where
  "set_socket_timeout sock opt timeout = mnl_setsockopt sock opt timeout"

definition set_socket_timeouts :: "('k, 'm, 'reply) mnl_socket \<Rightarrow> duration_ns \<Rightarrow> ('k, io_error, unit) action" where
  "set_socket_timeouts sock d =
     and_then (set_socket_timeout sock SO_RCVTIMEO (duration_to_timeval d)) (\<lambda>_.
       set_socket_timeout sock SO_SNDTIMEO (duration_to_timeval d))"

definition arm_timeouts :: "('k, 'm, 'reply) mnl_socket \<Rightarrow> instant_ns \<Rightarrow> ('k, io_error, unit) action" where
  "arm_timeouts sock deadline = and_then (remaining_timeout sock deadline) (set_socket_timeouts sock)"

fun send_batch_with_deadline :: "('k, 'm, 'reply) mnl_socket \<Rightarrow> 'm list \<Rightarrow> instant_ns \<Rightarrow> ('k, io_error, unit) action" where
  "send_batch_with_deadline sock [] deadline = return ()"
| "send_batch_with_deadline sock (message # rest) deadline =
     and_then (arm_timeouts sock deadline) (\<lambda>_.
     and_then (mnl_send sock message) (\<lambda>sent.
       if sent < mnl_msg_len sock message then throw (IoError OtherKind ''sendto did not send entire message'')
       else send_batch_with_deadline sock rest deadline))"

text \<open>Each reply of one receive answers the next expected sequence number.\<close>

fun check_replies :: "('k, 'm, 'reply) mnl_socket \<Rightarrow> u32 \<Rightarrow> (io_error + 'reply) list \<Rightarrow> u32 list \<Rightarrow> io_error + u32 list" where
  "check_replies sock portid [] expected = Ok expected"
| "check_replies sock portid (Inl e # rest) expected = Err e"
| "check_replies sock portid (Inr message # rest) expected =
     (case expected of
        [] \<Rightarrow> Err (IoError OtherKind ''received unexpected nftables ACK message'')
      | seq # others \<Rightarrow> question (mnl_cb_run sock message seq portid) (\<lambda>_. check_replies sock portid rest others))"

definition receive_once :: "('k, 'm, 'reply) mnl_socket \<Rightarrow> instant_ns \<Rightarrow> u32 \<Rightarrow> u32 list \<Rightarrow> ('k, io_error, u32 list) action" where
  "receive_once sock deadline portid expected =
     and_then (arm_timeouts sock deadline) (\<lambda>_ k.
       case mnl_recv sock k of
         (Inl e, k') \<Rightarrow> (Err (timeout_io_error e), k')
       | (Inr messages, k') \<Rightarrow> (check_replies sock portid messages expected, k'))"

partial_function (option) receive_acks :: "('k, 'm, 'reply) mnl_socket \<Rightarrow> instant_ns \<Rightarrow> u32 \<Rightarrow> u32 list \<Rightarrow> 'k \<Rightarrow>
    ((io_error + unit) \<times> 'k) option" where
  "receive_acks sock deadline portid expected k =
     (if expected = [] then Some (Ok (), k)
      else case receive_once sock deadline portid expected k of
             (Inl e, k') \<Rightarrow> Some (Err e, k')
           | (Inr rest, k') \<Rightarrow> receive_acks sock deadline portid rest k')"

definition send_and_process :: "('k, 'm, 'reply) mnl_socket \<Rightarrow> 'm list \<Rightarrow> u32 list \<Rightarrow> u32 \<Rightarrow> 'k \<Rightarrow>
    ((io_error + unit) \<times> 'k) option" where
  "send_and_process sock messages sequence_numbers timeout_ms k =
     (case mnl_new sock k of
        (Inl e, k1) \<Rightarrow> Some (Err e, k1)
      | (Inr _, k1) \<Rightarrow>
          (case apply_deadline sock timeout_ms k1 of (deadline, k2) \<Rightarrow>
             case send_batch_with_deadline sock messages deadline k2 of
               (Inl e, k3) \<Rightarrow> Some (Err e, k3)
             | (Inr _, k3) \<Rightarrow> receive_acks sock deadline (mnl_portid sock k2) sequence_numbers k3))"

definition cstring_error :: "string \<Rightarrow> nat \<Rightarrow> nft_backend_error" where
  "cstring_error kind position =
     NftApply (''invalid nftables '' @ kind @ '' name: nul byte found in provided data at position: '' @ show_nat position)"

definition cstring_name :: "string \<Rightarrow> string \<Rightarrow> nft_backend_error + string" where
  "cstring_name kind value =
     (case str_find (CHR 0x00) value of
        Some position \<Rightarrow> Err (cstring_error kind position)
      | None \<Rightarrow> Ok value)"

definition lib_replace_ruleset :: "((u8 list \<times> u8 list) list \<Rightarrow> (u8 list \<times> u8 list) list list) \<Rightarrow>
    (nft_msg list \<Rightarrow> u32 \<Rightarrow> ('k, string, unit) action) \<Rightarrow>
    string \<Rightarrow> string \<Rightarrow> nft_dnat_rule list \<Rightarrow> u32 \<Rightarrow> ('k, nft_backend_error, unit) action" where
  "lib_replace_ruleset pages send table_name chain_name rules timeout_ms k =
     (case cstring_name ''table'' table_name of
        Inl e \<Rightarrow> (Err e, k)
      | Inr table \<Rightarrow>
          (case cstring_name ''chain'' chain_name of
             Inl e \<Rightarrow> (Err e, k)
           | Inr chain \<Rightarrow>
               (case send (build_batch pages table chain rules) timeout_ms k of
                  (res, k') \<Rightarrow> (map_err (\<lambda>e. NftApply (''nftnl ruleset replace failed: '' @ e)) res, k'))))"

definition lib_nftnl_backend :: "((u8 list \<times> u8 list) list \<Rightarrow> (u8 list \<times> u8 list) list list) \<Rightarrow>
    (nft_msg list \<Rightarrow> u32 \<Rightarrow> ('k, string, unit) action) \<Rightarrow> 'k nft_backend" where
  "lib_nftnl_backend pages send = \<lparr>nb_replace_ruleset = lib_replace_ruleset pages send\<rparr>"

text \<open>Without the netlink feature there is no backend, and its stub refuses every ruleset.\<close>

definition netlink_feature_missing :: nft_backend_error where
  "netlink_feature_missing = NftApply ''netlink runtime requires building relayd with the netlink Cargo feature''"

definition lib_nftnl_new :: "bool \<Rightarrow> 'k \<Rightarrow> nft_backend_error + 'k" where
  "lib_nftnl_new netlink_feature k = (if netlink_feature then Ok k else Err netlink_feature_missing)"

definition with_libnftnl :: "bool \<Rightarrow> netlink_runtime_config \<Rightarrow> 'k \<Rightarrow> nft_backend_error + 'k netlink_runtime" where
  "with_libnftnl netlink_feature config k =
     (case lib_nftnl_new netlink_feature k of
        Inl e \<Rightarrow> Err e
      | Inr backend \<Rightarrow> Ok (netlink_runtime_new config backend))"

definition replace_ruleset_unsupported :: "string \<Rightarrow> string \<Rightarrow> nft_dnat_rule list \<Rightarrow> u32 \<Rightarrow> ('k, nft_backend_error, unit) action" where
  "replace_ruleset_unsupported table_name chain_name rules timeout_ms = throw netlink_feature_missing"

section \<open>The runtime keeps the facade's contract\<close>

text \<open>A hash map that holds every allocation under its own id, each id once.\<close>

definition alist_ok :: "(string \<times> allocation) list \<Rightarrow> bool" where
  "alist_ok xs \<longleftrightarrow> distinct (map fst xs) \<and> (\<forall>(k, a) \<in> set xs. a_id a = k)"

definition nl_allocs :: "'b netlink_runtime \<Rightarrow> (string \<times> allocation) list" where
  "nl_allocs r = nl_allocations (nl_state r)"

definition nl_inv :: "'b netlink_runtime \<Rightarrow> bool" where
  "nl_inv r \<longleftrightarrow> alist_ok (nl_allocs r)"

definition nl_served :: "'b netlink_runtime \<Rightarrow> string \<Rightarrow> (protocol \<times> u16) option" where
  "nl_served r i = map_option alloc_key (map_of (nl_allocs r) i)"

lemma alist_okD: "alist_ok xs \<Longrightarrow> map_of xs i = Some a \<Longrightarrow> a_id a = i"
  by (auto simp: alist_ok_def dest: map_of_SomeD)

lemma alist_ok_update: "alist_ok xs \<Longrightarrow> a_id a = i \<Longrightarrow> alist_ok (AList.update i a xs)"
proof -
  assume ok: "alist_ok xs" and id: "a_id a = i"
  have dist: "distinct (map fst (AList.update i a xs))" using ok distinct_update by (auto simp: alist_ok_def)
  have "a_id b = k" if "(k, b) \<in> set (AList.update i a xs)" for k b
  proof -
    have "map_of (AList.update i a xs) k = Some b" using map_of_is_SomeI [OF dist that] .
    then show ?thesis using ok id by (auto simp: update_conv' split: if_splits dest: alist_okD)
  qed
  with dist show ?thesis by (auto simp: alist_ok_def)
qed

lemma alist_ok_delete: "alist_ok xs \<Longrightarrow> alist_ok (AList.delete i xs)"
proof -
  assume ok: "alist_ok xs"
  have "distinct (map fst (AList.delete i xs))" using ok distinct_delete by (auto simp: alist_ok_def)
  moreover have "set (AList.delete i xs) \<subseteq> set xs" by (auto simp: AList.delete_eq)
  ultimately show ?thesis using ok by (auto simp: alist_ok_def)
qed

text \<open>A projection computes the rules of the candidate and leaves the stored allocations as they were.\<close>

lemma project_upsert_spec:
  assumes "project_upsert a st = (rules, st')" and "alist_ok (nl_allocations st)"
  shows "rules = rules_for_allocations (AList.update (a_id a) a (nl_allocations st))"
    and "map_of (nl_allocations st') = map_of (nl_allocations st)" and "alist_ok (nl_allocations st')"
    and "nl_stale_error st' = nl_stale_error st" and "nl_initialized st' = nl_initialized st"
proof -
  have st: "st' = snd (project_upsert a st)" and ru: "rules = fst (project_upsert a st)" using assms(1) by simp_all
  show "rules = rules_for_allocations (AList.update (a_id a) a (nl_allocations st))"
    by (simp add: ru project_upsert_def Let_def)
  show "map_of (nl_allocations st') = map_of (nl_allocations st)" "nl_stale_error st' = nl_stale_error st"
    "nl_initialized st' = nl_initialized st"
    by (auto simp: st project_upsert_def Let_def update_conv' delete_conv' fun_eq_iff split: option.split)
  show "alist_ok (nl_allocations st')"
  proof (cases "map_of (nl_allocations st) (a_id a)")
    case None
    then show ?thesis using assms(2) by (simp add: st project_upsert_def Let_def alist_ok_update alist_ok_delete)
  next
    case (Some prev)
    then have "a_id prev = a_id a" using assms(2) by (rule alist_okD [rotated])
    then show ?thesis using Some assms(2) by (simp add: st project_upsert_def Let_def alist_ok_update)
  qed
qed

lemma project_delete_spec:
  assumes "project_delete i st = (rules, st')" and "alist_ok (nl_allocations st)"
  shows "rules = rules_for_allocations (AList.delete i (nl_allocations st))"
    and "map_of (nl_allocations st') = map_of (nl_allocations st)" and "alist_ok (nl_allocations st')"
    and "nl_stale_error st' = nl_stale_error st" and "nl_initialized st' = nl_initialized st"
proof -
  have st: "st' = snd (project_delete i st)" and ru: "rules = fst (project_delete i st)" using assms(1) by simp_all
  show "rules = rules_for_allocations (AList.delete i (nl_allocations st))"
    by (simp add: ru project_delete_def Let_def)
  show "map_of (nl_allocations st') = map_of (nl_allocations st)" "nl_stale_error st' = nl_stale_error st"
    "nl_initialized st' = nl_initialized st"
    by (auto simp: st project_delete_def Let_def update_conv' delete_conv' fun_eq_iff split: option.split)
  show "alist_ok (nl_allocations st')"
  proof (cases "map_of (nl_allocations st) i")
    case None
    then show ?thesis using assms(2) by (simp add: st project_delete_def Let_def alist_ok_delete)
  next
    case (Some prev)
    then have "a_id prev = i" using assms(2) by (rule alist_okD [rotated])
    then show ?thesis using Some assms(2) by (simp add: st project_delete_def Let_def alist_ok_update alist_ok_delete)
  qed
qed

lemma apply_rules_run:
  assumes "apply_rules nb rules t r = (res, r')"
  shows "nb_replace_ruleset nb (nc_table (nl_config r)) (nc_chain (nl_config r)) rules t (nl_backend r) = (res, nl_backend r')"
    and "nl_state r' = nl_state r" and "nl_config r' = nl_config r"
  using assms by (auto simp: apply_rules_def split: prod.splits)

lemma conclude_run:
  assumes "conclude out r = (res, r')"
  shows "nl_allocs r' = nl_allocs r" and "nl_backend r' = nl_backend r" and "nl_config r' = nl_config r"
    and "res = (case out of Inr _ \<Rightarrow> Inr () | Inl _ \<Rightarrow> Inl RuntimeApplyFailed)"
    and "nl_stale_error (nl_state r') = (case out of Inr _ \<Rightarrow> None | Inl e \<Rightarrow> Some (nft_error_to_string e))"
  using assms by (auto simp: conclude_def mark_fresh_def mark_stale_def nl_allocs_def split: sum.splits)

text \<open>
  Every mutation asks the backend for the rules of a target and then stores some allocations. The
  predicate records one such run; \<open>target\<close> gives the rules asked for and \<open>kept\<close> the map afterwards.
\<close>

definition nl_ran :: "'b nft_backend \<Rightarrow> nft_dnat_rule list \<Rightarrow> u32 \<Rightarrow> (string \<rightharpoonup> allocation) \<Rightarrow> 'b netlink_runtime \<Rightarrow>
    runtime_error + unit \<Rightarrow> 'b netlink_runtime \<Rightarrow> bool" where
  "nl_ran nb rules t kept r res r' \<longleftrightarrow>
     (\<exists>out. nb_replace_ruleset nb (nc_table (nl_config r)) (nc_chain (nl_config r)) rules t (nl_backend r) = (out, nl_backend r') \<and>
        res = (case out of Inr _ \<Rightarrow> Inr () | Inl _ \<Rightarrow> Inl RuntimeApplyFailed) \<and>
        nl_stale_error (nl_state r') = (case out of Inr _ \<Rightarrow> None | Inl e \<Rightarrow> Some (nft_error_to_string e))) \<and>
     nl_config r' = nl_config r \<and> nl_inv r' \<and> map_of (nl_allocs r') = kept"

lemma nl_ranI:
  assumes "apply_rules nb rules t r0 = (out, r1)" and "nl_config r0 = nl_config r" and "nl_backend r0 = nl_backend r"
    and "nl_backend r2 = nl_backend r1" and "nl_config r2 = nl_config r1"
    and "conclude out r2 = (res, r')" and "alist_ok (nl_allocs r2)" and "map_of (nl_allocs r2) = kept"
  shows "nl_ran nb rules t kept r res r'"
  using apply_rules_run [OF assms(1)] conclude_run [OF assms(6)] assms(2-5,7,8)
  by (auto simp: nl_ran_def nl_inv_def)

lemma store_allocation_simps [simp]:
  "nl_allocs (store_allocation a r) = AList.update (a_id a) a (nl_allocs r)"
  "nl_backend (store_allocation a r) = nl_backend r" "nl_config (store_allocation a r) = nl_config r"
  by (simp_all add: store_allocation_def nl_allocs_def)

lemma remove_allocation_simps [simp]:
  "nl_allocs (remove_allocation i r) = AList.delete i (nl_allocs r)"
  "nl_backend (remove_allocation i r) = nl_backend r" "nl_config (remove_allocation i r) = nl_config r"
  by (simp_all add: remove_allocation_def nl_allocs_def)

lemma nl_initialize_ran:
  assumes "nl_initialize nb t r = (res, r')" and "nl_inv r"
  shows "nl_ran nb (rules_for_allocations (nl_allocs r)) t (map_of (nl_allocs r)) r res r'"
proof -
  obtain out r1 where ap: "apply_rules nb (rules_for_allocations (nl_allocs r)) t r = (out, r1)" by fastforce
  have con: "conclude out r1 = (res, r')" using assms(1) ap by (simp add: nl_initialize_def nl_allocs_def)
  show ?thesis using apply_rules_run(2) [OF ap] assms(2)
    by (intro nl_ranI [OF ap _ _ _ _ con]) (auto simp: nl_inv_def nl_allocs_def)
qed

lemma upsert_ran:
  assumes "project_upsert a (nl_state r) = (rules, st)" and "nl_inv r"
    and "apply_rules nb rules t (r\<lparr>nl_state := st\<rparr>) = (out, r1)"
    and "conclude out (if stores then store_allocation a r1 else r1) = (res, r')"
  shows "nl_ran nb (rules_for_allocations (AList.update (a_id a) a (nl_allocs r))) t
      (if stores then (map_of (nl_allocs r))(a_id a \<mapsto> a) else map_of (nl_allocs r)) r res r'"
proof -
  have ok: "alist_ok (nl_allocations (nl_state r))" using assms(2) by (simp add: nl_inv_def nl_allocs_def)
  note p = project_upsert_spec [OF assms(1) ok]
  have "nl_allocs r1 = nl_allocations st" using apply_rules_run(2) [OF assms(3)] by (simp add: nl_allocs_def)
  then show ?thesis using p(2,3) unfolding nl_allocs_def [of r] p(1) [symmetric]
    by (intro nl_ranI [OF assms(3) _ _ _ _ assms(4)]) (auto simp: nl_allocs_def [of r] update_conv' alist_ok_update)
qed

lemma nl_create_ran:
  assumes "nl_create nb a t r = (res, r')" and "nl_inv r"
  shows "nl_ran nb (rules_for_allocations (AList.update (a_id a) a (nl_allocs r))) t
      (if res = Inr () then (map_of (nl_allocs r))(a_id a \<mapsto> a) else map_of (nl_allocs r)) r res r'"
proof -
  obtain rules st where p: "project_upsert a (nl_state r) = (rules, st)" by fastforce
  obtain out r1 where ap: "apply_rules nb rules t (r\<lparr>nl_state := st\<rparr>) = (out, r1)" by fastforce
  have con: "conclude out (if out = Inr () then store_allocation a r1 else r1) = (res, r')"
    using assms(1) p ap by (simp add: nl_create_def)
  then have "res = Inr () \<longleftrightarrow> out = Inr ()" using conclude_run(4) [OF con] by (auto split: sum.splits)
  then show ?thesis using upsert_ran [OF p assms(2) ap con] by simp
qed

lemma nl_update_ran:
  assumes "nl_update nb a t r = (res, r')" and "nl_inv r"
  shows "nl_ran nb (rules_for_allocations (AList.update (a_id a) a (nl_allocs r))) t
      ((map_of (nl_allocs r))(a_id a \<mapsto> a)) r res r'"
proof -
  obtain rules st where p: "project_upsert a (nl_state r) = (rules, st)" by fastforce
  obtain out r1 where ap: "apply_rules nb rules t (r\<lparr>nl_state := st\<rparr>) = (out, r1)" by fastforce
  have con: "conclude out (if True then store_allocation a r1 else r1) = (res, r')"
    using assms(1) p ap by (simp add: nl_update_def)
  show ?thesis using upsert_ran [OF p assms(2) ap con] by simp
qed

lemma nl_restore_ran:
  "nl_restore nb a t r = (res, r') \<Longrightarrow> nl_inv r \<Longrightarrow>
    nl_ran nb (rules_for_allocations (AList.update (a_id a) a (nl_allocs r))) t
      ((map_of (nl_allocs r))(a_id a \<mapsto> a)) r res r'"
  using nl_update_ran [of nb a t r res r'] by (simp add: nl_update_def nl_restore_def)

lemma nl_delete_ran:
  assumes "nl_delete nb i t r = (res, r')" and "nl_inv r"
  shows "nl_ran nb (rules_for_allocations (AList.delete i (nl_allocs r))) t
      (if res = Inr () then (map_of (nl_allocs r))(i := None) else map_of (nl_allocs r)) r res r'"
proof -
  obtain rules st where p: "project_delete i (nl_state r) = (rules, st)" by fastforce
  obtain out r1 where ap: "apply_rules nb rules t (r\<lparr>nl_state := st\<rparr>) = (out, r1)" by fastforce
  have con: "conclude out (if out = Inr () then remove_allocation i r1 else r1) = (res, r')"
    using assms(1) p ap by (simp add: nl_delete_def)
  have res: "res = Inr () \<longleftrightarrow> out = Inr ()" using conclude_run(4) [OF con] by (auto split: sum.splits)
  have ok: "alist_ok (nl_allocations (nl_state r))" using assms(2) by (simp add: nl_inv_def nl_allocs_def)
  note q = project_delete_spec [OF p ok]
  have "nl_allocs r1 = nl_allocations st" using apply_rules_run(2) [OF ap] by (simp add: nl_allocs_def)
  then show ?thesis using q(2,3) res unfolding nl_allocs_def [of r] q(1) [symmetric]
    by (intro nl_ranI [OF ap _ _ _ _ con]) (auto simp: nl_allocs_def [of r] delete_conv' alist_ok_delete)
qed

lemmas nl_ran_rules = nl_initialize_ran nl_create_ran nl_update_ran nl_restore_ran nl_delete_ran

lemma nl_ran_served: "nl_ran nb rules t kept r res r' \<Longrightarrow> nl_inv r' \<and> nl_served r' = (\<lambda>i. map_option alloc_key (kept i))"
  by (auto simp: nl_ran_def nl_served_def fun_eq_iff)

lemma nl_ran_fresh:
  assumes "nl_ran nb rules t kept r (Inr ()) r'" and "kept (a_id a) = Some a" and "host_literal (a_host a)"
  shows "status_is (nl_snapshot (a_id a) r') (expected_status a)"
proof -
  obtain out :: "nft_backend_error + unit" where out: "Inr () = (case out of Inr _ \<Rightarrow> Inr () | Inl _ \<Rightarrow> Inl RuntimeApplyFailed)"
    "nl_stale_error (nl_state r') = (case out of Inr _ \<Rightarrow> None | Inl e \<Rightarrow> Some (nft_error_to_string e))"
    using assms(1) unfolding nl_ran_def by blast
  then have "nl_stale_error (nl_state r') = None" by (cases out) simp_all
  moreover have "map_of (nl_allocations (nl_state r')) (a_id a) = Some a"
    using assms(1,2) by (simp add: nl_ran_def nl_allocs_def)
  moreover note assms(3)
  ultimately show ?thesis
    by (auto simp: nl_snapshot_def status_is_def expected_status_def nl_observed_state_for_def bound_target_def
        host_literal_def split: option.splits)
qed

lemma nl_snapshot_served:
  "\<exists>obs. nl_snapshot i r = Inr obs \<and> (obs = None \<longleftrightarrow> nl_served r i = None)"
  by (auto simp: nl_snapshot_def nl_served_def nl_allocs_def)

lemma netlink_facade_sel [simp]:
  "rf_initialize (netlink_facade nb) = nl_initialize nb" "rf_create (netlink_facade nb) = nl_create nb"
  "rf_update (netlink_facade nb) = nl_update nb" "rf_delete (netlink_facade nb) = nl_delete nb"
  "rf_restore (netlink_facade nb) = nl_restore nb" "rf_snapshot (netlink_facade nb) = nl_snapshot"
  by (simp_all add: netlink_facade_def)

interpretation nl: runtime_contract "netlink_facade nb" nl_inv nl_served for nb
proof (unfold_locales, unfold netlink_facade_sel)
  fix r r' :: "'a netlink_runtime" and t res and a :: allocation and i
  assume iv: "nl_inv r"
  show "nl_inv r' \<and> nl_served r' = nl_served r" if "nl_initialize nb t r = (res, r')"
    using nl_ran_served [OF nl_initialize_ran [OF that iv]] by (simp add: fun_eq_iff nl_served_def)
  show "nl_inv r' \<and> nl_served r' = (if res = Inr () then (nl_served r)(a_id a \<mapsto> alloc_key a) else nl_served r)"
    if "nl_create nb a t r = (res, r')"
    using nl_ran_served [OF nl_create_ran [OF that iv]] by (auto simp: fun_eq_iff nl_served_def split: if_splits)
  show "nl_inv r' \<and> nl_served r' = nl_served r"
    if "nl_served r (a_id a) = Some (alloc_key a)" "nl_update nb a t r = (res, r')"
    using nl_ran_served [OF nl_update_ran [OF that(2) iv]] that(1) by (auto simp: fun_eq_iff nl_served_def split: if_splits)
  show "nl_inv r' \<and> nl_served r' = (if res = Inr () then (nl_served r)(i := None) else nl_served r)"
    if "nl_delete nb i t r = (res, r')"
    using nl_ran_served [OF nl_delete_ran [OF that iv]] by (auto simp: fun_eq_iff nl_served_def split: if_splits)
  show "nl_inv r' \<and> (nl_served r' = (nl_served r)(a_id a \<mapsto> alloc_key a) \<or> res \<noteq> Inr () \<and> nl_served r' = nl_served r)"
    if "nl_restore nb a t r = (res, r')"
    using nl_ran_served [OF nl_restore_ran [OF that iv]] by (auto simp: fun_eq_iff nl_served_def split: if_splits)
  show "status_is (nl_snapshot (a_id a) r') (expected_status a)"
    if "host_literal (a_host a)" "nl_create nb a t r = (Inr (), r')"
    using nl_ran_fresh [OF nl_create_ran [OF that(2) iv, simplified] _ that(1)] by simp
  show "status_is (nl_snapshot (a_id a) r') (expected_status a)"
    if "host_literal (a_host a)" "nl_update nb a t r = (Inr (), r')"
    using nl_ran_fresh [OF nl_update_ran [OF that(2) iv] _ that(1)] by simp
  show "status_is (nl_snapshot (a_id a) r') (expected_status a)"
    if "host_literal (a_host a)" "nl_restore nb a t r = (Inr (), r')"
    using nl_ran_fresh [OF nl_restore_ran [OF that(2) iv] _ that(1)] by simp
  show "\<exists>obs. nl_snapshot i r = Inr obs \<and> (obs = None \<longleftrightarrow> nl_served r i = None)" by (rule nl_snapshot_served)
qed

end
