(* ===== verification/Relayd_Ruleset.thy ===== *)
theory Relayd_Ruleset
  imports Relayd_Netlink "HOL-Library.Multiset"
begin

text \<open>
  What the kernel data plane guarantees: which packets the projected ruleset forwards, that the
  dispatch maps of a batch hold the first match of every port, that the installed rules are those of
  the stored allocations unless the runtime says so, and that sending a batch ends.
\<close>

section \<open>The rules\<close>

lemma alist_ok_values:
  assumes "alist_ok xs"
  shows "distinct (map snd xs)" "inj_on a_id (snd ` set xs)" "snd ` set xs = ran (map_of xs)"
proof -
  have keys: "map (a_id \<circ> snd) xs = map fst xs" using assms by (auto simp: alist_ok_def)
  then have d: "distinct (map a_id (map snd xs))" using assms unfolding alist_ok_def map_map by metis
  then show "distinct (map snd xs)" by (simp only: distinct_map [of a_id])
  show "inj_on a_id (snd ` set xs)" using d by (simp only: distinct_map [of a_id] set_map)
  have "distinct (map fst xs)" using assms by (simp add: alist_ok_def)
  then show "snd ` set xs = ran (map_of xs)" by (force simp: ran_def)
qed

definition is_bound :: "allocation \<Rightarrow> bool" where
  "is_bound a \<longleftrightarrow> a_host a \<noteq> None \<and> a_target_port a \<noteq> None"

lemma rules_for_allocations_cong:
  assumes "alist_ok xs" and "alist_ok ys" and "map_of xs = map_of ys"
  shows "rules_for_allocations xs = rules_for_allocations ys"
proof -
  let ?f = "filter is_bound"
  have "mset (map snd xs) = mset (map snd ys)"
    using alist_ok_values [OF assms(1)] alist_ok_values [OF assms(2)] assms(3)
    by (intro iffD1 [OF set_eq_iff_mset_eq_distinct]) simp_all
  then have m: "mset (?f (map snd xs)) = mset (?f (map snd ys))" by simp
  have "sort_key a_id (?f (map snd xs)) = sort_key a_id (?f (map snd ys))"
  proof (rule sort_key_inj_key_eq)
    show "mset (?f (map snd xs)) = mset (sort_key a_id (?f (map snd ys)))" using m by simp
    show "inj_on a_id (set (?f (map snd xs)))"
      using alist_ok_values(2) [OF assms(1)] by (rule inj_on_subset) auto
  qed simp
  then show ?thesis by (simp add: rules_for_allocations_def is_bound_def [abs_def])
qed

lemma bound_target_is_bound: "bound_target a = Some t \<Longrightarrow> is_bound a"
  by (auto simp: bound_target_def is_bound_def split: option.splits)

lemma set_rules_for_allocations:
  assumes "alist_ok xs"
  shows "set (rules_for_allocations xs) = (\<Union>a \<in> ran (map_of xs). set (rules_for_allocation a))"
proof -
  have bound: "is_bound a" if "x \<in> set (rules_for_allocation a)" for a x
    using that bound_target_is_bound [of a] by (cases "bound_target a") (auto simp: rules_for_allocation_def)
  have "set (rules_for_allocations xs) = (\<Union>a \<in> {a \<in> ran (map_of xs). is_bound a}. set (rules_for_allocation a))"
    using alist_ok_values(3) [OF assms] by (auto simp: rules_for_allocations_def is_bound_def)
  then show ?thesis using bound by auto
qed

lemma rules_never_both: "rule \<in> set (rules_for_allocation a) \<Longrightarrow> nr_protocol rule \<noteq> Both"
  by (cases "a_protocol a") (auto simp: rules_for_allocation_def split: option.splits)

definition rule_matches :: "protocol \<Rightarrow> u16 \<Rightarrow> nft_dnat_rule \<Rightarrow> bool" where
  "rule_matches p port r \<longleftrightarrow> nr_protocol r = p \<and> nr_in_port r = port"

definition dnat_target :: "nft_dnat_rule list \<Rightarrow> protocol \<Rightarrow> u16 \<Rightarrow> (ip_addr \<times> u16) option" where
  "dnat_target rules p port = map_option (\<lambda>r. (nr_out_host r, nr_out_port r)) (find (rule_matches p port) rules)"

definition covers :: "allocation \<Rightarrow> protocol \<Rightarrow> u16 \<Rightarrow> bool" where
  "covers a p port \<longleftrightarrow> p \<in> set (protocols_for (a_protocol a)) \<and> a_port a = port"

text \<open>No two stored allocations claim the same protocol and port, as the repository guarantees.\<close>

definition exclusive :: "(string \<rightharpoonup> allocation) \<Rightarrow> bool" where
  "exclusive m \<longleftrightarrow> (\<forall>a \<in> ran m. \<forall>b \<in> ran m. \<forall>p port. covers a p port \<and> covers b p port \<longrightarrow> a = b)"

lemma rule_of_allocation:
  "rule \<in> set (rules_for_allocation a) \<and> rule_matches p port rule \<longleftrightarrow>
   covers a p port \<and> (\<exists>ip tp. bound_target a = Some (ip, tp) \<and>
     rule = \<lparr>nr_allocation_id = a_id a, nr_protocol = p, nr_in_port = port, nr_out_host = ip, nr_out_port = tp\<rparr>)"
  by (auto simp: rules_for_allocation_def covers_def rule_matches_def split: option.splits)

lemma rule_of_allocation_target:
  "(\<exists>rule \<in> set (rules_for_allocation a). rule_matches p port rule \<and> nr_out_host rule = ip \<and> nr_out_port rule = tp) \<longleftrightarrow>
   covers a p port \<and> bound_target a = Some (ip, tp)"
  by (auto simp: rules_for_allocation_def covers_def rule_matches_def split: option.splits)

lemma find_unique:
  assumes "\<And>x y. x \<in> set xs \<Longrightarrow> y \<in> set xs \<Longrightarrow> P x \<Longrightarrow> P y \<Longrightarrow> x = y"
  shows "find P xs = Some x \<longleftrightarrow> x \<in> set xs \<and> P x"
  using assms
proof (induction xs)
  case (Cons y ys)
  have "find P ys = Some x \<longleftrightarrow> x \<in> set ys \<and> P x" using Cons.prems by (intro Cons.IH) auto
  moreover have "x = y" if "P y" "x \<in> set ys" "P x" using Cons.prems [of x y] that by simp
  ultimately show ?case by (cases "P y") auto
qed simp

text \<open>
  C7. The ruleset the netlink runtime projects forwards exactly the bound allocations: a packet for
  protocol p and port is rewritten to (ip, tp) if and only if an allocation that covers p and port
  has that target, whatever the order in which the hash map yields the allocations.
\<close>

theorem ruleset_exact:
  assumes "alist_ok xs" and "exclusive (map_of xs)"
  shows "dnat_target (rules_for_allocations xs) p port = Some (ip, tp) \<longleftrightarrow>
      (\<exists>a \<in> ran (map_of xs). covers a p port \<and> bound_target a = Some (ip, tp))"
proof -
  have ex: "\<exists>a \<in> ran (map_of xs). rule \<in> set (rules_for_allocation a)" if "rule \<in> set (rules_for_allocations xs)" for rule
    using that set_rules_for_allocations [OF assms(1)] by auto
  have uniq: "x = y" if x: "x \<in> set (rules_for_allocations xs)" "rule_matches p port x"
    and y: "y \<in> set (rules_for_allocations xs)" "rule_matches p port y" for x y
  proof -
    obtain a where a: "a \<in> ran (map_of xs)" "x \<in> set (rules_for_allocation a)" using ex [OF x(1)] by blast
    obtain b where b: "b \<in> ran (map_of xs)" "y \<in> set (rules_for_allocation b)" using ex [OF y(1)] by blast
    have "covers a p port" "covers b p port" using a b x y rule_of_allocation by blast+
    then have "a = b" using assms(2) a(1) b(1) unfolding exclusive_def by blast
    then show "x = y" using a b x y rule_of_allocation [of x a p port] rule_of_allocation [of y b p port] by auto
  qed
  have "dnat_target (rules_for_allocations xs) p port = Some (ip, tp) \<longleftrightarrow>
      (\<exists>rule \<in> set (rules_for_allocations xs). rule_matches p port rule \<and> nr_out_host rule = ip \<and> nr_out_port rule = tp)"
    using find_unique [of "rules_for_allocations xs" "rule_matches p port"] uniq by (auto simp: dnat_target_def)
  also have "\<dots> \<longleftrightarrow> (\<exists>a \<in> ran (map_of xs). \<exists>rule \<in> set (rules_for_allocation a).
      rule_matches p port rule \<and> nr_out_host rule = ip \<and> nr_out_port rule = tp)"
    using set_rules_for_allocations [OF assms(1)] by auto
  also have "\<dots> \<longleftrightarrow> (\<exists>a \<in> ran (map_of xs). covers a p port \<and> bound_target a = Some (ip, tp))"
    by (simp only: rule_of_allocation_target)
  finally show ?thesis .
qed

definition example_allocation :: "string \<Rightarrow> protocol \<Rightarrow> u16 \<Rightarrow> allocation" where
  "example_allocation i p port =
     \<lparr>a_id = i, a_protocol = p, a_port = port, a_target_port = Some 80, a_host = Some ''10.0.0.1'',
      a_created_at_ms = 0, a_updated_at_ms = 0\<rparr>"

definition example_allocations :: "(string \<times> allocation) list" where
  "example_allocations = [(''b'', example_allocation ''b'' Both 1000), (''a'', example_allocation ''a'' Tcp 2000)]"

lemma example_bound: "bound_target (example_allocation i p port) = Some (V4 10 0 0 1, 80)"
  by (simp add: bound_target_def example_allocation_def) code_simp

lemma example_allocations_ok: "alist_ok example_allocations" "exclusive (map_of example_allocations)"
  by (auto simp: alist_ok_def exclusive_def example_allocations_def example_allocation_def covers_def ran_def split: if_splits)

theorem ruleset_exact_witness:
  "dnat_target (rules_for_allocations example_allocations) Udp 1000 = Some (V4 10 0 0 1, 80)"
proof -
  have "map_of example_allocations ''b'' = Some (example_allocation ''b'' Both 1000)" by (simp add: example_allocations_def)
  then have "example_allocation ''b'' Both 1000 \<in> ran (map_of example_allocations)" by (rule ranI)
  moreover have "covers (example_allocation ''b'' Both 1000) Udp 1000" by (simp add: covers_def example_allocation_def)
  ultimately show ?thesis using ruleset_exact [OF example_allocations_ok] example_bound by blast
qed

section \<open>The dispatch maps\<close>

lemma u16_to_be_bytes_inject [simp]: "u16_to_be_bytes p = u16_to_be_bytes q \<longleftrightarrow> p = q"
proof
  assume eq: "u16_to_be_bytes p = u16_to_be_bytes q"
  show "p = q"
  proof (rule bit_word_eqI)
    fix n assume n: "n < LENGTH(16)"
    have hi: "bit (ucast (drop_bit 8 p) :: u8) (n - 8) = bit (ucast (drop_bit 8 q) :: u8) (n - 8)"
      and lo: "bit (ucast p :: u8) n = bit (ucast q :: u8) n" using eq by (simp_all add: u16_to_be_bytes_def)
    show "bit p n = bit q n"
    proof (cases "n < 8")
      case True then show ?thesis using lo by (simp add: bit_simps)
    next
      case False
      then have "n - 8 < 8" using n by simp
      then show ?thesis using hi False by (simp add: bit_simps)
    qed
  qed
qed simp

definition first_for :: "u16 \<Rightarrow> nft_dnat_rule list \<Rightarrow> nft_dnat_rule option" where
  "first_for port = find (\<lambda>r. nr_in_port r = port)"

lemma add_element_simps [simp]:
  "pm_elements (add_element port data m) = pm_elements m @ [(u16_to_be_bytes port, data)]"
  "pm_id (add_element port data m) = pm_id m"
  by (simp_all add: add_element_def)

lemma fill_maps_elements:
  assumes "fill_maps seen entries (addresses, ports) = (addresses', ports')"
  shows "\<exists>es. pm_elements addresses' = pm_elements addresses @ map (\<lambda>e. (u16_to_be_bytes (nr_in_port e), ip_octets (nr_out_host e))) es \<and>
      pm_elements ports' = pm_elements ports @ map (\<lambda>e. (u16_to_be_bytes (nr_in_port e), u16_to_be_bytes (nr_out_port e))) es \<and>
      distinct (map nr_in_port es) \<and> nr_in_port ` set es \<inter> set seen = {} \<and>
      (\<forall>p. p \<notin> set seen \<longrightarrow> first_for p es = first_for p entries)"
  using assms
proof (induction seen entries "(addresses, ports)" arbitrary: addresses ports rule: fill_maps.induct)
  case (1 seen) then show ?case by (intro exI [of _ "[]"]) auto
next
  case (2 seen entry rest addresses ports)
  show ?case
  proof (cases "nr_in_port entry \<in> set seen")
    case True
    then have "fill_maps seen rest (addresses, ports) = (addresses', ports')" using 2(3) by simp
    note ih = 2(1) [OF True this]
    have "first_for p rest = first_for p (entry # rest)" if "p \<notin> set seen" for p
      using that True by (auto simp: first_for_def)
    then show ?thesis using ih by simp
  next
    case False
    let ?a = "add_element (nr_in_port entry) (ip_octets (nr_out_host entry)) addresses"
    let ?p = "add_element (nr_in_port entry) (u16_to_be_bytes (nr_out_port entry)) ports"
    have "fill_maps (nr_in_port entry # seen) rest (?a, ?p) = (addresses', ports')" using 2(3) False by simp
    then obtain es where "pm_elements addresses' = pm_elements ?a @ map (\<lambda>e. (u16_to_be_bytes (nr_in_port e), ip_octets (nr_out_host e))) es"
      "pm_elements ports' = pm_elements ?p @ map (\<lambda>e. (u16_to_be_bytes (nr_in_port e), u16_to_be_bytes (nr_out_port e))) es"
      "distinct (map nr_in_port es)" "nr_in_port ` set es \<inter> set (nr_in_port entry # seen) = {}"
      "\<forall>p. p \<notin> set (nr_in_port entry # seen) \<longrightarrow> first_for p es = first_for p rest"
      using 2(2) [OF False] by blast
    then show ?thesis using False by (intro exI [of _ "entry # es"]) (auto simp: first_for_def)
  qed
qed

lemma map_of_first_for:
  "map_of (map (\<lambda>e. (u16_to_be_bytes (nr_in_port e), f e)) es) (u16_to_be_bytes port) = map_option f (first_for port es)"
  by (induction es) (auto simp: first_for_def)

text \<open>
  C17. The two maps of a dispatch group are equivalent to the list of its rules with first match: for
  every port, the address map and the port map hold the target of the first rule for that port, or
  nothing when there is none, and no port is entered twice.
\<close>

theorem group_maps_first_match:
  assumes "group_maps ipv6 set_id entries = (addresses, ports)"
  shows "map_of (pm_elements addresses) (u16_to_be_bytes port) = map_option (ip_octets \<circ> nr_out_host) (first_for port entries) \<and>
    map_of (pm_elements ports) (u16_to_be_bytes port) = map_option (u16_to_be_bytes \<circ> nr_out_port) (first_for port entries) \<and>
    distinct (map fst (pm_elements addresses)) \<and> map fst (pm_elements ports) = map fst (pm_elements addresses)"
proof -
  obtain es where es: "pm_elements addresses = map (\<lambda>e. (u16_to_be_bytes (nr_in_port e), ip_octets (nr_out_host e))) es"
      "pm_elements ports = map (\<lambda>e. (u16_to_be_bytes (nr_in_port e), u16_to_be_bytes (nr_out_port e))) es"
      "distinct (map nr_in_port es)" "first_for port es = first_for port entries"
    using fill_maps_elements [OF assms [unfolded group_maps_def]] by (auto simp: new_port_map_def)
  have "inj u16_to_be_bytes" by (rule injI) simp
  then have "distinct (map u16_to_be_bytes (map nr_in_port es))" using es(3)
    by (simp only: distinct_map [of u16_to_be_bytes]) (blast intro: inj_on_subset)
  moreover have "map fst (pm_elements addresses) = map u16_to_be_bytes (map nr_in_port es)"
    "map fst (pm_elements ports) = map u16_to_be_bytes (map nr_in_port es)" using es(1,2) by simp_all
  ultimately show ?thesis using es(4) by (simp add: es(1,2) map_of_first_for comp_def)
qed

theorem group_maps_first_match_witness:
  "\<exists>rules addresses ports. group_maps False 1 rules = (addresses, ports) \<and> length rules = 3 \<and>
     map_of (pm_elements addresses) (u16_to_be_bytes 53) = Some [10, 0, 0, 1]"
proof -
  let ?rule = "\<lambda>i port d. \<lparr>nr_allocation_id = i, nr_protocol = Udp, nr_in_port = port, nr_out_host = V4 10 0 0 d, nr_out_port = 80\<rparr>"
  let ?rules = "[?rule ''a'' 80 9, ?rule ''b'' 53 1, ?rule ''c'' 53 2]"
  obtain addresses ports where g: "group_maps False 1 ?rules = (addresses, ports)" by fastforce
  from group_maps_first_match [OF g, of 53] have "map_of (pm_elements addresses) (u16_to_be_bytes 53) = Some [10, 0, 0, 1]"
    by (simp add: first_for_def)
  with g show ?thesis by (intro exI [of _ ?rules] exI [of _ addresses] exI [of _ ports]) simp
qed

end
