(* ===== verification/Relayd_Tcp.thy ===== *)
theory Relayd_Tcp
  imports Relayd_Net
begin

text \<open>
  The TCP relay of the userspace data plane (\<open>src/src/runtime/tcp.rs\<close>). Listener entries are shared between
  the table of the runtime and the tasks that serve connections, so they live in a store and are named by
  their address; session tasks are a list, and a task that is over stays in it in the phase \<open>Ended\<close>.
  Whether the operating system grants a bind is a parameter (\<open>tw_bind_grants\<close>, indexed by the call), and so is
  the outcome of a connect or a copy, an argument of the step it ends.
\<close>

subsection \<open>State\<close>

record entry_state =
  es_effective_host :: "string option"
  es_effective_target_port :: "u16 option"
  es_runtime_status :: runtime_status
  es_error_kind :: "error_kind option"
  es_last_error :: "string option"

record tcp_runtime_config =
  tc_bind_host :: string
  tc_tcp_splice_enabled :: bool
  tc_force_tcp_copy_fallback :: bool

definition tcp_with_bind_host :: "string \<Rightarrow> tcp_runtime_config" where
  "tcp_with_bind_host host = \<lparr>tc_bind_host = host, tc_tcp_splice_enabled = False, tc_force_tcp_copy_fallback = False\<rparr>"

definition tcp_loopback :: tcp_runtime_config where
  "tcp_loopback = tcp_with_bind_host ''127.0.0.1''"

definition with_tcp_splice_enabled :: "bool \<Rightarrow> tcp_runtime_config \<Rightarrow> tcp_runtime_config" where
  "with_tcp_splice_enabled enabled c = c\<lparr>tc_tcp_splice_enabled := enabled\<rparr>"

definition with_force_tcp_copy_fallback :: "bool \<Rightarrow> tcp_runtime_config \<Rightarrow> tcp_runtime_config" where
  "with_force_tcp_copy_fallback force c = c\<lparr>tc_force_tcp_copy_fallback := force\<rparr>"

text \<open>
  An entry: \<open>te_accepting\<close> is whether its accept task runs, \<open>te_pending\<close> the target the accept task has read for
  a client whose session it has yet to register, \<open>te_sessions\<close> the ids whose shutdown handle is in the table.
\<close>

record tcp_entry =
  te_port :: u16
  te_state :: entry_state
  te_metrics :: listener_metrics
  te_shutdown :: bool
  te_accepting :: bool
  te_pending :: "(string \<times> u16) option"
  te_sessions :: "u64 list"
  te_next_session_id :: u64
  te_tcp_splice_enabled :: bool
  te_force_tcp_copy_fallback :: bool

datatype tcp_phase = Connecting | Splicing | Buffered | Ended

record tcp_task =
  tt_entry :: nat
  tt_session :: u64
  tt_host :: string
  tt_target_port :: u16
  tt_phase :: tcp_phase
  tt_signalled :: bool

record tcp_world =
  tw_config :: tcp_runtime_config
  tw_metrics :: metrics
  tw_entries :: "(string \<times> nat) list"
  tw_heap :: "tcp_entry list"
  tw_tasks :: "tcp_task list"
  tw_bind_grants :: "nat \<Rightarrow> socket_addr \<Rightarrow> bool"
  tw_bind_calls :: nat

definition tcp_runtime_new :: "tcp_runtime_config \<Rightarrow> metrics \<Rightarrow> (nat \<Rightarrow> socket_addr \<Rightarrow> bool) \<Rightarrow> tcp_world" where
  "tcp_runtime_new config m grants =
     \<lparr>tw_config = config, tw_metrics = m, tw_entries = [], tw_heap = [], tw_tasks = [], tw_bind_grants = grants, tw_bind_calls = 0\<rparr>"

definition tcp_count :: "(metrics \<Rightarrow> metrics) \<Rightarrow> tcp_world \<Rightarrow> tcp_world" where
  "tcp_count f w = w\<lparr>tw_metrics := f (tw_metrics w)\<rparr>"

definition on_entry :: "nat \<Rightarrow> (tcp_entry \<Rightarrow> tcp_entry) \<Rightarrow> tcp_world \<Rightarrow> tcp_world" where
  "on_entry e f w = w\<lparr>tw_heap := on_nth e f (tw_heap w)\<rparr>"

definition on_task :: "nat \<Rightarrow> (tcp_task \<Rightarrow> tcp_task) \<Rightarrow> tcp_world \<Rightarrow> tcp_world" where
  "on_task i f w = w\<lparr>tw_tasks := on_nth i f (tw_tasks w)\<rparr>"

subsection \<open>Copying\<close>

record splice_copy_result =
  sc_from_client :: u64
  sc_from_upstream :: u64
  sc_client_error :: "io_error option"
  sc_upstream_error :: "io_error option"

text \<open>
  One poll of the two directions of a splice: a direction that has completed is not polled again, its
  result is kept, and the copy is ready when both have completed.
\<close>

datatype 'a poll = Ready 'a | Pending

definition splice_poll :: "'r poll \<Rightarrow> 'r poll \<Rightarrow> 'r option \<times> 'r option \<Rightarrow> ('r \<times> 'r) poll \<times> ('r option \<times> 'r option)" where
  "splice_poll client_poll upstream_poll results =
     (case results of (client_result, upstream_result) \<Rightarrow>
        let client_result = (if client_result = None then (case client_poll of Ready r \<Rightarrow> Some r | Pending \<Rightarrow> None) else client_result);
            upstream_result = (if upstream_result = None then (case upstream_poll of Ready r \<Rightarrow> Some r | Pending \<Rightarrow> None) else upstream_result)
        in case (client_result, upstream_result) of
             (Some c, Some u) \<Rightarrow> (Ready (c, u), (None, None))
           | (c, u) \<Rightarrow> (Pending, (c, u)))"

fun splice_run :: "('r poll \<times> 'r poll) list \<Rightarrow> 'r option \<times> 'r option \<Rightarrow> ('r \<times> 'r) poll" where
  "splice_run [] results = Pending"
| "splice_run ((c, u) # polls) results =
     (case splice_poll c u results of
        (Ready both, _) \<Rightarrow> Ready both
      | (Pending, results') \<Rightarrow> splice_run polls results')"

definition splice_error_is_clean_close :: "io_error \<Rightarrow> bool" where
  "splice_error_is_clean_close e \<longleftrightarrow> io_error_kind e \<in> {BrokenPipe, ConnectionReset, NotConnected, WriteZero}"

definition record_copy_fallback :: "bool \<Rightarrow> metrics \<Rightarrow> metrics" where
  "record_copy_fallback forced m =
     (let m = m\<lparr>m_tcp_copy_fallback_total := counter_inc (m_tcp_copy_fallback_total m),
                m_tcp_splice_fallback_total := counter_inc (m_tcp_splice_fallback_total m)\<rparr>
      in if forced then m\<lparr>m_tcp_splice_fallback_forced_total := counter_inc (m_tcp_splice_fallback_forced_total m)\<rparr>
         else m\<lparr>m_tcp_splice_fallback_unsupported_total := counter_inc (m_tcp_splice_fallback_unsupported_total m)\<rparr>)"

text \<open>\<open>copy_streams\<close>: the way it starts, and the way a splice that could be prepared ends.\<close>

definition copy_streams :: "tcp_entry \<Rightarrow> metrics \<Rightarrow> tcp_phase \<times> metrics" where
  "copy_streams entry m =
     (if te_force_tcp_copy_fallback entry then (Buffered, record_copy_fallback True m)
      else if \<not> te_tcp_splice_enabled entry then
        (Buffered, m\<lparr>m_tcp_copy_fallback_total := counter_inc (m_tcp_copy_fallback_total m)\<rparr>)
      else (Splicing, m\<lparr>m_tcp_splice_attempt_total := counter_inc (m_tcp_splice_attempt_total m)\<rparr>))"

definition splice_outcome :: "splice_copy_result \<Rightarrow> metrics \<Rightarrow> (io_error + u64 \<times> u64) \<times> metrics" where
  "splice_outcome result m =
     (case find (\<lambda>e. \<not> splice_error_is_clean_close e)
             (List.map_filter (\<lambda>x. x) [sc_client_error result, sc_upstream_error result]) of
        Some e \<Rightarrow> (Err e, m\<lparr>m_tcp_splice_hard_failure_total := counter_inc (m_tcp_splice_hard_failure_total m)\<rparr>)
      | None \<Rightarrow>
          (Ok (sc_from_client result, sc_from_upstream result),
           m\<lparr>m_tcp_splice_success_total := counter_inc (m_tcp_splice_success_total m),
             m_tcp_splice_fast_path_total := counter_inc (m_tcp_splice_fast_path_total m)\<rparr>))"

subsection \<open>Sessions\<close>

text \<open>\<open>ActiveSessionGuard\<close>: taken when the upstream is connected, dropped when the session ends.\<close>

definition active_session_guard_new :: "nat \<Rightarrow> tcp_world \<Rightarrow> tcp_world" where
  "active_session_guard_new e w =
     on_entry e (\<lambda>x. x\<lparr>te_metrics := (te_metrics x)\<lparr>lm_active := lm_active (te_metrics x) + 1\<rparr>\<rparr>)
       (tcp_count (\<lambda>m. m\<lparr>m_tcp_session_create_total := counter_inc (m_tcp_session_create_total m),
                          m_tcp_active_sessions := gauge_inc (m_tcp_active_sessions m)\<rparr>) w)"

definition active_session_guard_drop :: "nat \<Rightarrow> tcp_world \<Rightarrow> tcp_world" where
  "active_session_guard_drop e w =
     tcp_count (\<lambda>m. m\<lparr>m_tcp_active_sessions := gauge_dec (m_tcp_active_sessions m),
                       m_tcp_session_close_total := counter_inc (m_tcp_session_close_total m)\<rparr>)
       (on_entry e (\<lambda>x. x\<lparr>te_metrics := (te_metrics x)\<lparr>lm_active := lm_active (te_metrics x) - 1\<rparr>\<rparr>) w)"

definition set_error :: "io_error \<Rightarrow> tcp_entry \<Rightarrow> tcp_entry" where
  "set_error e x = x\<lparr>te_state := (te_state x)\<lparr>es_error_kind := Some ApplyFailed, es_last_error := Some (io_error_to_string e)\<rparr>\<rparr>"

definition remove_session_handle :: "nat \<Rightarrow> u64 \<Rightarrow> tcp_world \<Rightarrow> tcp_world" where
  "remove_session_handle e sid = on_entry e (\<lambda>x. x\<lparr>te_sessions := filter (\<lambda>s. s \<noteq> sid) (te_sessions x)\<rparr>)"

definition end_task :: "nat \<Rightarrow> tcp_world \<Rightarrow> tcp_world" where
  "end_task i w = on_task i (\<lambda>t. t\<lparr>tt_phase := Ended\<rparr>)
     (remove_session_handle (tt_entry (tw_tasks w ! i)) (tt_session (tw_tasks w ! i)) w)"

text \<open>
  \<open>handle_client\<close>: the accept task reads the target and, when there is one, registers a session. Reading the state and
  locking the session table are two points at which other tasks may run, so they are two steps.
\<close>

definition handle_client :: "nat \<Rightarrow> tcp_world \<Rightarrow> tcp_world" where
  "handle_client e w =
     (let state = te_state (tw_heap w ! e)
      in case (es_effective_host state, es_effective_target_port state) of
           (Some host, Some target_port) \<Rightarrow> on_entry e (\<lambda>x. x\<lparr>te_pending := Some (host, target_port)\<rparr>) w
         | _ \<Rightarrow> tcp_count (\<lambda>m. m\<lparr>m_rejected_no_host_total := counter_inc (m_rejected_no_host_total m)\<rparr>) w)"

definition accept_client :: "nat \<Rightarrow> tcp_world \<Rightarrow> tcp_world" where
  "accept_client e w =
     handle_client e (tcp_count (\<lambda>m. m\<lparr>m_tcp_listener_accept_total := counter_inc (m_tcp_listener_accept_total m)\<rparr>) w)"

text \<open>
  One turn of the loop of \<open>spawn_accept_loop\<close>, by the branch of its \<open>select\<close> that is ready: the shutdown flag has changed (its
  sender lives as long as the entry, which the task holds), a client was accepted, or \<open>accept\<close> failed, which ends the loop.
\<close>

datatype accept_event = ShutdownChanged | ClientAccepted | AcceptFailed

definition leave_accept_loop :: "nat \<Rightarrow> tcp_world \<Rightarrow> tcp_world" where
  "leave_accept_loop e = on_entry e (\<lambda>x. x\<lparr>te_accepting := False\<rparr>)"

definition accept_turn :: "accept_event \<Rightarrow> nat \<Rightarrow> tcp_world \<Rightarrow> tcp_world" where
  "accept_turn event e w =
     (case event of
        ShutdownChanged \<Rightarrow> if te_shutdown (tw_heap w ! e) then leave_accept_loop e w else w
      | ClientAccepted \<Rightarrow> accept_client e w
      | AcceptFailed \<Rightarrow> leave_accept_loop e w)"

definition register_session :: "nat \<Rightarrow> tcp_world \<Rightarrow> tcp_world" where
  "register_session e w =
     (let x = tw_heap w ! e; sid = te_next_session_id x
      in case te_pending x of
           None \<Rightarrow> w
         | Some (host, target_port) \<Rightarrow>
             (on_entry e (\<lambda>x. x\<lparr>te_next_session_id := sid + 1, te_sessions := sid # te_sessions x, te_pending := None\<rparr>) w)
               \<lparr>tw_tasks := tw_tasks w @ [\<lparr>tt_entry = e, tt_session = sid, tt_host = host, tt_target_port = target_port,
                  tt_phase = Connecting, tt_signalled = False\<rparr>]\<rparr>)"

definition upstream_connected :: "nat \<Rightarrow> tcp_world \<Rightarrow> tcp_world" where
  "upstream_connected i w =
     (let e = tt_entry (tw_tasks w ! i);
          w = active_session_guard_new e
                (tcp_count (\<lambda>m. m\<lparr>m_tcp_upstream_connect_total := counter_inc (m_tcp_upstream_connect_total m)\<rparr>) w)
      in case copy_streams (tw_heap w ! e) (tw_metrics w) of
           (phase, m) \<Rightarrow> on_task i (\<lambda>t. t\<lparr>tt_phase := phase\<rparr>) (w\<lparr>tw_metrics := m\<rparr>))"

definition upstream_failed :: "nat \<Rightarrow> io_error \<Rightarrow> tcp_world \<Rightarrow> tcp_world" where
  "upstream_failed i error w =
     end_task i (on_entry (tt_entry (tw_tasks w ! i)) (set_error error)
       (tcp_count (\<lambda>m. m\<lparr>m_tcp_upstream_connect_fail_total := counter_inc (m_tcp_upstream_connect_fail_total m)\<rparr>) w))"

text \<open>The end of \<open>copy_streams\<close> as \<open>handle_client\<close> treats it: bytes or error, then guard and handle go.\<close>

definition copy_finished :: "nat \<Rightarrow> io_error + u64 \<times> u64 \<Rightarrow> tcp_world \<Rightarrow> tcp_world" where
  "copy_finished i result w =
     (let e = tt_entry (tw_tasks w ! i);
          w = (case result of
                 Inr (from_client, from_upstream) \<Rightarrow>
                   on_entry e (\<lambda>x. x\<lparr>te_metrics := (te_metrics x)\<lparr>lm_tx := lm_tx (te_metrics x) + from_client,
                     lm_rx := lm_rx (te_metrics x) + from_upstream\<rparr>\<rparr>) w
               | Inl error \<Rightarrow> on_entry e (set_error error) w)
      in end_task i (active_session_guard_drop e w))"

definition splice_unsupported :: "nat \<Rightarrow> tcp_world \<Rightarrow> tcp_world" where
  "splice_unsupported i w = on_task i (\<lambda>t. t\<lparr>tt_phase := Buffered\<rparr>) (tcp_count (record_copy_fallback False) w)"

definition splice_finished :: "nat \<Rightarrow> splice_copy_result \<Rightarrow> tcp_world \<Rightarrow> tcp_world" where
  "splice_finished i result w =
     (case splice_outcome result (tw_metrics w) of (res, m) \<Rightarrow> copy_finished i res (w\<lparr>tw_metrics := m\<rparr>))"

definition session_cancelled :: "nat \<Rightarrow> tcp_world \<Rightarrow> tcp_world" where
  "session_cancelled i w =
     (if tt_phase (tw_tasks w ! i) \<in> {Splicing, Buffered}
      then end_task i (active_session_guard_drop (tt_entry (tw_tasks w ! i)) w) else end_task i w)"

text \<open>Draining the handles of an entry and sending on them reaches the tasks that wait on them.\<close>

definition close_sessions :: "nat \<Rightarrow> tcp_world \<Rightarrow> tcp_world" where
  "close_sessions e w =
     (let ids = te_sessions (tw_heap w ! e)
      in (on_entry e (\<lambda>x. x\<lparr>te_sessions := []\<rparr>) w)
           \<lparr>tw_tasks := map (\<lambda>t. if tt_entry t = e \<and> tt_session t \<in> set ids then t\<lparr>tt_signalled := True\<rparr> else t) (tw_tasks w)\<rparr>)"

definition stop_entry :: "nat \<Rightarrow> tcp_world \<Rightarrow> tcp_world" where
  "stop_entry e w = close_sessions e (on_entry e (\<lambda>x. x\<lparr>te_shutdown := True, te_accepting := False, te_pending := None\<rparr>) w)"

definition tcp_shutdown_all :: "tcp_world \<Rightarrow> tcp_world" where
  "tcp_shutdown_all w = fold stop_entry (map snd (tw_entries w)) (w\<lparr>tw_entries := []\<rparr>)"

subsection \<open>The facade\<close>

definition entry_state_for :: "allocation \<Rightarrow> entry_state" where
  "entry_state_for a =
     (case (a_host a, a_target_port a) of
        (Some host, Some target_port) \<Rightarrow>
          \<lparr>es_effective_host = Some host, es_effective_target_port = Some target_port, es_runtime_status = Active,
           es_error_kind = None, es_last_error = None\<rparr>
      | _ \<Rightarrow>
          \<lparr>es_effective_host = None, es_effective_target_port = None, es_runtime_status = RejectingNoHost,
           es_error_kind = None, es_last_error = None\<rparr>)"

definition tcp_bind_addr :: "tcp_runtime_config \<Rightarrow> u16 \<Rightarrow> runtime_error + socket_addr" where
  "tcp_bind_addr config port =
     map_ok (\<lambda>host. (host, port)) (ok_or (ip_addr_from_str (tc_bind_host config)) RuntimeCreateFailed)"

definition tcp_bind :: "socket_addr \<Rightarrow> tcp_world \<Rightarrow> bool \<times> tcp_world" where
  "tcp_bind addr w = (tw_bind_grants w (tw_bind_calls w) addr, w\<lparr>tw_bind_calls := tw_bind_calls w + 1\<rparr>)"

definition new_entry :: "tcp_runtime_config \<Rightarrow> allocation \<Rightarrow> tcp_entry" where
  "new_entry config a =
     \<lparr>te_port = a_port a, te_state = entry_state_for a, te_metrics = listener_metrics_default, te_shutdown = False,
      te_accepting = True, te_pending = None, te_sessions = [], te_next_session_id = 0,
      te_tcp_splice_enabled = tc_tcp_splice_enabled config, te_force_tcp_copy_fallback = tc_force_tcp_copy_fallback config\<rparr>"

definition alloc_entry :: "allocation \<Rightarrow> tcp_world \<Rightarrow> nat \<times> tcp_world" where
  "alloc_entry a w = (length (tw_heap w), w\<lparr>tw_heap := tw_heap w @ [new_entry (tw_config w) a]\<rparr>)"

definition bind_entry :: "allocation \<Rightarrow> (tcp_world, runtime_error, nat) action" where
  "bind_entry a w =
     (case tcp_bind_addr (tw_config w) (a_port a) of
        Inl e \<Rightarrow> (Err e, w)
      | Inr addr \<Rightarrow>
          (case tcp_bind addr w of
             (False, w1) \<Rightarrow>
               (Err RuntimeCreateFailed, tcp_count (\<lambda>m. m\<lparr>m_bind_fail_total := counter_inc (m_bind_fail_total m)\<rparr>) w1)
           | (True, w1) \<Rightarrow> (case alloc_entry a w1 of (e, w2) \<Rightarrow> (Ok e, w2))))"

definition publish_entry :: "string \<Rightarrow> nat \<Rightarrow> tcp_world \<Rightarrow> tcp_world" where
  "publish_entry i e w =
     tcp_count (\<lambda>m. m\<lparr>m_runtime_apply_total := counter_inc (m_runtime_apply_total m)\<rparr>)
       (w\<lparr>tw_entries := AList.update i e (tw_entries w)\<rparr>)"

definition tcp_initialize :: "u32 \<Rightarrow> (tcp_world, runtime_error, unit) action" where
  "tcp_initialize timeout_ms = return ()"

definition tcp_create :: "allocation \<Rightarrow> u32 \<Rightarrow> (tcp_world, runtime_error, unit) action" where
  "tcp_create a timeout_ms w =
     (if a_protocol a \<noteq> Tcp then (Ok (), w)
      else case bind_entry a w of
             (Inl e, w1) \<Rightarrow> (Err e, w1)
           | (Inr e, w1) \<Rightarrow> (Ok (), publish_entry (a_id a) e w1))"

definition tcp_update :: "allocation \<Rightarrow> u32 \<Rightarrow> (tcp_world, runtime_error, unit) action" where
  "tcp_update a timeout_ms w =
     (case map_of (tw_entries w) (a_id a) of
        None \<Rightarrow> (Err RuntimeUpdateFailed, w)
      | Some e \<Rightarrow>
          let new_state = entry_state_for a;
              w = (if es_runtime_status new_state = RejectingNoHost
                   then tcp_count (\<lambda>m. m\<lparr>m_rejected_no_host_total := counter_inc (m_rejected_no_host_total m)\<rparr>) w else w);
              w = close_sessions e (on_entry e (\<lambda>x. x\<lparr>te_state := new_state\<rparr>) w)
          in (Ok (), tcp_count (\<lambda>m. m\<lparr>m_runtime_apply_total := counter_inc (m_runtime_apply_total m)\<rparr>) w))"

definition tcp_delete :: "string \<Rightarrow> u32 \<Rightarrow> (tcp_world, runtime_error, unit) action" where
  "tcp_delete i timeout_ms w =
     (case map_of (tw_entries w) i of
        None \<Rightarrow> (Ok (), w)
      | Some e \<Rightarrow> (Ok (), stop_entry e (w\<lparr>tw_entries := AList.delete i (tw_entries w)\<rparr>)))"

definition tcp_restore :: "allocation \<Rightarrow> u32 \<Rightarrow> (tcp_world, runtime_error, unit) action" where
  "tcp_restore a timeout_ms w =
     (if a_protocol a \<noteq> Tcp then (Ok (), w)
      else case tcp_bind_addr (tw_config w) (a_port a) of
             Inl _ \<Rightarrow> (Err RuntimeRestoreFailed, w)
           | Inr addr \<Rightarrow>
               (case tcp_bind addr w of
                  (False, w1) \<Rightarrow>
                    (Err RuntimeRestoreFailed,
                     tcp_count (\<lambda>m. m\<lparr>m_bind_fail_total := counter_inc (m_bind_fail_total m),
                       m_restore_failures_total := counter_inc (m_restore_failures_total m)\<rparr>) w1)
                | (True, w1) \<Rightarrow> (case alloc_entry a w1 of (e, w2) \<Rightarrow> (Ok (), publish_entry (a_id a) e w2))))"

definition observed_of_entry :: "entry_state \<Rightarrow> observed_state" where
  "observed_of_entry s =
     \<lparr>os_effective_target_port = es_effective_target_port s, os_effective_host = es_effective_host s,
      os_runtime_status = es_runtime_status s, os_error_kind = es_error_kind s, os_last_error = es_last_error s\<rparr>"

definition tcp_snapshot :: "string \<Rightarrow> tcp_world \<Rightarrow> runtime_error + observed_state option" where
  "tcp_snapshot i w = Ok (map_option (\<lambda>e. observed_of_entry (te_state (tw_heap w ! e))) (map_of (tw_entries w) i))"

definition tcp_snapshot_listener_metrics :: "tcp_world \<Rightarrow> runtime_error + listener_metrics_snapshot list" where
  "tcp_snapshot_listener_metrics w =
     Ok (map (\<lambda>(_, e). let x = tw_heap w ! e in
           \<lparr>lms_port = te_port x, lms_protocol = Tcp, lms_connections_current = lm_active (te_metrics x),
            lms_rx_bytes_total = lm_rx (te_metrics x), lms_tx_bytes_total = lm_tx (te_metrics x)\<rparr>) (tw_entries w))"

definition tcp_facade :: "tcp_world runtime_facade" where
  "tcp_facade =
     \<lparr>rf_initialize = tcp_initialize, rf_create = tcp_create, rf_update = tcp_update, rf_delete = tcp_delete,
      rf_restore = tcp_restore, rf_snapshot = tcp_snapshot, rf_snapshot_listener_metrics = tcp_snapshot_listener_metrics\<rparr>"

end
