(* ===== verification/Relayd_Tcp_Sessions.thy ===== *)
theory Relayd_Tcp_Sessions
  imports Relayd_Tcp
begin

text \<open>
  The TCP relay as a transition system: accept tasks, session tasks and facade operations interleave. In
  every reachable state the table of shutdown handles is exact, the active-session gauges count the
  sessions that copy, and an entry that left the table is stopped.
\<close>

definition copying :: "tcp_task \<Rightarrow> bool" where
  "copying t \<longleftrightarrow> tt_phase t \<in> {Splicing, Buffered}"

text \<open>
  The steps. Runs in which a listener hands out all \<open>2 ^ 64\<close> session ids are left out: ids would repeat.
\<close>

inductive tcp_step :: "tcp_world \<Rightarrow> tcp_world \<Rightarrow> bool" where
  accept: "e < length (tw_heap w) \<Longrightarrow> te_accepting (tw_heap w ! e) \<Longrightarrow> te_pending (tw_heap w ! e) = None \<Longrightarrow>
    tcp_step w (accept_turn event e w)"
| register: "e < length (tw_heap w) \<Longrightarrow> te_accepting (tw_heap w ! e) \<Longrightarrow> te_pending (tw_heap w ! e) \<noteq> None \<Longrightarrow>
    te_next_session_id (tw_heap w ! e) \<noteq> - 1 \<Longrightarrow> tcp_step w (register_session e w)"
| connected: "i < length (tw_tasks w) \<Longrightarrow> tt_phase (tw_tasks w ! i) = Connecting \<Longrightarrow> tcp_step w (upstream_connected i w)"
| connect_failed: "i < length (tw_tasks w) \<Longrightarrow> tt_phase (tw_tasks w ! i) = Connecting \<Longrightarrow> tcp_step w (upstream_failed i err w)"
| unsupported: "i < length (tw_tasks w) \<Longrightarrow> tt_phase (tw_tasks w ! i) = Splicing \<Longrightarrow> tcp_step w (splice_unsupported i w)"
| spliced: "i < length (tw_tasks w) \<Longrightarrow> tt_phase (tw_tasks w ! i) = Splicing \<Longrightarrow> tcp_step w (splice_finished i result w)"
| copied: "i < length (tw_tasks w) \<Longrightarrow> tt_phase (tw_tasks w ! i) = Buffered \<Longrightarrow> tcp_step w (copy_finished i outcome w)"
| cancelled: "i < length (tw_tasks w) \<Longrightarrow> tt_phase (tw_tasks w ! i) \<noteq> Ended \<Longrightarrow> tt_signalled (tw_tasks w ! i) \<Longrightarrow>
    tcp_step w (session_cancelled i w)"
| create: "map_of (tw_entries w) (a_id a) = None \<Longrightarrow> tcp_step w (snd (tcp_create a t w))"
| restore: "map_of (tw_entries w) (a_id a) = None \<Longrightarrow> tcp_step w (snd (tcp_restore a t w))"
| update: "tcp_step w (snd (tcp_update a t w))"
| delete: "tcp_step w (snd (tcp_delete k t w))"
| shutdown: "tcp_step w (tcp_shutdown_all w)"

subsection \<open>Invariants\<close>

definition task_key :: "tcp_task \<Rightarrow> nat \<times> u64" where
  "task_key t = (tt_entry t, tt_session t)"

definition task_ok :: "tcp_world \<Rightarrow> tcp_task \<Rightarrow> bool" where
  "task_ok w t \<longleftrightarrow> tt_entry t < length (tw_heap w) \<and> tt_session t < te_next_session_id (tw_heap w ! tt_entry t) \<and>
     (tt_session t \<in> set (te_sessions (tw_heap w ! tt_entry t)) \<longleftrightarrow> tt_phase t \<noteq> Ended \<and> \<not> tt_signalled t)"

definition handles_ok :: "tcp_world \<Rightarrow> bool" where
  "handles_ok w \<longleftrightarrow> distinct (map task_key (tw_tasks w)) \<and> (\<forall>i < length (tw_tasks w). task_ok w (tw_tasks w ! i)) \<and>
     (\<forall>e < length (tw_heap w). \<forall>sid \<in> set (te_sessions (tw_heap w ! e)). (e, sid) \<in> set (map task_key (tw_tasks w)))"

definition gauges_ok :: "tcp_world \<Rightarrow> bool" where
  "gauges_ok w \<longleftrightarrow>
     (\<forall>e < length (tw_heap w). lm_active (te_metrics (tw_heap w ! e)) = of_nat (count_if (\<lambda>t. tt_entry t = e \<and> copying t) (tw_tasks w))) \<and>
     m_tcp_active_sessions (tw_metrics w) = of_nat (count_if copying (tw_tasks w)) \<and>
     m_tcp_session_create_total (tw_metrics w) = m_tcp_session_close_total (tw_metrics w) + m_tcp_active_sessions (tw_metrics w)"

definition entry_stopped :: "tcp_entry \<Rightarrow> bool" where
  "entry_stopped x \<longleftrightarrow> \<not> te_accepting x \<and> te_pending x = None \<and> te_sessions x = []"

definition table_ok :: "tcp_world \<Rightarrow> bool" where
  "table_ok w \<longleftrightarrow> distinct (map fst (tw_entries w)) \<and> distinct (map snd (tw_entries w)) \<and>
     snd ` set (tw_entries w) \<subseteq> {..<length (tw_heap w)} \<and>
     (\<forall>e < length (tw_heap w). e \<notin> snd ` set (tw_entries w) \<longrightarrow> entry_stopped (tw_heap w ! e))"

text \<open>What an invariant looks at; an operation that keeps the view keeps the invariant.\<close>

definition handle_view :: "tcp_world \<Rightarrow> (u64 list \<times> u64) list \<times> (nat \<times> u64 \<times> bool \<times> bool) list" where
  "handle_view w = (map (\<lambda>x. (te_sessions x, te_next_session_id x)) (tw_heap w),
     map (\<lambda>t. (tt_entry t, tt_session t, tt_phase t = Ended, tt_signalled t)) (tw_tasks w))"

lemma handle_viewD:
  assumes "handle_view w' = handle_view w"
  shows "length (tw_heap w') = length (tw_heap w)" "length (tw_tasks w') = length (tw_tasks w)"
    "map task_key (tw_tasks w') = map task_key (tw_tasks w)"
    "e < length (tw_heap w) \<Longrightarrow> te_sessions (tw_heap w' ! e) = te_sessions (tw_heap w ! e) \<and>
       te_next_session_id (tw_heap w' ! e) = te_next_session_id (tw_heap w ! e)"
    "i < length (tw_tasks w) \<Longrightarrow> task_ok w (tw_tasks w ! i) \<Longrightarrow> task_ok w' (tw_tasks w' ! i)"
proof -
  have heap: "map (\<lambda>x. (te_sessions x, te_next_session_id x)) (tw_heap w') = map (\<lambda>x. (te_sessions x, te_next_session_id x)) (tw_heap w)"
    and tasks: "map (\<lambda>t. (tt_entry t, tt_session t, tt_phase t = Ended, tt_signalled t)) (tw_tasks w') =
      map (\<lambda>t. (tt_entry t, tt_session t, tt_phase t = Ended, tt_signalled t)) (tw_tasks w)"
    using assms by (simp_all add: handle_view_def)
  show len: "length (tw_heap w') = length (tw_heap w)" "length (tw_tasks w') = length (tw_tasks w)"
    using map_eq_imp_length_eq [OF heap] map_eq_imp_length_eq [OF tasks] by simp_all
  have h: "te_sessions (tw_heap w' ! e) = te_sessions (tw_heap w ! e) \<and>
       te_next_session_id (tw_heap w' ! e) = te_next_session_id (tw_heap w ! e)" if "e < length (tw_heap w)" for e
    using map_eq_nth [OF heap that] by simp
  then show "e < length (tw_heap w) \<Longrightarrow> te_sessions (tw_heap w' ! e) = te_sessions (tw_heap w ! e) \<and>
       te_next_session_id (tw_heap w' ! e) = te_next_session_id (tw_heap w ! e)" .
  have t: "tt_entry (tw_tasks w' ! j) = tt_entry (tw_tasks w ! j) \<and> tt_session (tw_tasks w' ! j) = tt_session (tw_tasks w ! j) \<and>
      (tt_phase (tw_tasks w' ! j) = Ended \<longleftrightarrow> tt_phase (tw_tasks w ! j) = Ended) \<and>
      tt_signalled (tw_tasks w' ! j) = tt_signalled (tw_tasks w ! j)" if "j < length (tw_tasks w)" for j
    using map_eq_nth [OF tasks that] by simp
  then show "map task_key (tw_tasks w') = map task_key (tw_tasks w)"
    using len by (auto simp: list_eq_iff_nth_eq task_key_def)
  show "i < length (tw_tasks w) \<Longrightarrow> task_ok w (tw_tasks w ! i) \<Longrightarrow> task_ok w' (tw_tasks w' ! i)"
    using t [of i] h [of "tt_entry (tw_tasks w ! i)"] len by (simp add: task_ok_def)
qed

lemma handles_ok_view: "handle_view w' = handle_view w \<Longrightarrow> handles_ok w \<Longrightarrow> handles_ok w'"
  using handle_viewD [of w' w] unfolding handles_ok_def by simp

lemma handle_view_on_entry:
  "e < length (tw_heap w) \<Longrightarrow> te_sessions (f (tw_heap w ! e)) = te_sessions (tw_heap w ! e) \<Longrightarrow>
    te_next_session_id (f (tw_heap w ! e)) = te_next_session_id (tw_heap w ! e) \<Longrightarrow> handle_view (on_entry e f w) = handle_view w"
  by (simp add: handle_view_def on_entry_def map_on_nth_same)

lemma handle_view_on_task:
  "i < length (tw_tasks w) \<Longrightarrow> tt_entry (f (tw_tasks w ! i)) = tt_entry (tw_tasks w ! i) \<Longrightarrow>
    tt_session (f (tw_tasks w ! i)) = tt_session (tw_tasks w ! i) \<Longrightarrow>
    (tt_phase (f (tw_tasks w ! i)) = Ended) = (tt_phase (tw_tasks w ! i) = Ended) \<Longrightarrow>
    tt_signalled (f (tw_tasks w ! i)) = tt_signalled (tw_tasks w ! i) \<Longrightarrow> handle_view (on_task i f w) = handle_view w"
  by (simp add: handle_view_def on_task_def map_on_nth_same)

lemma handle_view_frame [simp]:
  "handle_view (tcp_count f w) = handle_view w" "handle_view (w\<lparr>tw_metrics := m\<rparr>) = handle_view w"
  "handle_view (w\<lparr>tw_entries := es\<rparr>) = handle_view w" "handle_view (w\<lparr>tw_bind_calls := n\<rparr>) = handle_view w"
  by (simp_all add: handle_view_def tcp_count_def)

lemma tcp_frame [simp]:
  "tw_heap (tcp_count f w) = tw_heap w" "tw_tasks (tcp_count f w) = tw_tasks w" "tw_entries (tcp_count f w) = tw_entries w"
  "tw_metrics (tcp_count f w) = f (tw_metrics w)"
  "tw_tasks (on_entry e g w) = tw_tasks w" "tw_metrics (on_entry e g w) = tw_metrics w" "tw_entries (on_entry e g w) = tw_entries w"
  "tw_heap (on_entry e g w) = on_nth e g (tw_heap w)"
  "tw_heap (on_task i h w) = tw_heap w" "tw_metrics (on_task i h w) = tw_metrics w" "tw_entries (on_task i h w) = tw_entries w"
  "tw_tasks (on_task i h w) = on_nth i h (tw_tasks w)"
  by (simp_all add: tcp_count_def on_entry_def on_task_def)

subsection \<open>Handles\<close>

lemma handles_okD:
  assumes "handles_ok w" and "i < length (tw_tasks w)"
  shows "tt_entry (tw_tasks w ! i) < length (tw_heap w)" "task_ok w (tw_tasks w ! i)"
    "j < length (tw_tasks w) \<Longrightarrow> tt_entry (tw_tasks w ! j) = tt_entry (tw_tasks w ! i) \<Longrightarrow>
       tt_session (tw_tasks w ! j) = tt_session (tw_tasks w ! i) \<Longrightarrow> j = i"
  using assms nth_eq_iff_index_eq [of "map task_key (tw_tasks w)" i j] by (auto simp: handles_ok_def task_ok_def task_key_def)

lemma end_task_sel:
  "tw_heap (end_task i w) = on_nth (tt_entry (tw_tasks w ! i))
      (\<lambda>x. x\<lparr>te_sessions := filter (\<lambda>s. s \<noteq> tt_session (tw_tasks w ! i)) (te_sessions x)\<rparr>) (tw_heap w)"
  "tw_tasks (end_task i w) = on_nth i (\<lambda>t. t\<lparr>tt_phase := Ended\<rparr>) (tw_tasks w)"
  "tw_metrics (end_task i w) = tw_metrics w" "tw_entries (end_task i w) = tw_entries w"
  by (simp_all add: end_task_def remove_session_handle_def)

lemma handles_ok_end_task:
  assumes ok: "handles_ok w" and i: "i < length (tw_tasks w)"
  shows "handles_ok (end_task i w)"
  unfolding handles_ok_def
proof (intro conjI allI impI)
  have keys: "map task_key (tw_tasks (end_task i w)) = map task_key (tw_tasks w)"
    using i by (simp add: end_task_sel map_on_nth_same task_key_def)
  then show "distinct (map task_key (tw_tasks (end_task i w)))" using ok by (simp add: handles_ok_def)
  show "\<forall>sid \<in> set (te_sessions (tw_heap (end_task i w) ! e)). (e, sid) \<in> set (map task_key (tw_tasks (end_task i w)))"
    if "e < length (tw_heap (end_task i w))" for e
    using that ok unfolding keys handles_ok_def by (auto simp: end_task_sel nth_on_nth split: if_splits)
  show "task_ok (end_task i w) (tw_tasks (end_task i w) ! j)" if "j < length (tw_tasks (end_task i w))" for j
  proof (cases "j = i")
    case True
    with i handles_okD(2) [OF ok i] show ?thesis by (simp add: task_ok_def end_task_sel)
  next
    case False
    have j: "j < length (tw_tasks w)" using that by (simp add: end_task_sel)
    have "\<not> (tt_entry (tw_tasks w ! j) = tt_entry (tw_tasks w ! i) \<and> tt_session (tw_tasks w ! j) = tt_session (tw_tasks w ! i))"
      using handles_okD(3) [OF ok i j] False by blast
    with False handles_okD(2) [OF ok j] show ?thesis by (auto simp: task_ok_def end_task_sel nth_on_nth)
  qed
qed

lemma close_sessions_sel:
  "tw_heap (close_sessions e w) = on_nth e (\<lambda>x. x\<lparr>te_sessions := []\<rparr>) (tw_heap w)"
  "tw_tasks (close_sessions e w) =
     map (\<lambda>t. if tt_entry t = e \<and> tt_session t \<in> set (te_sessions (tw_heap w ! e)) then t\<lparr>tt_signalled := True\<rparr> else t) (tw_tasks w)"
  "tw_metrics (close_sessions e w) = tw_metrics w" "tw_entries (close_sessions e w) = tw_entries w"
  by (simp_all add: close_sessions_def Let_def)

lemma handles_ok_close_sessions:
  assumes ok: "handles_ok w" and e: "e < length (tw_heap w)"
  shows "handles_ok (close_sessions e w)"
  unfolding handles_ok_def
proof (intro conjI allI impI)
  have keys: "map task_key (tw_tasks (close_sessions e w)) = map task_key (tw_tasks w)"
    by (simp add: close_sessions_sel task_key_def)
  then show "distinct (map task_key (tw_tasks (close_sessions e w)))" using ok by (simp add: handles_ok_def)
  show "\<forall>sid \<in> set (te_sessions (tw_heap (close_sessions e w) ! k)). (k, sid) \<in> set (map task_key (tw_tasks (close_sessions e w)))"
    if "k < length (tw_heap (close_sessions e w))" for k
    using that ok unfolding keys handles_ok_def by (auto simp: close_sessions_sel nth_on_nth split: if_splits)
  show "task_ok (close_sessions e w) (tw_tasks (close_sessions e w) ! j)" if "j < length (tw_tasks (close_sessions e w))" for j
    using that e handles_okD(2) [OF ok, of j] by (auto simp: task_ok_def close_sessions_sel nth_on_nth)
qed

lemma register_session_sel:
  assumes "te_pending (tw_heap w ! e) = Some (host, port)"
  defines "sid \<equiv> te_next_session_id (tw_heap w ! e)"
  shows "tw_heap (register_session e w) =
      on_nth e (\<lambda>x. x\<lparr>te_next_session_id := sid + 1, te_sessions := sid # te_sessions x, te_pending := None\<rparr>) (tw_heap w)"
    and "tw_tasks (register_session e w) = tw_tasks w @ [\<lparr>tt_entry = e, tt_session = sid, tt_host = host, tt_target_port = port,
        tt_phase = Connecting, tt_signalled = False\<rparr>]"
    and "tw_metrics (register_session e w) = tw_metrics w" and "tw_entries (register_session e w) = tw_entries w"
  using assms(1) by (simp_all add: register_session_def Let_def sid_def)

lemma handles_ok_register:
  assumes ok: "handles_ok w" and e: "e < length (tw_heap w)" and bound: "te_next_session_id (tw_heap w ! e) \<noteq> - 1"
    and pending: "te_pending (tw_heap w ! e) = Some (host, port)"
  shows "handles_ok (register_session e w)"
proof -
  let ?sid = "te_next_session_id (tw_heap w ! e)"
  let ?w = "register_session e w"
  note sel = register_session_sel [OF pending]
  have fresh: "tt_session t < ?sid" if "t \<in> set (tw_tasks w)" "tt_entry t = e" for t
    using that ok by (auto simp: handles_ok_def task_ok_def in_set_conv_nth)
  then have "(e, ?sid) \<notin> set (map task_key (tw_tasks w))" by (fastforce simp: task_key_def)
  then have "distinct (map task_key (tw_tasks ?w))" using ok by (simp add: sel handles_ok_def task_key_def)
  moreover have "task_ok ?w (tw_tasks ?w ! j)" if "j < length (tw_tasks ?w)" for j
  proof (cases "j < length (tw_tasks w)")
    case True
    then have "task_ok w (tw_tasks w ! j)" "tt_entry (tw_tasks w ! j) = e \<Longrightarrow> tt_session (tw_tasks w ! j) < ?sid"
      using handles_okD(2) [OF ok] fresh by auto
    with True e u64_succ [OF bound] show ?thesis by (auto simp: task_ok_def sel nth_on_nth nth_append)
  next
    case False
    then have "j = length (tw_tasks w)" using that by (simp add: sel)
    then show ?thesis using e u64_succ(2) [OF bound] by (simp add: task_ok_def sel)
  qed
  moreover have "\<forall>k < length (tw_heap ?w). \<forall>sid \<in> set (te_sessions (tw_heap ?w ! k)). (k, sid) \<in> set (map task_key (tw_tasks ?w))"
    using ok by (auto simp: handles_ok_def sel nth_on_nth task_key_def)
  ultimately show ?thesis by (simp add: handles_ok_def)
qed

lemma handles_ok_alloc: "handles_ok w \<Longrightarrow> handles_ok (snd (alloc_entry a w))"
  by (auto simp: handles_ok_def alloc_entry_def task_ok_def nth_append new_entry_def less_Suc_eq)

subsection \<open>Gauges\<close>

definition gauge_view :: "tcp_world \<Rightarrow> u64 list \<times> (nat \<times> bool) list \<times> u64 \<times> u64 \<times> u64" where
  "gauge_view w = (map (\<lambda>x. lm_active (te_metrics x)) (tw_heap w), map (\<lambda>t. (tt_entry t, copying t)) (tw_tasks w),
     m_tcp_active_sessions (tw_metrics w), m_tcp_session_create_total (tw_metrics w), m_tcp_session_close_total (tw_metrics w))"

lemma count_copying:
  "count_if (\<lambda>t. tt_entry t = e \<and> copying t) ts = count_if (\<lambda>(k, c). k = e \<and> c) (map (\<lambda>t. (tt_entry t, copying t)) ts)"
  "count_if copying ts = count_if snd (map (\<lambda>t. (tt_entry t, copying t)) ts)"
  by (simp_all add: count_if_map)

lemma gauges_ok_view: "gauge_view w' = gauge_view w \<Longrightarrow> gauges_ok w \<Longrightarrow> gauges_ok w'"
proof -
  assume v: "gauge_view w' = gauge_view w" and ok: "gauges_ok w"
  have heap: "map (\<lambda>x. lm_active (te_metrics x)) (tw_heap w') = map (\<lambda>x. lm_active (te_metrics x)) (tw_heap w)"
    and tasks: "map (\<lambda>t. (tt_entry t, copying t)) (tw_tasks w') = map (\<lambda>t. (tt_entry t, copying t)) (tw_tasks w)"
    using v by (simp_all add: gauge_view_def)
  have "length (tw_heap w') = length (tw_heap w)" using map_eq_imp_length_eq [OF heap] .
  with v ok map_eq_nth [OF heap] show ?thesis
    unfolding gauges_ok_def count_copying tasks by (simp add: gauge_view_def)
qed

definition entry_active :: "(u64 \<Rightarrow> u64) \<Rightarrow> tcp_entry \<Rightarrow> tcp_entry" where
  "entry_active f x = x\<lparr>te_metrics := (te_metrics x)\<lparr>lm_active := f (lm_active (te_metrics x))\<rparr>\<rparr>"

text \<open>One session starts or stops to copy: every count moves by one together with its gauge.\<close>

lemma gauges_ok_start:
  assumes ok: "gauges_ok w" and i: "i < length (tw_tasks w)" "\<not> copying (tw_tasks w ! i)" "tt_entry (tw_tasks w ! i) = e"
    and tasks: "tw_tasks w' = on_nth i f (tw_tasks w)" "copying (f (tw_tasks w ! i))" "tt_entry (f (tw_tasks w ! i)) = e"
    and heap: "map (\<lambda>x. lm_active (te_metrics x)) (tw_heap w') = on_nth e (\<lambda>n. n + 1) (map (\<lambda>x. lm_active (te_metrics x)) (tw_heap w))"
    and met: "m_tcp_active_sessions (tw_metrics w') = m_tcp_active_sessions (tw_metrics w) + 1"
      "m_tcp_session_create_total (tw_metrics w') = m_tcp_session_create_total (tw_metrics w) + 1"
      "m_tcp_session_close_total (tw_metrics w') = m_tcp_session_close_total (tw_metrics w)"
  shows "gauges_ok w'"
proof -
  have len: "length (tw_heap w') = length (tw_heap w)" using arg_cong [OF heap, of length] by simp
  have active: "lm_active (te_metrics (tw_heap w' ! k)) = lm_active (te_metrics (tw_heap w ! k)) + (if k = e then 1 else 0)"
    if "k < length (tw_heap w)" for k
    using arg_cong [OF heap, of "\<lambda>xs. xs ! k"] that len by (simp add: nth_on_nth split: if_splits)
  have cnt: "count_if (\<lambda>t. tt_entry t = k \<and> copying t) (tw_tasks w') =
      count_if (\<lambda>t. tt_entry t = k \<and> copying t) (tw_tasks w) + (if k = e then 1 else 0)" for k
    using i tasks by (cases "k = e") (simp_all add: count_if_on_nth_add count_if_on_nth_same)
  have all: "count_if copying (tw_tasks w') = count_if copying (tw_tasks w) + 1"
    using i tasks by (simp add: count_if_on_nth_add)
  show ?thesis using ok met len active cnt all by (auto simp: gauges_ok_def)
qed

lemma gauges_ok_stop:
  assumes ok: "gauges_ok w" and i: "i < length (tw_tasks w)" "copying (tw_tasks w ! i)" "tt_entry (tw_tasks w ! i) = e"
    and tasks: "tw_tasks w' = on_nth i f (tw_tasks w)" "\<not> copying (f (tw_tasks w ! i))"
    and heap: "map (\<lambda>x. lm_active (te_metrics x)) (tw_heap w') = on_nth e (\<lambda>n. n - 1) (map (\<lambda>x. lm_active (te_metrics x)) (tw_heap w))"
    and met: "m_tcp_active_sessions (tw_metrics w') = m_tcp_active_sessions (tw_metrics w) - 1"
      "m_tcp_session_create_total (tw_metrics w') = m_tcp_session_create_total (tw_metrics w)"
      "m_tcp_session_close_total (tw_metrics w') = m_tcp_session_close_total (tw_metrics w) + 1"
  shows "gauges_ok w'"
proof -
  have len: "length (tw_heap w') = length (tw_heap w)" using arg_cong [OF heap, of length] by simp
  have active: "lm_active (te_metrics (tw_heap w' ! k)) = lm_active (te_metrics (tw_heap w ! k)) - (if k = e then 1 else 0)"
    if "k < length (tw_heap w)" for k
    using arg_cong [OF heap, of "\<lambda>xs. xs ! k"] that len by (simp add: nth_on_nth split: if_splits)
  have cnt: "count_if (\<lambda>t. tt_entry t = k \<and> copying t) (tw_tasks w') + (if k = e then 1 else 0) =
      count_if (\<lambda>t. tt_entry t = k \<and> copying t) (tw_tasks w)" for k
    using i tasks by (cases "k = e") (simp_all add: count_if_on_nth_sub [simplified] count_if_on_nth_same)
  have all: "count_if copying (tw_tasks w') + 1 = count_if copying (tw_tasks w)"
    using i tasks by (simp add: count_if_on_nth_sub [simplified])
  have "lm_active (te_metrics (tw_heap w' ! k)) = of_nat (count_if (\<lambda>t. tt_entry t = k \<and> copying t) (tw_tasks w'))"
    if k: "k < length (tw_heap w)" for k
    using ok k active [OF k] cnt [of k, symmetric] by (simp add: gauges_ok_def)
  moreover have "m_tcp_active_sessions (tw_metrics w') = of_nat (count_if copying (tw_tasks w'))"
    using ok met(1) all [symmetric] by (simp add: gauges_ok_def)
  moreover have "m_tcp_session_create_total (tw_metrics w') = m_tcp_session_close_total (tw_metrics w') + m_tcp_active_sessions (tw_metrics w')"
    using ok met by (simp add: gauges_ok_def)
  ultimately show ?thesis using len by (simp add: gauges_ok_def)
qed

subsection \<open>Every step keeps the invariants\<close>

definition tcp_inv :: "tcp_world \<Rightarrow> bool" where
  "tcp_inv w \<longleftrightarrow> handles_ok w \<and> gauges_ok w \<and> table_ok w"

lemma table_ok_heap:
  assumes "table_ok w" and "tw_entries w' = tw_entries w" and "length (tw_heap w') = length (tw_heap w)"
    and "\<And>e. e < length (tw_heap w) \<Longrightarrow> entry_stopped (tw_heap w ! e) \<Longrightarrow> entry_stopped (tw_heap w' ! e)"
  shows "table_ok w'"
  using assms by (auto simp: table_ok_def)

lemma entry_stopped_on_nth:
  "e < length xs \<Longrightarrow> entry_stopped (xs ! e) \<Longrightarrow> (entry_stopped (xs ! k) \<Longrightarrow> entry_stopped (f (xs ! k))) \<Longrightarrow> entry_stopped (on_nth k f xs ! e)"
  by (auto simp: nth_on_nth)

lemma gauge_view_frame [simp]:
  "gauge_view (w\<lparr>tw_entries := es\<rparr>) = gauge_view w" "gauge_view (w\<lparr>tw_bind_calls := n\<rparr>) = gauge_view w"
  by (simp_all add: gauge_view_def)

lemma tcp_inv_metrics:
  assumes "tcp_inv w" and "m_tcp_active_sessions m = m_tcp_active_sessions (tw_metrics w)"
    and "m_tcp_session_create_total m = m_tcp_session_create_total (tw_metrics w)"
    and "m_tcp_session_close_total m = m_tcp_session_close_total (tw_metrics w)"
  shows "tcp_inv (w\<lparr>tw_metrics := m\<rparr>)"
proof -
  have "gauge_view (w\<lparr>tw_metrics := m\<rparr>) = gauge_view w" using assms by (simp add: gauge_view_def)
  then show ?thesis
    using assms(1) handles_ok_view [of "w\<lparr>tw_metrics := m\<rparr>" w] gauges_ok_view [of "w\<lparr>tw_metrics := m\<rparr>" w]
      table_ok_heap [of w "w\<lparr>tw_metrics := m\<rparr>"] by (simp add: tcp_inv_def)
qed

lemma tcp_inv_count:
  "tcp_inv w \<Longrightarrow> (\<And>m. m_tcp_active_sessions (f m) = m_tcp_active_sessions m \<and>
     m_tcp_session_create_total (f m) = m_tcp_session_create_total m \<and>
     m_tcp_session_close_total (f m) = m_tcp_session_close_total m) \<Longrightarrow> tcp_inv (tcp_count f w)"
  unfolding tcp_count_def by (rule tcp_inv_metrics) simp_all

text \<open>An entry is changed in fields that no invariant counts, and a stopped entry stays stopped.\<close>

lemma tcp_inv_on_entry:
  assumes "tcp_inv w" and "e < length (tw_heap w)"
    and "te_sessions (f (tw_heap w ! e)) = te_sessions (tw_heap w ! e)"
    and "te_next_session_id (f (tw_heap w ! e)) = te_next_session_id (tw_heap w ! e)"
    and "lm_active (te_metrics (f (tw_heap w ! e))) = lm_active (te_metrics (tw_heap w ! e))"
    and "entry_stopped (tw_heap w ! e) \<Longrightarrow> entry_stopped (f (tw_heap w ! e))"
  shows "tcp_inv (on_entry e f w)"
proof -
  have "handle_view (on_entry e f w) = handle_view w" using assms by (simp add: handle_view_on_entry)
  moreover have "gauge_view (on_entry e f w) = gauge_view w" using assms by (simp add: gauge_view_def map_on_nth_same)
  moreover have "table_ok (on_entry e f w)"
    using assms table_ok_heap [of w "on_entry e f w"] by (simp add: tcp_inv_def entry_stopped_on_nth)
  ultimately show ?thesis using assms(1) handles_ok_view gauges_ok_view by (auto simp: tcp_inv_def)
qed

lemma tcp_inv_accept_client:
  assumes "tcp_inv w" and "e < length (tw_heap w)" and "te_accepting (tw_heap w ! e)"
  shows "tcp_inv (accept_client e w)"
proof -
  let ?w = "tcp_count (\<lambda>m. m\<lparr>m_tcp_listener_accept_total := counter_inc (m_tcp_listener_accept_total m)\<rparr>) w"
  have w: "tcp_inv ?w" using assms(1) by (rule tcp_inv_count) simp
  have "tcp_inv (tcp_count (\<lambda>m. m\<lparr>m_rejected_no_host_total := counter_inc (m_rejected_no_host_total m)\<rparr>) ?w)"
    using w by (rule tcp_inv_count) simp
  moreover have "tcp_inv (on_entry e (\<lambda>x. x\<lparr>te_pending := p\<rparr>) ?w)" for p
    using w assms(2,3) by (intro tcp_inv_on_entry) (simp_all add: entry_stopped_def)
  ultimately show ?thesis by (simp add: accept_client_def handle_client_def Let_def split: option.split)
qed

lemma tcp_inv_accept_turn:
  assumes "tcp_inv w" and "e < length (tw_heap w)" and "te_accepting (tw_heap w ! e)"
  shows "tcp_inv (accept_turn event e w)"
proof -
  have "tcp_inv (leave_accept_loop e w)"
    unfolding leave_accept_loop_def using assms by (intro tcp_inv_on_entry) (simp_all add: entry_stopped_def)
  with assms show ?thesis by (simp add: accept_turn_def tcp_inv_accept_client split: accept_event.split)
qed

lemma tcp_inv_register:
  assumes inv: "tcp_inv w" and e: "e < length (tw_heap w)" "te_accepting (tw_heap w ! e)"
    and pending: "te_pending (tw_heap w ! e) = Some (host, port)" and bound: "te_next_session_id (tw_heap w ! e) \<noteq> - 1"
  shows "tcp_inv (register_session e w)"
proof -
  note sel = register_session_sel [OF pending]
  have "gauges_ok (register_session e w)"
    using inv e by (auto simp: tcp_inv_def gauges_ok_def sel nth_on_nth copying_def)
  moreover have "table_ok (register_session e w)"
    by (rule table_ok_heap [of w]) (use inv e in \<open>auto simp: tcp_inv_def sel nth_on_nth entry_stopped_def split: if_splits\<close>)
  ultimately show ?thesis using inv e(1) bound pending handles_ok_register by (auto simp: tcp_inv_def)
qed

lemma table_ok_end_task: "table_ok w \<Longrightarrow> table_ok (end_task i w)"
  by (rule table_ok_heap) (auto simp: end_task_sel nth_on_nth entry_stopped_def split: if_splits)

lemma tcp_inv_idle_end:
  assumes "tcp_inv w" and "i < length (tw_tasks w)" and "\<not> copying (tw_tasks w ! i)"
  shows "tcp_inv (end_task i w)"
proof -
  have "tt_entry (tw_tasks w ! i) < length (tw_heap w)" using assms handles_okD(1) by (simp add: tcp_inv_def)
  then have "gauge_view (end_task i w) = gauge_view w"
    using assms(2,3) by (simp add: gauge_view_def end_task_sel map_on_nth_same copying_def)
  then show ?thesis using assms handles_ok_end_task table_ok_end_task gauges_ok_view by (auto simp: tcp_inv_def)
qed

lemma tcp_inv_guarded_end:
  assumes inv: "tcp_inv w" and i: "i < length (tw_tasks w)" "copying (tw_tasks w ! i)"
  shows "tcp_inv (end_task i (active_session_guard_drop (tt_entry (tw_tasks w ! i)) w))"
proof -
  let ?e = "tt_entry (tw_tasks w ! i)" and ?w = "active_session_guard_drop (tt_entry (tw_tasks w ! i)) w"
  have e: "?e < length (tw_heap w)" using inv i handles_okD(1) by (simp add: tcp_inv_def)
  have tasks: "tw_tasks ?w = tw_tasks w" by (simp add: active_session_guard_drop_def)
  have "handle_view ?w = handle_view w" using e by (simp add: active_session_guard_drop_def handle_view_on_entry)
  then have h: "handles_ok ?w" using inv handles_ok_view by (auto simp: tcp_inv_def)
  have t: "table_ok ?w"
    by (rule table_ok_heap [of w])
      (use inv e in \<open>auto simp: tcp_inv_def active_session_guard_drop_def nth_on_nth entry_stopped_def split: if_splits\<close>)
  have "gauges_ok (end_task i ?w)"
    by (rule gauges_ok_stop [of w i ?e _ "\<lambda>t. t\<lparr>tt_phase := Ended\<rparr>"])
      (use inv i e in \<open>simp_all add: tcp_inv_def end_task_sel active_session_guard_drop_def copying_def map_on_nth gauge_dec_def
         counter_inc_def counter_add_def, simp_all add: on_nth_def\<close>)
  then show ?thesis using handles_ok_end_task [OF h] table_ok_end_task [OF t] i tasks by (simp add: tcp_inv_def)
qed

lemma tcp_inv_connected:
  assumes inv: "tcp_inv w" and i: "i < length (tw_tasks w)" "tt_phase (tw_tasks w ! i) = Connecting"
  shows "tcp_inv (upstream_connected i w)"
proof -
  let ?e = "tt_entry (tw_tasks w ! i)"
  let ?w = "active_session_guard_new ?e (tcp_count (\<lambda>m. m\<lparr>m_tcp_upstream_connect_total := counter_inc (m_tcp_upstream_connect_total m)\<rparr>) w)"
  have e: "?e < length (tw_heap w)" using inv i handles_okD(1) by (simp add: tcp_inv_def)
  obtain phase m where cs: "copy_streams (tw_heap ?w ! ?e) (tw_metrics ?w) = (phase, m)" by fastforce
  let ?v = "on_task i (\<lambda>t. t\<lparr>tt_phase := phase\<rparr>) (?w\<lparr>tw_metrics := m\<rparr>)"
  have v: "upstream_connected i w = ?v" using cs by (simp add: upstream_connected_def Let_def)
  have phase: "phase \<in> {Splicing, Buffered}" and m: "m_tcp_active_sessions m = m_tcp_active_sessions (tw_metrics w) + 1"
    "m_tcp_session_create_total m = m_tcp_session_create_total (tw_metrics w) + 1"
    "m_tcp_session_close_total m = m_tcp_session_close_total (tw_metrics w)"
    using cs by (auto simp: copy_streams_def record_copy_fallback_def active_session_guard_new_def Let_def gauge_inc_def
        counter_inc_def counter_add_def split: if_splits)
  have "handle_view ?w = handle_view w" using e by (simp add: active_session_guard_new_def handle_view_on_entry)
  moreover have "handle_view ?v = handle_view (?w\<lparr>tw_metrics := m\<rparr>)"
    by (rule handle_view_on_task) (use i phase in \<open>auto simp: active_session_guard_new_def\<close>)
  ultimately have "handles_ok ?v" using inv handles_ok_view by (auto simp: tcp_inv_def)
  moreover have "table_ok ?v"
    by (rule table_ok_heap [of w])
      (use inv e in \<open>auto simp: tcp_inv_def active_session_guard_new_def nth_on_nth entry_stopped_def split: if_splits\<close>)
  moreover have "gauges_ok ?v"
    by (rule gauges_ok_start [of w i ?e _ "\<lambda>t. t\<lparr>tt_phase := phase\<rparr>"])
      (use inv i e phase m in \<open>simp_all add: tcp_inv_def active_session_guard_new_def copying_def map_on_nth,
         simp_all add: on_nth_def\<close>)
  ultimately show ?thesis by (simp add: v tcp_inv_def)
qed

lemma tcp_inv_copy_finished:
  assumes inv: "tcp_inv w" and i: "i < length (tw_tasks w)" "copying (tw_tasks w ! i)"
  shows "tcp_inv (copy_finished i result w)"
proof -
  let ?e = "tt_entry (tw_tasks w ! i)"
  let ?w = "case result of
      Inr (from_client, from_upstream) \<Rightarrow>
        on_entry ?e (\<lambda>x. x\<lparr>te_metrics := (te_metrics x)\<lparr>lm_tx := lm_tx (te_metrics x) + from_client,
          lm_rx := lm_rx (te_metrics x) + from_upstream\<rparr>\<rparr>) w
    | Inl error \<Rightarrow> on_entry ?e (set_error error) w"
  have e: "?e < length (tw_heap w)" using inv i handles_okD(1) by (simp add: tcp_inv_def)
  have "tcp_inv ?w" using inv e
    by (auto intro!: tcp_inv_on_entry simp: set_error_def entry_stopped_def split: sum.split)
  moreover have "tw_tasks ?w = tw_tasks w" by (simp split: sum.split prod.split)
  ultimately show ?thesis using tcp_inv_guarded_end [of ?w i] i by (simp add: copy_finished_def Let_def)
qed

lemma tcp_inv_upstream_failed:
  assumes inv: "tcp_inv w" and i: "i < length (tw_tasks w)" "tt_phase (tw_tasks w ! i) = Connecting"
  shows "tcp_inv (upstream_failed i err w)"
proof -
  let ?v = "tcp_count (\<lambda>m. m\<lparr>m_tcp_upstream_connect_fail_total := counter_inc (m_tcp_upstream_connect_fail_total m)\<rparr>) w"
  have "tcp_inv ?v" using inv by (rule tcp_inv_count) simp
  moreover have "tt_entry (tw_tasks w ! i) < length (tw_heap w)" using inv i handles_okD(1) by (simp add: tcp_inv_def)
  ultimately have "tcp_inv (on_entry (tt_entry (tw_tasks w ! i)) (set_error err) ?v)"
    by (intro tcp_inv_on_entry) (simp_all add: set_error_def entry_stopped_def)
  then show ?thesis unfolding upstream_failed_def by (rule tcp_inv_idle_end) (use i in \<open>simp_all add: copying_def\<close>)
qed

lemma tcp_inv_unsupported:
  assumes inv: "tcp_inv w" and i: "i < length (tw_tasks w)" "tt_phase (tw_tasks w ! i) = Splicing"
  shows "tcp_inv (splice_unsupported i w)"
proof -
  have c: "tcp_inv (tcp_count (record_copy_fallback False) w)" (is "tcp_inv ?w")
    using inv by (rule tcp_inv_count) (simp add: record_copy_fallback_def Let_def)
  have "handle_view (splice_unsupported i w) = handle_view ?w"
    unfolding splice_unsupported_def by (rule handle_view_on_task) (use i in simp_all)
  moreover have "gauge_view (splice_unsupported i w) = gauge_view ?w"
    using i by (simp add: splice_unsupported_def gauge_view_def map_on_nth_same copying_def)
  moreover have "table_ok (splice_unsupported i w)"
    by (rule table_ok_heap [of ?w]) (use c in \<open>simp_all add: tcp_inv_def splice_unsupported_def\<close>)
  ultimately show ?thesis
    using c handles_ok_view [of "splice_unsupported i w" ?w] gauges_ok_view [of "splice_unsupported i w" ?w] by (simp add: tcp_inv_def)
qed

lemma tcp_inv_cancelled:
  "tcp_inv w \<Longrightarrow> i < length (tw_tasks w) \<Longrightarrow> tcp_inv (session_cancelled i w)"
  using tcp_inv_guarded_end tcp_inv_idle_end by (simp add: session_cancelled_def copying_def)

lemma tcp_inv_close_sessions:
  assumes inv: "tcp_inv w" and e: "e < length (tw_heap w)"
  shows "tcp_inv (close_sessions e w)"
proof -
  have "gauge_view (close_sessions e w) = gauge_view w"
    using e by (simp add: gauge_view_def close_sessions_sel map_on_nth_same copying_def)
  moreover have "table_ok (close_sessions e w)"
    by (rule table_ok_heap [of w])
      (use inv e in \<open>auto simp: tcp_inv_def close_sessions_sel nth_on_nth entry_stopped_def split: if_splits\<close>)
  ultimately show ?thesis using inv handles_ok_close_sessions [OF _ e] gauges_ok_view by (auto simp: tcp_inv_def)
qed

subsection \<open>Facade operations\<close>

lemma tcp_inv_stop_entry:
  assumes inv: "tcp_inv w" and e: "e < length (tw_heap w)"
  shows "tcp_inv (stop_entry e w)" "entry_stopped (tw_heap (stop_entry e w) ! e)"
    "tw_entries (stop_entry e w) = tw_entries w" "length (tw_heap (stop_entry e w)) = length (tw_heap w)"
    "k < length (tw_heap w) \<Longrightarrow> entry_stopped (tw_heap w ! k) \<Longrightarrow> entry_stopped (tw_heap (stop_entry e w) ! k)"
proof -
  have "tcp_inv (on_entry e (\<lambda>x. x\<lparr>te_shutdown := True, te_accepting := False, te_pending := None\<rparr>) w)"
    using inv e by (intro tcp_inv_on_entry) (simp_all add: entry_stopped_def)
  then show "tcp_inv (stop_entry e w)" unfolding stop_entry_def by (rule tcp_inv_close_sessions) (use e in simp)
  show "entry_stopped (tw_heap (stop_entry e w) ! e)" using e by (simp add: stop_entry_def close_sessions_sel entry_stopped_def)
  show "tw_entries (stop_entry e w) = tw_entries w" "length (tw_heap (stop_entry e w)) = length (tw_heap w)"
    by (simp_all add: stop_entry_def close_sessions_sel)
  show "k < length (tw_heap w) \<Longrightarrow> entry_stopped (tw_heap w ! k) \<Longrightarrow> entry_stopped (tw_heap (stop_entry e w) ! k)"
    by (auto simp: stop_entry_def close_sessions_sel nth_on_nth entry_stopped_def split: if_splits)
qed

lemma stop_entry_entries: "stop_entry e (w\<lparr>tw_entries := es\<rparr>) = (stop_entry e w)\<lparr>tw_entries := es\<rparr>"
  by (simp add: stop_entry_def close_sessions_def on_entry_def Let_def)

lemma tcp_inv_entries:
  assumes "tcp_inv w" and "distinct (map fst es)" and "distinct (map snd es)" and "snd ` set es \<subseteq> {..<length (tw_heap w)}"
    and "\<And>e. e < length (tw_heap w) \<Longrightarrow> e \<notin> snd ` set es \<Longrightarrow> entry_stopped (tw_heap w ! e)"
  shows "tcp_inv (w\<lparr>tw_entries := es\<rparr>)"
  using assms handles_ok_view [of "w\<lparr>tw_entries := es\<rparr>" w] gauges_ok_view [of "w\<lparr>tw_entries := es\<rparr>" w]
  by (simp add: tcp_inv_def table_ok_def)

lemma tcp_entries_bound:
  assumes "tcp_inv w" and "map_of (tw_entries w) i = Some e" shows "e < length (tw_heap w)"
proof -
  have "(i, e) \<in> set (tw_entries w)" using assms(2) by (rule map_of_SomeD)
  then have "e \<in> snd ` set (tw_entries w)" by force
  then show ?thesis using assms(1) unfolding tcp_inv_def table_ok_def by blast
qed

lemma tcp_inv_delete: "tcp_inv w \<Longrightarrow> tcp_inv (snd (tcp_delete i t w))"
proof (cases "map_of (tw_entries w) i")
  case (Some e)
  assume inv: "tcp_inv w"
  note stop = tcp_inv_stop_entry [OF inv tcp_entries_bound [OF inv Some]]
  have tab: "table_ok w" using inv by (simp add: tcp_inv_def)
  have "snd ` set (AList.delete i (tw_entries w)) = snd ` set (tw_entries w) - {e}"
    using snd_delete [OF _ Some] tab by (simp add: table_ok_def)
  moreover have "distinct (map fst (AList.delete i (tw_entries w)))" "distinct (map snd (AList.delete i (tw_entries w)))"
    using tab by (auto simp: table_ok_def distinct_delete_both)
  ultimately have "tcp_inv ((stop_entry e w)\<lparr>tw_entries := AList.delete i (tw_entries w)\<rparr>)"
    using stop tab by (intro tcp_inv_entries) (auto simp: table_ok_def)
  then show ?thesis using Some by (simp add: tcp_delete_def stop_entry_entries)
qed (simp add: tcp_delete_def)

lemma tcp_inv_update: "tcp_inv w \<Longrightarrow> tcp_inv (snd (tcp_update a t w))"
proof (cases "map_of (tw_entries w) (a_id a)")
  case (Some e)
  assume inv: "tcp_inv w"
  let ?st = "entry_state_for a"
  let ?v = "if es_runtime_status ?st = RejectingNoHost
    then tcp_count (\<lambda>m. m\<lparr>m_rejected_no_host_total := counter_inc (m_rejected_no_host_total m)\<rparr>) w else w"
  have v: "tcp_inv ?v" using inv tcp_inv_count [of w] by simp
  have e: "e < length (tw_heap ?v)" using tcp_entries_bound [OF inv Some] by simp
  have "tcp_inv (on_entry e (\<lambda>x. x\<lparr>te_state := ?st\<rparr>) ?v)"
    using v e by (intro tcp_inv_on_entry) (simp_all add: entry_stopped_def)
  then have "tcp_inv (close_sessions e (on_entry e (\<lambda>x. x\<lparr>te_state := ?st\<rparr>) ?v))" (is "tcp_inv ?u")
    by (rule tcp_inv_close_sessions) (use e in simp)
  then have "tcp_inv (tcp_count (\<lambda>m. m\<lparr>m_runtime_apply_total := counter_inc (m_runtime_apply_total m)\<rparr>) ?u)"
    by (rule tcp_inv_count) simp
  then show ?thesis using Some by (simp add: tcp_update_def Let_def)
qed (simp add: tcp_update_def)

lemma tcp_inv_open:
  assumes inv: "tcp_inv w" and new: "map_of (tw_entries w) i = None" and al: "alloc_entry a w = (e, w1)"
  shows "tcp_inv (publish_entry i e w1)"
proof -
  have w1: "e = length (tw_heap w)" "w1 = w\<lparr>tw_heap := tw_heap w @ [new_entry (tw_config w) a]\<rparr>"
    using al by (simp_all add: alloc_entry_def)
  have key: "i \<notin> set (map fst (tw_entries w))" using new by (simp add: map_of_eq_None_iff)
  then have upd: "set (AList.update i e (tw_entries w)) = insert (i, e) (set (tw_entries w))"
    "map fst (AList.update i e (tw_entries w)) = map fst (tw_entries w) @ [i]"
    "map snd (AList.update i e (tw_entries w)) = map snd (tw_entries w) @ [e]"
    by (simp_all add: update_fresh)
  let ?u = "w1\<lparr>tw_entries := AList.update i e (tw_entries w1)\<rparr>"
  have "handles_ok ?u"
    using inv handles_ok_alloc [of w a] handles_ok_view [of ?u "snd (alloc_entry a w)"] al by (simp add: tcp_inv_def)
  moreover have "gauges_ok ?u"
  proof -
    have none: "count_if (\<lambda>t. tt_entry t = length (tw_heap w) \<and> copying t) (tw_tasks w) = 0"
      using inv by (force simp: count_if_def filter_empty_conv tcp_inv_def handles_ok_def task_ok_def in_set_conv_nth)
    show ?thesis using inv none
      by (auto simp: tcp_inv_def gauges_ok_def w1 nth_append less_Suc_eq new_entry_def listener_metrics_default_def)
  qed
  moreover have "table_ok ?u"
    using inv key upd by (auto simp: tcp_inv_def table_ok_def w1 nth_append less_Suc_eq)
  ultimately have "tcp_inv ?u" by (simp add: tcp_inv_def)
  then show ?thesis unfolding publish_entry_def by (rule tcp_inv_count) simp
qed

lemma tcp_inv_bind: "tcp_inv w \<Longrightarrow> tcp_inv (snd (tcp_bind addr w))"
  using handles_ok_view [of "snd (tcp_bind addr w)" w] gauges_ok_view [of "snd (tcp_bind addr w)" w]
    table_ok_heap [of w "snd (tcp_bind addr w)"] by (simp add: tcp_inv_def tcp_bind_def)

lemma tcp_inv_create:
  assumes inv: "tcp_inv w" and new: "map_of (tw_entries w) (a_id a) = None"
  shows "tcp_inv (snd (tcp_create a t w))"
proof (cases "tcp_bind_addr (tw_config w) (a_port a)")
  case (Inr addr)
  obtain ok w1 where b: "tcp_bind addr w = (ok, w1)" by fastforce
  have w1: "tcp_inv w1" "tw_entries w1 = tw_entries w" using tcp_inv_bind [OF inv, of addr] b by (auto simp: tcp_bind_def)
  obtain e w2 where al: "alloc_entry a w1 = (e, w2)" by fastforce
  have "tcp_inv (tcp_count (\<lambda>m. m\<lparr>m_bind_fail_total := counter_inc (m_bind_fail_total m)\<rparr>) w1)"
    using w1(1) by (rule tcp_inv_count) simp
  moreover have "tcp_inv (publish_entry (a_id a) e w2)" using tcp_inv_open [OF w1(1) _ al] new w1(2) by simp
  ultimately show ?thesis using inv Inr b al by (cases ok) (simp_all add: tcp_create_def bind_entry_def)
qed (use inv in \<open>simp add: tcp_create_def bind_entry_def\<close>)

lemma tcp_inv_restore:
  assumes inv: "tcp_inv w" and new: "map_of (tw_entries w) (a_id a) = None"
  shows "tcp_inv (snd (tcp_restore a t w))"
proof (cases "tcp_bind_addr (tw_config w) (a_port a)")
  case (Inr addr)
  obtain ok w1 where b: "tcp_bind addr w = (ok, w1)" by fastforce
  have w1: "tcp_inv w1" "tw_entries w1 = tw_entries w" using tcp_inv_bind [OF inv, of addr] b by (auto simp: tcp_bind_def)
  obtain e w2 where al: "alloc_entry a w1 = (e, w2)" by fastforce
  have "tcp_inv (tcp_count (\<lambda>m. m\<lparr>m_bind_fail_total := counter_inc (m_bind_fail_total m),
      m_restore_failures_total := counter_inc (m_restore_failures_total m)\<rparr>) w1)"
    using w1(1) by (rule tcp_inv_count) simp
  moreover have "tcp_inv (publish_entry (a_id a) e w2)" using tcp_inv_open [OF w1(1) _ al] new w1(2) by simp
  ultimately show ?thesis using inv Inr b al by (cases ok) (simp_all add: tcp_restore_def)
qed (use inv in \<open>simp add: tcp_restore_def\<close>)

lemma stop_entries:
  assumes "tcp_inv w" and "set es \<subseteq> {..<length (tw_heap w)}"
  shows "tcp_inv (fold stop_entry es w) \<and> length (tw_heap (fold stop_entry es w)) = length (tw_heap w) \<and>
    (\<forall>k < length (tw_heap w). entry_stopped (tw_heap w ! k) \<or> k \<in> set es \<longrightarrow> entry_stopped (tw_heap (fold stop_entry es w) ! k))"
  using assms
proof (induction es arbitrary: w)
  case (Cons e es)
  note stop = tcp_inv_stop_entry [OF Cons.prems(1), of e]
  have "e < length (tw_heap w)" using Cons.prems(2) by simp
  with Cons.IH [OF stop(1)] Cons.prems(2) stop(2,4,5) show ?case by auto
qed simp

lemma fold_stop_entries: "fold stop_entry es (w\<lparr>tw_entries := xs\<rparr>) = (fold stop_entry es w)\<lparr>tw_entries := xs\<rparr>"
  by (induction es arbitrary: w) (simp_all add: stop_entry_entries)

lemma tcp_inv_shutdown: "tcp_inv w \<Longrightarrow> tcp_inv (tcp_shutdown_all w)"
proof -
  assume inv: "tcp_inv w"
  then have tab: "snd ` set (tw_entries w) \<subseteq> {..<length (tw_heap w)}"
    "\<And>k. k < length (tw_heap w) \<Longrightarrow> k \<notin> snd ` set (tw_entries w) \<Longrightarrow> entry_stopped (tw_heap w ! k)"
    by (auto simp: tcp_inv_def table_ok_def)
  have "tcp_inv (fold stop_entry (map snd (tw_entries w)) w) \<and>
      length (tw_heap (fold stop_entry (map snd (tw_entries w)) w)) = length (tw_heap w) \<and>
      (\<forall>k < length (tw_heap w). entry_stopped (tw_heap (fold stop_entry (map snd (tw_entries w)) w) ! k))"
    using stop_entries [OF inv, of "map snd (tw_entries w)"] tab by auto
  then show ?thesis
    unfolding tcp_shutdown_all_def fold_stop_entries by (intro tcp_inv_entries) auto
qed

lemma tcp_step_inv: "tcp_step w w' \<Longrightarrow> tcp_inv w \<Longrightarrow> tcp_inv w'"
proof (induction rule: tcp_step.induct)
  case (register e w)
  then show ?case using tcp_inv_register by fastforce
next
  case (spliced i w result)
  obtain res m where out: "splice_outcome result (tw_metrics w) = (res, m)" by fastforce
  then have "tcp_inv (w\<lparr>tw_metrics := m\<rparr>)"
    using spliced.prems by (intro tcp_inv_metrics) (auto simp: splice_outcome_def split: option.splits)
  then show ?case using spliced out tcp_inv_copy_finished [of "w\<lparr>tw_metrics := m\<rparr>" i res]
    by (simp add: splice_finished_def copying_def)
next
  case (copied i w outcome)
  then show ?case using tcp_inv_copy_finished by (simp add: copying_def)
qed (simp_all add: tcp_inv_accept_turn tcp_inv_connected tcp_inv_upstream_failed tcp_inv_unsupported tcp_inv_cancelled
    tcp_inv_create tcp_inv_restore tcp_inv_update tcp_inv_delete tcp_inv_shutdown)

lemma tcp_inv_new: "tcp_inv (tcp_runtime_new config metrics_default grants)"
  by (simp add: tcp_inv_def handles_ok_def gauges_ok_def table_ok_def tcp_runtime_new_def metrics_default_def)

lemma tcp_steps_inv: "tcp_step\<^sup>*\<^sup>* w w' \<Longrightarrow> tcp_inv w \<Longrightarrow> tcp_inv w'"
  by (induction rule: rtranclp_induct) (simp_all add: tcp_step_inv)

end
