(* ===== verification/Relayd_Tcp_Correct.thy ===== *)
theory Relayd_Tcp_Correct
  imports Relayd_Tcp_Sessions
begin

text \<open>
  What the TCP relay guarantees: it keeps the contract of a listener runtime, its handles and gauges are
  exact in every reachable state, a deleted listener never serves again, an update stops the sessions that
  are registered, and a splice returns the first result of each direction. One guarantee it does not
  give is shown by a run: a client accepted before an update can be served with the old target.
\<close>

subsection \<open>The contract\<close>

definition tcp_served :: "tcp_world \<Rightarrow> string \<Rightarrow> u16 option" where
  "tcp_served w i = map_option (\<lambda>e. te_port (tw_heap w ! e)) (map_of (tw_entries w) i)"

lemma observed_of_entry_state_for: "observed_of_entry (entry_state_for a) = observed_for a"
  by (simp add: observed_of_entry_def entry_state_for_def observed_for_def split: option.split)

lemma publish_sel:
  assumes "alloc_entry a w = (e, w1)"
  shows "map_of (tw_entries (publish_entry i e w1)) = (map_of (tw_entries w))(i \<mapsto> length (tw_heap w))"
    and "tw_heap (publish_entry i e w1) = tw_heap w @ [new_entry (tw_config w) a]"
  using assms by (auto simp: alloc_entry_def publish_entry_def update_conv')

lemma publish_served:
  assumes inv: "tcp_inv w" and al: "alloc_entry a w = (e, w1)"
  shows "tcp_served (publish_entry (a_id a) e w1) = (tcp_served w)(a_id a \<mapsto> a_port a)"
    and "tcp_snapshot (a_id a) (publish_entry (a_id a) e w1) = Ok (Some (observed_for a))"
proof -
  have "map_of (tw_entries w) i = Some k \<Longrightarrow> k < length (tw_heap w)" for i k using tcp_entries_bound [OF inv] .
  then show "tcp_served (publish_entry (a_id a) e w1) = (tcp_served w)(a_id a \<mapsto> a_port a)"
    unfolding tcp_served_def publish_sel [OF al] fun_eq_iff
    by (auto simp: nth_append new_entry_def map_option_case split: option.splits)
  show "tcp_snapshot (a_id a) (publish_entry (a_id a) e w1) = Ok (Some (observed_for a))"
    unfolding tcp_snapshot_def publish_sel [OF al] by (simp add: new_entry_def observed_of_entry_state_for)
qed

lemma tcp_served_cong:
  "tw_entries w' = tw_entries w \<Longrightarrow> map te_port (tw_heap w') = map te_port (tw_heap w) \<Longrightarrow> tcp_inv w \<Longrightarrow> tcp_served w' = tcp_served w"
  using tcp_entries_bound [of w] map_eq_nth [of te_port "tw_heap w'" "tw_heap w"]
  by (auto simp: tcp_served_def fun_eq_iff map_option_case split: option.splits)

lemma tcp_open_law:
  assumes inv: "tcp_inv w" and w1: "tw_entries w1 = tw_entries w" "tw_heap w1 = tw_heap w" "tw_config w1 = tw_config w" "tcp_inv w1"
    and al: "alloc_entry a w1 = (e, w2)"
  shows "tcp_served (publish_entry (a_id a) e w2) = (tcp_served w)(a_id a \<mapsto> a_port a)"
    "tcp_snapshot (a_id a) (publish_entry (a_id a) e w2) = Ok (Some (observed_for a))"
  using publish_served [OF w1(4) al] tcp_served_cong [of w1 w] w1 inv by simp_all

lemma tcp_bind_sel:
  "tcp_bind addr w = (ok, w1) \<Longrightarrow> tw_entries w1 = tw_entries w \<and> tw_heap w1 = tw_heap w \<and> tw_config w1 = tw_config w"
  by (auto simp: tcp_bind_def)

lemma tcp_create_law:
  assumes inv: "tcp_inv w" and a: "a_protocol a = Tcp" and run: "tcp_create a t w = (res, w')"
  shows "tcp_served w' = (if res = Inr () then (tcp_served w)(a_id a \<mapsto> a_port a) else tcp_served w)"
    and "res = Inr () \<Longrightarrow> tcp_snapshot (a_id a) w' = Ok (Some (observed_for a))" and "res \<in> {Inr (), Inl RuntimeCreateFailed}"
proof -
  have "tcp_served w' = (if res = Inr () then (tcp_served w)(a_id a \<mapsto> a_port a) else tcp_served w) \<and>
    (res = Inr () \<longrightarrow> tcp_snapshot (a_id a) w' = Ok (Some (observed_for a))) \<and> res \<in> {Inr (), Inl RuntimeCreateFailed}"
  proof (cases "tcp_bind_addr (tw_config w) (a_port a)")
    case (Inl err)
    then have "err = RuntimeCreateFailed" by (cases "ip_addr_from_str (tc_bind_host (tw_config w))") (simp_all add: tcp_bind_addr_def)
    then show ?thesis using Inl run a by (auto simp: tcp_create_def bind_entry_def)
  next
    case (Inr addr)
    obtain ok w1 where b: "tcp_bind addr w = (ok, w1)" by fastforce
    have w1: "tcp_inv w1" using tcp_inv_bind [OF inv, of addr] b by simp
    obtain e w2 where al: "alloc_entry a w1 = (e, w2)" by fastforce
    note opened = tcp_open_law [OF inv _ _ _ w1 al] and sel = tcp_bind_sel [OF b]
    show ?thesis
    proof (cases ok)
      case True
      then have "res = Inr ()" "w' = publish_entry (a_id a) e w2"
        using run a Inr b al by (simp_all add: tcp_create_def bind_entry_def)
      then show ?thesis using opened sel by simp
    next
      case False
      then have "res = Inl RuntimeCreateFailed"
        "w' = tcp_count (\<lambda>m. m\<lparr>m_bind_fail_total := counter_inc (m_bind_fail_total m)\<rparr>) w1"
        using run a Inr b by (auto simp: tcp_create_def bind_entry_def)
      then show ?thesis using sel tcp_served_cong [of w' w] inv by simp
    qed
  qed
  then show "tcp_served w' = (if res = Inr () then (tcp_served w)(a_id a \<mapsto> a_port a) else tcp_served w)"
    "res = Inr () \<Longrightarrow> tcp_snapshot (a_id a) w' = Ok (Some (observed_for a))" "res \<in> {Inr (), Inl RuntimeCreateFailed}" by simp_all
qed

lemma tcp_restore_law:
  assumes inv: "tcp_inv w" and a: "a_protocol a = Tcp" and run: "tcp_restore a t w = (res, w')"
  shows "tcp_served w' = (if res = Inr () then (tcp_served w)(a_id a \<mapsto> a_port a) else tcp_served w) \<and>
    (res = Inr () \<longrightarrow> tcp_snapshot (a_id a) w' = Ok (Some (observed_for a))) \<and> res \<in> {Inr (), Inl RuntimeRestoreFailed}"
proof (cases "tcp_bind_addr (tw_config w) (a_port a)")
  case (Inl err)
  then show ?thesis using run a by (auto simp: tcp_restore_def)
next
  case (Inr addr)
  obtain ok w1 where b: "tcp_bind addr w = (ok, w1)" by fastforce
  have w1: "tcp_inv w1" using tcp_inv_bind [OF inv, of addr] b by simp
  obtain e w2 where al: "alloc_entry a w1 = (e, w2)" by fastforce
  note opened = tcp_open_law [OF inv _ _ _ w1 al] and sel = tcp_bind_sel [OF b]
  show ?thesis
  proof (cases ok)
    case True
    then have "res = Inr ()" "w' = publish_entry (a_id a) e w2" using run a Inr b al by (simp_all add: tcp_restore_def)
    then show ?thesis using opened sel by simp
  next
    case False
    then have "res = Inl RuntimeRestoreFailed" "w' = tcp_count (\<lambda>m. m\<lparr>m_bind_fail_total := counter_inc (m_bind_fail_total m),
        m_restore_failures_total := counter_inc (m_restore_failures_total m)\<rparr>) w1"
      using run a Inr b by (auto simp: tcp_restore_def)
    then show ?thesis using sel tcp_served_cong [of w' w] inv by simp
  qed
qed

lemma tcp_update_law:
  assumes inv: "tcp_inv w" and run: "tcp_update a t w = (res, w')"
  shows "tcp_served w' = tcp_served w \<and> res = (if tcp_served w (a_id a) = None then Inl RuntimeUpdateFailed else Inr ()) \<and>
    (res = Inr () \<longrightarrow> tcp_snapshot (a_id a) w' = Ok (Some (observed_for a)))"
proof (cases "map_of (tw_entries w) (a_id a)")
  case None
  then show ?thesis using run by (auto simp: tcp_update_def tcp_served_def)
next
  case (Some e)
  have e: "e < length (tw_heap w)" using tcp_entries_bound [OF inv Some] .
  have w': "res = Inr ()" "tw_entries w' = tw_entries w"
    "tw_heap w' = on_nth e (\<lambda>x. x\<lparr>te_sessions := []\<rparr>) (on_nth e (\<lambda>x. x\<lparr>te_state := entry_state_for a\<rparr>) (tw_heap w))"
    using run Some by (auto simp: tcp_update_def Let_def close_sessions_sel)
  have "map te_port (tw_heap w') = map te_port (tw_heap w)" using e by (simp add: w' map_on_nth_same)
  then show ?thesis
    using tcp_served_cong [OF w'(2) _ inv] Some e w'
    by (simp add: tcp_served_def tcp_snapshot_def observed_of_entry_state_for)
qed

lemma tcp_delete_law:
  assumes inv: "tcp_inv w" and run: "tcp_delete i t w = (res, w')"
  shows "res = Inr () \<and> tcp_served w' = (tcp_served w)(i := None)"
proof (cases "map_of (tw_entries w) i")
  case None
  then show ?thesis using run by (auto simp: tcp_delete_def tcp_served_def fun_eq_iff)
next
  case (Some e)
  have e: "e < length (tw_heap w)" using tcp_entries_bound [OF inv Some] .
  have w': "res = Inr ()" "tw_entries w' = AList.delete i (tw_entries w)" "tw_heap w' = tw_heap (stop_entry e w)"
    using run Some by (auto simp: tcp_delete_def stop_entry_entries)
  have "map te_port (tw_heap w') = map te_port (tw_heap w)" using e
    by (simp add: w' stop_entry_def close_sessions_sel map_on_nth_same)
  then have "te_port (tw_heap w' ! k) = te_port (tw_heap w ! k)" if "map_of (tw_entries w) j = Some k" for j k
    using map_eq_nth tcp_entries_bound [OF inv that] by blast
  then show ?thesis
    using w' by (auto simp: tcp_served_def fun_eq_iff delete_conv' map_option_case split: option.splits)
qed

lemma tcp_facade_sel [simp]:
  "rf_initialize tcp_facade = tcp_initialize" "rf_create tcp_facade = tcp_create" "rf_update tcp_facade = tcp_update"
  "rf_delete tcp_facade = tcp_delete" "rf_restore tcp_facade = tcp_restore" "rf_snapshot tcp_facade = tcp_snapshot"
  "rf_snapshot_listener_metrics tcp_facade = tcp_snapshot_listener_metrics"
  by (simp_all add: tcp_facade_def)

lemma tcp_served_None: "tcp_served w i = None \<longleftrightarrow> map_of (tw_entries w) i = None"
  by (simp add: tcp_served_def)

interpretation tcp: listener_runtime tcp_facade tcp_inv tcp_served Tcp
proof (unfold_locales, unfold tcp_facade_sel)
  fix r r' t res and a :: allocation and i
  assume iv: "tcp_inv r"
  show "tcp_inv r' \<and> tcp_served r' = (if res = Inr () then (tcp_served r)(a_id a \<mapsto> a_port a) else tcp_served r) \<and>
      (res = Inr () \<longrightarrow> tcp_snapshot (a_id a) r' = Inr (Some (observed_for a))) \<and> res \<in> {Inr (), Inl RuntimeCreateFailed}"
    if "a_protocol a = Tcp" "tcp_served r (a_id a) = None" "tcp_create a t r = (res, r')"
    using tcp_create_law [OF iv that(1,3)] tcp_inv_create [OF iv, of a t] that(2,3) by (simp add: tcp_served_None)
  show "tcp_inv r' \<and> tcp_served r' = tcp_served r \<and>
      res = (if tcp_served r (a_id a) = None then Inl RuntimeUpdateFailed else Inr ()) \<and>
      (res = Inr () \<longrightarrow> tcp_snapshot (a_id a) r' = Inr (Some (observed_for a)))"
    if "tcp_update a t r = (res, r')"
    using tcp_update_law [OF iv that] tcp_inv_update [OF iv, of a t] that by simp
  show "res = Inr () \<and> tcp_inv r' \<and> tcp_served r' = (tcp_served r)(i := None)" if "tcp_delete i t r = (res, r')"
    using tcp_delete_law [OF iv that] tcp_inv_delete [OF iv, of i t] that by simp
  show "tcp_inv r' \<and> tcp_served r' = (if res = Inr () then (tcp_served r)(a_id a \<mapsto> a_port a) else tcp_served r) \<and>
      (res = Inr () \<longrightarrow> tcp_snapshot (a_id a) r' = Inr (Some (observed_for a))) \<and> res \<in> {Inr (), Inl RuntimeRestoreFailed}"
    if "a_protocol a = Tcp" "tcp_served r (a_id a) = None" "tcp_restore a t r = (res, r')"
    using tcp_restore_law [OF iv that(1,3)] tcp_inv_restore [OF iv, of a t] that(2,3) by (simp add: tcp_served_None)
  show "\<exists>obs. tcp_snapshot i r = Inr obs \<and> (obs = None \<longleftrightarrow> tcp_served r i = None)"
    by (simp add: tcp_snapshot_def tcp_served_def)
qed

subsection \<open>A run\<close>

text \<open>A listener with a target, a client accepted, its session registered and connected.\<close>

definition tcp_example_allocation :: "string \<Rightarrow> allocation" where
  "tcp_example_allocation host =
     \<lparr>a_id = ''a'', a_protocol = Tcp, a_port = 1000, a_target_port = Some 80, a_host = Some host, a_created_at_ms = 0, a_updated_at_ms = 0\<rparr>"

definition tcp_started :: tcp_world where
  "tcp_started = tcp_runtime_new tcp_loopback metrics_default (\<lambda>_ _. True)"

definition tcp_listening :: tcp_world where
  "tcp_listening = snd (tcp_create (tcp_example_allocation ''10.0.0.1'') 0 tcp_started)"

definition tcp_accepted :: tcp_world where
  "tcp_accepted = accept_client 0 tcp_listening"

definition tcp_registered :: tcp_world where
  "tcp_registered = register_session 0 tcp_accepted"

definition tcp_connected :: tcp_world where
  "tcp_connected = upstream_connected 0 tcp_registered"

lemma loopback_parses: "ip_addr_from_str ''127.0.0.1'' = Some (V4 127 0 0 1)"
  by code_simp

lemma tcp_listening_sel:
  "tw_entries tcp_listening = [(''a'', 0)]" "tw_heap tcp_listening = [new_entry tcp_loopback (tcp_example_allocation ''10.0.0.1'')]"
  "tw_tasks tcp_listening = []"
  by (simp_all add: tcp_listening_def tcp_create_def bind_entry_def tcp_started_def tcp_runtime_new_def tcp_bind_addr_def
      tcp_loopback_def tcp_with_bind_host_def loopback_parses tcp_bind_def alloc_entry_def publish_entry_def tcp_example_allocation_def)

lemma tcp_accepted_sel:
  "tw_entries tcp_accepted = [(''a'', 0)]"
  "tw_heap tcp_accepted = [(new_entry tcp_loopback (tcp_example_allocation ''10.0.0.1''))\<lparr>te_pending := Some (''10.0.0.1'', 80)\<rparr>]"
  "tw_tasks tcp_accepted = []"
  by (simp_all add: tcp_accepted_def accept_client_def handle_client_def tcp_listening_sel new_entry_def entry_state_for_def
      tcp_example_allocation_def on_nth_def)

lemma tcp_registered_sel:
  "tw_entries tcp_registered = [(''a'', 0)]"
  "tw_heap tcp_registered = [(new_entry tcp_loopback (tcp_example_allocation ''10.0.0.1''))\<lparr>te_next_session_id := 1, te_sessions := [0]\<rparr>]"
  "tw_tasks tcp_registered = [\<lparr>tt_entry = 0, tt_session = 0, tt_host = ''10.0.0.1'', tt_target_port = 80, tt_phase = Connecting, tt_signalled = False\<rparr>]"
  by (simp_all add: tcp_registered_def register_session_def tcp_accepted_sel new_entry_def on_nth_def)

lemma tcp_run:
  "tcp_step tcp_started tcp_listening" "tcp_step tcp_listening tcp_accepted" "tcp_step tcp_accepted tcp_registered"
  "tcp_step tcp_registered tcp_connected"
proof -
  show "tcp_step tcp_started tcp_listening" unfolding tcp_listening_def
    by (rule tcp_step.create) (simp add: tcp_started_def tcp_runtime_new_def)
  have "tcp_accepted = accept_turn ClientAccepted 0 tcp_listening" by (simp add: tcp_accepted_def accept_turn_def)
  moreover have "tcp_step tcp_listening (accept_turn ClientAccepted 0 tcp_listening)"
    by (rule tcp_step.accept) (simp_all add: tcp_listening_sel new_entry_def)
  ultimately show "tcp_step tcp_listening tcp_accepted" by simp
  show "tcp_step tcp_accepted tcp_registered" unfolding tcp_registered_def
    by (rule tcp_step.register) (simp_all add: tcp_accepted_sel new_entry_def)
  show "tcp_step tcp_registered tcp_connected" unfolding tcp_connected_def
    by (rule tcp_step.connected) (simp_all add: tcp_registered_sel)
qed

lemma tcp_registered_reachable:
  "tcp_step\<^sup>*\<^sup>* (tcp_runtime_new tcp_loopback metrics_default (\<lambda>_ _. True)) tcp_registered"
  using tcp_run unfolding tcp_started_def by (meson r_into_rtranclp rtranclp_trans)

lemma tcp_connected_reachable:
  "tcp_step\<^sup>*\<^sup>* (tcp_runtime_new tcp_loopback metrics_default (\<lambda>_ _. True)) tcp_connected"
  using tcp_registered_reachable tcp_run(4) by (meson rtranclp.rtrancl_into_rtrancl)

subsection \<open>Handles and gauges\<close>

text \<open>
  C25. Shutdown handles are exact: in every reachable state the handle table of a listener names exactly the
  sessions that run and have not been told to stop, so closing the handles reaches every session and no handle leaks.
\<close>

theorem tcp_handles_exact:
  assumes "tcp_step\<^sup>*\<^sup>* (tcp_runtime_new config metrics_default grants) w" and "e < length (tw_heap w)"
  shows "set (te_sessions (tw_heap w ! e)) =
    tt_session ` {t \<in> set (tw_tasks w). tt_entry t = e \<and> tt_phase t \<noteq> Ended \<and> \<not> tt_signalled t}"
proof -
  have ok: "handles_ok w" using tcp_steps_inv [OF assms(1) tcp_inv_new] by (simp add: tcp_inv_def)
  have task: "task_ok w t" if "t \<in> set (tw_tasks w)" for t
    using that ok by (auto simp: in_set_conv_nth dest: handles_okD(2))
  show ?thesis
  proof (intro equalityI subsetI)
    fix sid assume sid: "sid \<in> set (te_sessions (tw_heap w ! e))"
    then have "(e, sid) \<in> task_key ` set (tw_tasks w)" using ok assms(2) by (simp add: handles_ok_def)
    then obtain t where t: "t \<in> set (tw_tasks w)" "tt_entry t = e" "tt_session t = sid" by (auto simp: task_key_def)
    then show "sid \<in> tt_session ` {t \<in> set (tw_tasks w). tt_entry t = e \<and> tt_phase t \<noteq> Ended \<and> \<not> tt_signalled t}"
      using task [OF t(1)] sid by (auto simp: task_ok_def)
  next
    fix sid assume "sid \<in> tt_session ` {t \<in> set (tw_tasks w). tt_entry t = e \<and> tt_phase t \<noteq> Ended \<and> \<not> tt_signalled t}"
    then show "sid \<in> set (te_sessions (tw_heap w ! e))" using task by (auto simp: task_ok_def)
  qed
qed

theorem tcp_handles_exact_witness:
  "set (te_sessions (tw_heap tcp_registered ! 0)) =
     tt_session ` {t \<in> set (tw_tasks tcp_registered). tt_entry t = 0 \<and> tt_phase t \<noteq> Ended \<and> \<not> tt_signalled t} \<and>
   0 \<in> set (te_sessions (tw_heap tcp_registered ! 0))"
proof
  show "set (te_sessions (tw_heap tcp_registered ! 0)) =
      tt_session ` {t \<in> set (tw_tasks tcp_registered). tt_entry t = 0 \<and> tt_phase t \<noteq> Ended \<and> \<not> tt_signalled t}"
    by (rule tcp_handles_exact [OF tcp_registered_reachable]) (simp add: tcp_registered_sel)
  show "0 \<in> set (te_sessions (tw_heap tcp_registered ! 0))" by (simp add: tcp_registered_sel)
qed

text \<open>
  C28. Session gauges are exact: in every reachable state the process-wide gauge and the connection count of each
  listener row equal the number of sessions that copy (modulo the width of the counter), and the sessions
  created are those closed plus those active.
\<close>

theorem tcp_gauges_exact:
  assumes "tcp_step\<^sup>*\<^sup>* (tcp_runtime_new config metrics_default grants) w"
  shows "m_tcp_active_sessions (tw_metrics w) = of_nat (count_if copying (tw_tasks w)) \<and>
    m_tcp_session_create_total (tw_metrics w) = m_tcp_session_close_total (tw_metrics w) + m_tcp_active_sessions (tw_metrics w) \<and>
    (\<exists>rows. tcp_snapshot_listener_metrics w = Ok rows \<and>
       map lms_connections_current rows = map (\<lambda>(_, e). of_nat (count_if (\<lambda>t. tt_entry t = e \<and> copying t) (tw_tasks w))) (tw_entries w))"
proof -
  have inv: "tcp_inv w" using tcp_steps_inv [OF assms tcp_inv_new] .
  then have "e < length (tw_heap w)" if "(i, e) \<in> set (tw_entries w)" for i e
    using that by (force simp: tcp_inv_def table_ok_def)
  then show ?thesis using inv
    by (auto simp: tcp_inv_def gauges_ok_def tcp_snapshot_listener_metrics_def Let_def)
qed

theorem tcp_gauges_exact_witness:
  "m_tcp_active_sessions (tw_metrics tcp_connected) = 1 \<and>
   m_tcp_session_create_total (tw_metrics tcp_connected) = m_tcp_session_close_total (tw_metrics tcp_connected) + 1"
proof -
  have "count_if copying (tw_tasks tcp_connected) = 1"
    by (simp add: tcp_connected_def upstream_connected_def tcp_registered_sel active_session_guard_new_def copy_streams_def
        record_copy_fallback_def on_nth_def count_if_def copying_def Let_def split: prod.split)
  then show ?thesis using tcp_gauges_exact [OF tcp_connected_reachable] by simp
qed

subsection \<open>Deletion\<close>

text \<open>
  Addresses are not reused, so an entry that is out of the table does not come back; and an accept task that has ended is not
  started again.
\<close>

definition only_new :: "tcp_world \<Rightarrow> tcp_world \<Rightarrow> bool" where
  "only_new w w' \<longleftrightarrow> length (tw_heap w) \<le> length (tw_heap w') \<and>
     snd ` set (tw_entries w') \<subseteq> snd ` set (tw_entries w) \<union> {length (tw_heap w)..} \<and>
     (\<forall>e < length (tw_heap w). te_accepting (tw_heap w' ! e) \<longrightarrow> te_accepting (tw_heap w ! e))"

lemma snd_update: "snd ` set (AList.update i e es) \<subseteq> insert e (snd ` set es)"
  by (induction es) auto

lemma only_new_same:
  "tw_entries w' = tw_entries w \<Longrightarrow> length (tw_heap w') = length (tw_heap w) \<Longrightarrow>
     (\<And>e. e < length (tw_heap w) \<Longrightarrow> te_accepting (tw_heap w' ! e) \<Longrightarrow> te_accepting (tw_heap w ! e)) \<Longrightarrow> only_new w w'"
  by (simp add: only_new_def)

lemma only_new_publish: "only_new w (publish_entry i (length (tw_heap w)) (w\<lparr>tw_heap := tw_heap w @ [x]\<rparr>))"
  using snd_update [of i "length (tw_heap w)" "tw_entries w"] by (auto simp: only_new_def publish_entry_def nth_append)

lemma only_new_bind: "tcp_bind addr w = (ok, w1) \<Longrightarrow> only_new w1 w' \<Longrightarrow> only_new w w'"
  by (simp add: only_new_def tcp_bind_sel)

lemma stop_entry_accepting: "k < length (tw_heap w) \<Longrightarrow> te_accepting (tw_heap (stop_entry e w) ! k) \<Longrightarrow> te_accepting (tw_heap w ! k)"
  by (auto simp: stop_entry_def close_sessions_sel nth_on_nth split: if_splits)

lemma only_new_fold_stop:
  "tw_entries (fold stop_entry es w) = tw_entries w \<and> length (tw_heap (fold stop_entry es w)) = length (tw_heap w) \<and>
     (\<forall>k < length (tw_heap w). te_accepting (tw_heap (fold stop_entry es w) ! k) \<longrightarrow> te_accepting (tw_heap w ! k))"
proof (induction es arbitrary: w)
  case (Cons e es)
  have "tw_entries (stop_entry e w) = tw_entries w" "length (tw_heap (stop_entry e w)) = length (tw_heap w)"
    by (simp_all add: stop_entry_def close_sessions_sel)
  with Cons [of "stop_entry e w"] show ?case using stop_entry_accepting [of _ w e] by auto
qed simp

lemma only_new_open:
  assumes "tcp_bind addr w = (ok, w1)"
  shows "only_new w (tcp_count f w1)" "alloc_entry a w1 = (e, w2) \<Longrightarrow> only_new w (publish_entry i e w2)"
  using tcp_bind_sel [OF assms] only_new_publish [of w1] only_new_bind [OF assms]
  by (auto simp: alloc_entry_def intro: only_new_same)

lemma only_new_create: "only_new w (snd (tcp_create a t w))" "only_new w (snd (tcp_restore a t w))"
  by (auto simp: tcp_create_def tcp_restore_def bind_entry_def only_new_open split: sum.split prod.split bool.split intro!: only_new_same)

lemma only_new_step: "tcp_step w w' \<Longrightarrow> only_new w w'"
proof (induction rule: tcp_step.induct)
  case (create w a t) show ?case by (rule only_new_create)
next
  case (restore w a t) show ?case by (rule only_new_create)
next
  case (delete w k t)
  have "snd ` set (AList.delete k (tw_entries w)) \<subseteq> snd ` set (tw_entries w)" by (auto simp: AList.delete_eq)
  then show ?case
    by (auto simp: tcp_delete_def only_new_def stop_entry_def close_sessions_sel nth_on_nth split: option.split if_splits)
next
  case (shutdown w)
  show ?case using only_new_fold_stop [of "map snd (tw_entries w)" "w\<lparr>tw_entries := []\<rparr>"] by (simp add: tcp_shutdown_all_def only_new_def)
qed (rule only_new_same; auto simp: accept_turn_def leave_accept_loop_def nth_on_nth accept_client_def handle_client_def register_session_def upstream_connected_def upstream_failed_def
    splice_unsupported_def splice_finished_def copy_finished_def session_cancelled_def tcp_update_def active_session_guard_new_def
    active_session_guard_drop_def end_task_sel close_sessions_sel Let_def set_error_def
    split: option.splits prod.splits sum.splits accept_event.splits if_splits)+

lemma not_accepting_stays:
  assumes "tcp_step\<^sup>*\<^sup>* w w'" and "e < length (tw_heap w)" and "\<not> te_accepting (tw_heap w ! e)"
  shows "e < length (tw_heap w') \<and> \<not> te_accepting (tw_heap w' ! e)"
  using assms
proof (induction rule: rtranclp_induct)
  case (step x y)
  then show ?case using only_new_step [of x y] by (auto simp: only_new_def)
qed simp


lemma no_handle_no_session:
  assumes "tcp_inv w" and "te_sessions (tw_heap w ! e) = []" and "t \<in> set (tw_tasks w)" and "tt_entry t = e"
  shows "tt_phase t = Ended \<or> tt_signalled t"
proof -
  obtain i where i: "i < length (tw_tasks w)" "t = tw_tasks w ! i" using assms(3) by (auto simp: in_set_conv_nth)
  then have "task_ok w t" using assms(1) handles_okD(2) by (simp add: tcp_inv_def)
  then show ?thesis using assms(2,4) by (simp add: task_ok_def)
qed



subsection \<open>Updates\<close>

text \<open>
  C30. An update takes effect on the registered sessions: when it returns, the listener reports the new target and
  every session registered so far is over or has been told to stop.
\<close>

theorem tcp_update_stops_sessions:
  assumes "tcp_step\<^sup>*\<^sup>* (tcp_runtime_new config metrics_default grants) w" and "tcp_update a timeout_ms w = (Ok (), w')"
  shows "tcp_snapshot (a_id a) w' = Ok (Some (observed_for a)) \<and>
    (\<exists>e. map_of (tw_entries w') (a_id a) = Some e \<and>
       (\<forall>t \<in> set (tw_tasks w'). tt_entry t = e \<longrightarrow> tt_phase t = Ended \<or> tt_signalled t))"
proof -
  have inv: "tcp_inv w" using tcp_steps_inv [OF assms(1) tcp_inv_new] .
  have inv': "tcp_inv w'" using tcp_inv_update [OF inv, of a timeout_ms] assms(2) by simp
  obtain e where e: "map_of (tw_entries w) (a_id a) = Some e"
    using assms(2) by (cases "map_of (tw_entries w) (a_id a)") (auto simp: tcp_update_def)
  have "map_of (tw_entries w') (a_id a) = Some e" "te_sessions (tw_heap w' ! e) = []"
    using assms(2) e tcp_entries_bound [OF inv e] by (auto simp: tcp_update_def Let_def close_sessions_sel)
  then show ?thesis using no_handle_no_session [OF inv'] tcp_update_law [OF inv assms(2)] by auto
qed

theorem tcp_update_stops_sessions_witness:
  "\<exists>w' t. tcp_update (tcp_example_allocation ''10.0.0.2'') 0 tcp_registered = (Ok (), w') \<and>
     tcp_snapshot ''a'' w' = Ok (Some (observed_for (tcp_example_allocation ''10.0.0.2''))) \<and>
     t \<in> set (tw_tasks w') \<and> (tt_phase t = Ended \<or> tt_signalled t)"
proof -
  let ?a = "tcp_example_allocation ''10.0.0.2''"
  obtain w' where run: "tcp_update ?a 0 tcp_registered = (Ok (), w')"
    by (simp add: tcp_update_def tcp_registered_sel tcp_example_allocation_def Let_def)
  have "\<exists>t. t \<in> set (tw_tasks w') \<and> tt_entry t = 0" "tw_entries w' = [(''a'', 0)]"
    using run by (auto simp: tcp_update_def tcp_registered_sel tcp_example_allocation_def Let_def close_sessions_def)
  moreover have "a_id ?a = ''a''" by (simp add: tcp_example_allocation_def)
  ultimately show ?thesis using run tcp_update_stops_sessions [OF tcp_registered_reachable run] by auto
qed


text \<open>
  C32. One failed accept makes a listener deaf for good, and nothing shows it: the loop ends, yet the listener stays in the table
  and reports what it reported before, and whatever happens afterwards, updates included, its accept task never runs again.
\<close>

theorem tcp_accept_error_deaf:
  assumes "tcp_step\<^sup>*\<^sup>* (tcp_runtime_new config metrics_default grants) w" and "map_of (tw_entries w) i = Some e"
    and "tcp_step\<^sup>*\<^sup>* (accept_turn AcceptFailed e w) w'"
  shows "tcp_snapshot i (accept_turn AcceptFailed e w) = tcp_snapshot i w \<and> tcp_served (accept_turn AcceptFailed e w) = tcp_served w \<and>
    \<not> te_accepting (tw_heap w' ! e)"
proof -
  have e: "e < length (tw_heap w)" using tcp_entries_bound [OF tcp_steps_inv [OF assms(1) tcp_inv_new] assms(2)] .
  have turn: "accept_turn AcceptFailed e w = on_entry e (\<lambda>x. x\<lparr>te_accepting := False\<rparr>) w"
    by (simp add: accept_turn_def leave_accept_loop_def)
  have state: "te_state (tw_heap (accept_turn AcceptFailed e w) ! k) = te_state (tw_heap w ! k)"
    "te_port (tw_heap (accept_turn AcceptFailed e w) ! k) = te_port (tw_heap w ! k)" for k
    using e by (cases "k = e"; simp add: turn)+
  have "\<not> te_accepting (tw_heap w' ! e)" using not_accepting_stays [OF assms(3)] e by (simp add: turn)
  moreover have "tw_entries (accept_turn AcceptFailed e w) = tw_entries w" by (simp add: turn)
  ultimately show ?thesis by (simp add: tcp_snapshot_def tcp_served_def state fun_eq_iff)
qed

theorem tcp_accept_error_deaf_witness:
  "\<exists>w'. tcp_update (tcp_example_allocation ''10.0.0.2'') 0 (accept_turn AcceptFailed 0 tcp_listening) = (Ok (), w') \<and>
     map_ok (map_option os_runtime_status) (tcp_snapshot ''a'' w') = Ok (Some Active) \<and> te_accepting (tw_heap tcp_listening ! 0) \<and>
     \<not> te_accepting (tw_heap w' ! 0)"
proof -
  let ?a = "tcp_example_allocation ''10.0.0.2''" and ?v = "accept_turn AcceptFailed 0 tcp_listening"
  have start: "tcp_step\<^sup>*\<^sup>* (tcp_runtime_new tcp_loopback metrics_default (\<lambda>_ _. True)) tcp_listening"
    using tcp_run(1) unfolding tcp_started_def by blast
  have entries: "tw_entries ?v = [(''a'', 0)]" by (simp add: accept_turn_def leave_accept_loop_def tcp_listening_sel)
  obtain w' where run: "tcp_update ?a 0 ?v = (Ok (), w')"
    by (simp add: tcp_update_def entries tcp_example_allocation_def Let_def)
  have "tcp_step ?v (snd (tcp_update ?a 0 ?v))" by (rule tcp_step.update)
  then have "tcp_step\<^sup>*\<^sup>* ?v w'" by (simp add: run r_into_rtranclp)
  from tcp_accept_error_deaf [OF start _ this, of "''a''"] have "\<not> te_accepting (tw_heap w' ! 0)" by (simp add: tcp_listening_sel)
  moreover have "map_ok (map_option os_runtime_status) (tcp_snapshot ''a'' w') = Ok (Some Active)"
    using run by (auto simp: tcp_update_def entries tcp_example_allocation_def Let_def tcp_snapshot_def close_sessions_sel on_nth_def
        accept_turn_def leave_accept_loop_def tcp_listening_sel observed_of_entry_def entry_state_for_def)
  moreover have "te_accepting (tw_heap tcp_listening ! 0)" by (simp add: tcp_listening_sel new_entry_def)
  ultimately show ?thesis using run by blast
qed

subsection \<open>Copying\<close>

fun first_ready :: "'r poll list \<Rightarrow> 'r option" where
  "first_ready [] = None"
| "first_ready (Ready r # ps) = Some r"
| "first_ready (Pending # ps) = first_ready ps"

lemma splice_run_gen:
  assumes "c0 = None \<or> u0 = None"
  shows "splice_run polls (c0, u0) =
    (case (or_else c0 (first_ready (map fst polls)), or_else u0 (first_ready (map snd polls))) of
       (Some c, Some u) \<Rightarrow> Ready (c, u) | _ \<Rightarrow> Pending)"
  using assms
proof (induction polls arbitrary: c0 u0)
  case Nil
  then show ?case by (cases c0; cases u0) simp_all
next
  case (Cons p polls)
  obtain c u where p: "p = (c, u)" by fastforce
  show ?case using Cons.prems
    by (cases c; cases u; cases c0; cases u0) (simp_all add: p splice_poll_def Cons.IH split: option.split)
qed

text \<open>
  The two-way splice returns the first result of each direction: it is ready as soon as both directions have
  completed, and the direction that completed first keeps its result while the other drains.
\<close>

lemma splice_first_results:
  "splice_run polls (None, None) =
     (case (first_ready (map fst polls), first_ready (map snd polls)) of
        (Some c, Some u) \<Rightarrow> Ready (c, u) | _ \<Rightarrow> Pending)"
  by (simp add: splice_run_gen)

text \<open>A finished copy counts the bytes from the client as sent and those from the upstream as received.\<close>

lemma copy_finished_bytes:
  assumes "i < length (tw_tasks w)" and "tt_entry (tw_tasks w ! i) < length (tw_heap w)"
  shows "lm_tx (te_metrics (tw_heap (copy_finished i (Ok (from_client, from_upstream)) w) ! tt_entry (tw_tasks w ! i))) =
      lm_tx (te_metrics (tw_heap w ! tt_entry (tw_tasks w ! i))) + from_client"
    and "lm_rx (te_metrics (tw_heap (copy_finished i (Ok (from_client, from_upstream)) w) ! tt_entry (tw_tasks w ! i))) =
      lm_rx (te_metrics (tw_heap w ! tt_entry (tw_tasks w ! i))) + from_upstream"
  using assms by (simp_all add: copy_finished_def Let_def end_task_sel active_session_guard_drop_def)

end
