(* ===== verification/Relayd_Udp.thy ===== *)
theory Relayd_Udp
  imports Relayd_Net
begin

text \<open>
  The UDP relay of the userspace data plane (\<open>src/src/runtime/udp.rs\<close>). Listener entries and sessions are shared
  between tables and tasks, so both live in stores and are named by their address. The operating system
  is a parameter: whether a bind is granted (\<open>uw_bind_grants\<close>), whether an upstream socket connects
  (\<open>uw_upstream_connects\<close>), both indexed by the call, and the outcomes of receives and sends, arguments of the operations.
\<close>

subsection \<open>Batches\<close>

definition UDP_DATAGRAM_BUFFER_BYTES :: nat where "UDP_DATAGRAM_BUFFER_BYTES = 2048"
definition UDP_INITIAL_RECEIVE_BATCH_SIZE :: nat where "UDP_INITIAL_RECEIVE_BATCH_SIZE = 16"
definition UDP_MAX_RECEIVE_BATCH_SIZE :: nat where "UDP_MAX_RECEIVE_BATCH_SIZE = 64"
definition MAX_SESSION_CLEANUP_INTERVAL :: duration_ns where "MAX_SESSION_CLEANUP_INTERVAL = 1000000000"

text \<open>A peer is an address and a port, with the flow information and scope of an IPv6 address.\<close>

type_synonym peer_addr = "socket_addr \<times> u32 \<times> u32"

record udp_receive_batch =
  rb_buffers :: "u8 list list"
  rb_lengths :: "nat list"
  rb_peers :: "peer_addr option list"

record udp_batch_send_error =
  bs_sent :: nat
  bs_error :: io_error

definition udp_receive_batch_new :: udp_receive_batch where
  "udp_receive_batch_new =
     \<lparr>rb_buffers = replicate UDP_INITIAL_RECEIVE_BATCH_SIZE (replicate UDP_DATAGRAM_BUFFER_BYTES 0),
      rb_lengths = replicate UDP_MAX_RECEIVE_BATCH_SIZE 0, rb_peers = replicate UDP_MAX_RECEIVE_BATCH_SIZE None\<rparr>"

definition grow_if_saturated :: "nat \<Rightarrow> udp_receive_batch \<Rightarrow> udp_receive_batch" where
  "grow_if_saturated received b =
     (let capacity = length (rb_buffers b)
      in if received < capacity \<or> UDP_MAX_RECEIVE_BATCH_SIZE \<le> capacity then b
         else let new_capacity = min (capacity * 2) UDP_MAX_RECEIVE_BATCH_SIZE
              in b\<lparr>rb_buffers := rb_buffers b @ replicate (new_capacity - capacity) (replicate UDP_DATAGRAM_BUFFER_BYTES 0)\<rparr>)"

text \<open>
  The address the kernel reports, by its family: the octets as they lie in memory, port and flow information in network
  order; the scope is an integer of the host.
\<close>

datatype sockaddr_storage =
    AF_INET "u8 \<times> u8 \<times> u8 \<times> u8" "u8 \<times> u8"
  | AF_INET6 "u8 list" "u8 \<times> u8" "(u8 \<times> u8) \<times> u8 \<times> u8" u32
  | OtherFamily int

fun ipv6_segments :: "u8 list \<Rightarrow> u16 list" where
  "ipv6_segments (hi # lo # rest) = be_u16 hi lo # ipv6_segments rest"
| "ipv6_segments _ = []"

definition be_u32 :: "u16 \<Rightarrow> u16 \<Rightarrow> u32" where
  "be_u32 hi lo = of_nat (unat hi * 65536 + unat lo)"

fun socket_addr_from_storage :: "sockaddr_storage \<Rightarrow> io_error + peer_addr" where
  "socket_addr_from_storage (AF_INET (a, b, c, d) (hi, lo)) = Ok ((V4 a b c d, be_u16 hi lo), 0, 0)"
| "socket_addr_from_storage (AF_INET6 octets (hi, lo) ((a, b), c, d) scope) =
     Ok ((V6 (ipv6_segments octets), be_u16 hi lo), be_u32 (be_u16 a b) (be_u16 c d), scope)"
| "socket_addr_from_storage (OtherFamily family) =
     Err (IoError InvalidData (''unsupported UDP address family '' @
       (if family < 0 then ''-'' @ show_nat (nat (- family)) else show_nat (nat family))))"

definition put_datagram :: "nat \<Rightarrow> u8 list \<Rightarrow> peer_addr \<Rightarrow> udp_receive_batch \<Rightarrow> udp_receive_batch" where
  "put_datagram i payload peer b =
     b\<lparr>rb_buffers := (rb_buffers b)[i := payload @ drop (length payload) (rb_buffers b ! i)],
       rb_lengths := (rb_lengths b)[i := length payload], rb_peers := (rb_peers b)[i := Some peer]\<rparr>"

definition recv_one :: "io_error + u8 list \<times> peer_addr \<Rightarrow> (udp_receive_batch, io_error, nat) action" where
  "recv_one received b =
     (case received of
        Inl e \<Rightarrow> (Err e, b)
      | Inr (payload, peer) \<Rightarrow> (Ok 1, put_datagram 0 payload peer b))"

text \<open>
  The messages of one \<open>recvmmsg\<close>, stored behind the first datagram; a peer of an unknown family ends the receive.
\<close>

fun store_messages :: "nat \<Rightarrow> (u8 list \<times> sockaddr_storage) list \<Rightarrow> (udp_receive_batch, io_error, unit) action" where
  "store_messages position [] b = (Ok (), b)"
| "store_messages position ((payload, address) # rest) b =
     (case socket_addr_from_storage address of
        Inl e \<Rightarrow> (Err e, b\<lparr>rb_lengths := (rb_lengths b)[position + 1 := length payload]\<rparr>)
      | Inr peer \<Rightarrow> store_messages (position + 1) rest (put_datagram (position + 1) payload peer b))"

definition recv_batch :: "io_error + u8 list \<times> peer_addr \<Rightarrow> io_error + (u8 list \<times> sockaddr_storage) list \<Rightarrow>
    (udp_receive_batch, io_error, nat) action" where
  "recv_batch first additional b =
     (case recv_one first b of
        (Inl e, b1) \<Rightarrow> (Err e, b1)
      | (Inr _, b1) \<Rightarrow>
          (case additional of
             Inl e \<Rightarrow> (if io_error_kind e = WouldBlock then Ok 1 else Err e, b1)
           | Inr messages \<Rightarrow>
               (case store_messages 0 messages b1 of
                  (Inl e, b2) \<Rightarrow> (if io_error_kind e = WouldBlock then Ok 1 else Err e, b2)
                | (Inr _, b2) \<Rightarrow> (Ok (1 + length messages), b2))))"

text \<open>
  Sending: one datagram after the other, or by \<open>sendmmsg\<close>, which reports how many of the remaining messages it took.
  \<open>send n\<close> is the outcome of the n-th call.
\<close>

fun send_individually :: "(nat \<Rightarrow> io_error + unit) \<Rightarrow> nat \<Rightarrow> nat list \<Rightarrow> udp_batch_send_error + unit" where
  "send_individually send sent [] = Ok ()"
| "send_individually send sent (index # rest) =
     (case send sent of
        Inl e \<Rightarrow> Err \<lparr>bs_sent = sent, bs_error = e\<rparr>
      | Inr _ \<Rightarrow> send_individually send (sent + 1) rest)"

definition sendmmsg_result :: "io_error + nat \<Rightarrow> io_error + nat" where
  "sendmmsg_result r =
     (case r of
        Inl e \<Rightarrow> Err e
      | Inr count \<Rightarrow> if count = 0 then Err (IoError WriteZero ''write zero'') else Ok count)"

function send_batch :: "(nat \<Rightarrow> io_error + nat) \<Rightarrow> nat \<Rightarrow> nat \<Rightarrow> nat \<Rightarrow> udp_batch_send_error + unit" where
  "send_batch sendmmsg call sent messages =
     (if sent < messages then
        (case sendmmsg_result (sendmmsg call) of
           Inl e \<Rightarrow> Err \<lparr>bs_sent = sent, bs_error = e\<rparr>
         | Inr count \<Rightarrow> send_batch sendmmsg (call + 1) (sent + count) messages)
      else Ok ())"
  by pat_completeness auto
termination
  by (relation "measure (\<lambda>(_, _, sent, messages). messages - sent)") (auto simp: sendmmsg_result_def split: sum.splits if_splits)

declare send_batch.simps [simp del]

subsection \<open>State\<close>

record udp_runtime_config =
  uc_bind_host :: string
  uc_session_ttl :: duration_ns
  uc_max_sessions :: nat
  uc_udp_batch_enabled :: bool

definition udp_with_bind_host :: "string \<Rightarrow> udp_runtime_config" where
  "udp_with_bind_host host =
     \<lparr>uc_bind_host = host, uc_session_ttl = 60000 * 1000000, uc_max_sessions = 65536, uc_udp_batch_enabled = True\<rparr>"

definition udp_loopback :: udp_runtime_config where
  "udp_loopback = udp_with_bind_host ''127.0.0.1''"

definition with_session_ttl :: "duration_ns \<Rightarrow> udp_runtime_config \<Rightarrow> udp_runtime_config" where
  "with_session_ttl ttl c = c\<lparr>uc_session_ttl := ttl\<rparr>"

definition with_udp_max_sessions :: "nat \<Rightarrow> udp_runtime_config \<Rightarrow> udp_runtime_config" where
  "with_udp_max_sessions n c = c\<lparr>uc_max_sessions := n\<rparr>"

definition with_udp_batch_enabled :: "bool \<Rightarrow> udp_runtime_config \<Rightarrow> udp_runtime_config" where
  "with_udp_batch_enabled enabled c = c\<lparr>uc_udp_batch_enabled := enabled\<rparr>"

record udp_entry_state =
  us_effective_host :: "string option"
  us_effective_target_port :: "u16 option"
  us_runtime_status :: runtime_status
  us_error_kind :: "error_kind option"
  us_last_error :: "string option"
  us_generation :: u64

text \<open>
  An entry. \<open>ue_receiving\<close> and \<open>ue_cleaning\<close> say whether its tasks run. The positions of tasks that another task can
  observe are part of it: \<open>ue_target\<close> is the target and generation the receive task works with, \<open>ue_inflight\<close> the
  session it has created and not yet entered, \<open>ue_draining\<close> whether an update has published a new target and
  has yet to close the sessions.
\<close>

record udp_entry =
  ue_port :: u16
  ue_state :: udp_entry_state
  ue_metrics :: listener_metrics
  ue_shutdown :: bool
  ue_receiving :: bool
  ue_cleaning :: bool
  ue_sessions :: "(peer_addr \<times> nat) list"
  ue_empty_since :: "instant_ns option"
  ue_generation :: u64
  ue_max_sessions :: nat
  ue_udp_batch_enabled :: bool
  ue_target :: "(string \<times> u16 \<times> u64) option"
  ue_inflight :: "nat option"
  ue_draining :: bool

record udp_session =
  se_entry :: nat
  se_generation :: u64
  se_client_addr :: peer_addr
  se_upstream :: "string \<times> u16"
  se_closed :: bool
  se_last_seen :: instant_ns
  se_replying :: bool
  se_guard :: bool

record udp_world =
  uw_config :: udp_runtime_config
  uw_metrics :: metrics
  uw_entries :: "(string \<times> nat) list"
  uw_heap :: "udp_entry list"
  uw_sessions :: "udp_session list"
  uw_now :: instant_ns
  uw_bind_grants :: "nat \<Rightarrow> socket_addr \<Rightarrow> bool"
  uw_bind_calls :: nat
  uw_upstream_connects :: "nat \<Rightarrow> bool"
  uw_upstream_calls :: nat

datatype session_removal_reason = Expired | DropReply | RemovalError

definition udp_runtime_new :: "udp_runtime_config \<Rightarrow> metrics \<Rightarrow> (nat \<Rightarrow> socket_addr \<Rightarrow> bool) \<Rightarrow> (nat \<Rightarrow> bool) \<Rightarrow> udp_world" where
  "udp_runtime_new config m grants connects =
     \<lparr>uw_config = config, uw_metrics = m, uw_entries = [], uw_heap = [], uw_sessions = [], uw_now = 0,
      uw_bind_grants = grants, uw_bind_calls = 0, uw_upstream_connects = connects, uw_upstream_calls = 0\<rparr>"

definition udp_count :: "(metrics \<Rightarrow> metrics) \<Rightarrow> udp_world \<Rightarrow> udp_world" where
  "udp_count f w = w\<lparr>uw_metrics := f (uw_metrics w)\<rparr>"

definition on_uentry :: "nat \<Rightarrow> (udp_entry \<Rightarrow> udp_entry) \<Rightarrow> udp_world \<Rightarrow> udp_world" where
  "on_uentry e f w = w\<lparr>uw_heap := on_nth e f (uw_heap w)\<rparr>"

definition on_session :: "nat \<Rightarrow> (udp_session \<Rightarrow> udp_session) \<Rightarrow> udp_world \<Rightarrow> udp_world" where
  "on_session s f w = w\<lparr>uw_sessions := on_nth s f (uw_sessions w)\<rparr>"

definition session_cleanup_interval :: "duration_ns \<Rightarrow> duration_ns" where
  "session_cleanup_interval ttl = min ttl MAX_SESSION_CLEANUP_INTERVAL"

subsection \<open>Sessions\<close>

text \<open>\<open>SessionGuard\<close>: taken with a session, dropped with the last reference to it.\<close>

definition session_guard_new :: "nat \<Rightarrow> udp_world \<Rightarrow> udp_world" where
  "session_guard_new e w =
     on_uentry e (\<lambda>x. x\<lparr>ue_metrics := (ue_metrics x)\<lparr>lm_active := lm_active (ue_metrics x) + 1\<rparr>\<rparr>)
       (udp_count (\<lambda>m. m\<lparr>m_udp_session_create_total := counter_inc (m_udp_session_create_total m),
                          m_udp_active_sessions := gauge_inc (m_udp_active_sessions m)\<rparr>) w)"

definition session_guard_drop :: "nat \<Rightarrow> udp_world \<Rightarrow> udp_world" where
  "session_guard_drop s w =
     (let e = se_entry (uw_sessions w ! s)
      in if se_guard (uw_sessions w ! s)
         then on_session s (\<lambda>x. x\<lparr>se_guard := False\<rparr>)
                (udp_count (\<lambda>m. m\<lparr>m_udp_active_sessions := gauge_dec (m_udp_active_sessions m)\<rparr>)
                  (on_uentry e (\<lambda>x. x\<lparr>ue_metrics := (ue_metrics x)\<lparr>lm_active := lm_active (ue_metrics x) - 1\<rparr>\<rparr>) w))
         else w)"

definition record_removal :: "session_removal_reason \<Rightarrow> metrics \<Rightarrow> metrics" where
  "record_removal reason m =
     (case reason of
        Expired \<Rightarrow> m\<lparr>m_udp_session_expire_total := counter_inc (m_udp_session_expire_total m)\<rparr>
      | DropReply \<Rightarrow> m\<lparr>m_udp_reply_drop_total := counter_inc (m_udp_reply_drop_total m)\<rparr>
      | RemovalError \<Rightarrow> m)"

definition abort_reply_task :: "nat \<Rightarrow> udp_world \<Rightarrow> udp_world" where
  "abort_reply_task s = on_session s (\<lambda>x. x\<lparr>se_replying := False\<rparr>)"

definition close_session :: "nat \<Rightarrow> udp_world \<Rightarrow> udp_world" where
  "close_session s = on_session s (\<lambda>x. x\<lparr>se_closed := True\<rparr>)"

definition spawn_reply_loop :: "nat \<Rightarrow> udp_world \<Rightarrow> udp_world" where
  "spawn_reply_loop s w =
     (if se_closed (uw_sessions w ! s) then w else on_session s (\<lambda>x. x\<lparr>se_replying := True\<rparr>) w)"

definition record_empty_since_if_empty :: "nat \<Rightarrow> udp_world \<Rightarrow> udp_world" where
  "record_empty_since_if_empty e w =
     (if ue_sessions (uw_heap w ! e) = []
      then on_uentry e (\<lambda>x. x\<lparr>ue_empty_since := Some (case ue_empty_since x of Some t \<Rightarrow> t | None \<Rightarrow> uw_now w)\<rparr>) w
      else w)"

definition remove_session :: "nat \<Rightarrow> peer_addr \<Rightarrow> nat \<Rightarrow> session_removal_reason \<Rightarrow> udp_world \<Rightarrow> udp_world" where
  "remove_session e client expected reason w =
     (if map_of (ue_sessions (uw_heap w ! e)) client = Some expected
      then record_empty_since_if_empty e
             (abort_reply_task expected
               (udp_count (record_removal reason)
                 (close_session expected
                   (on_uentry e (\<lambda>x. x\<lparr>ue_sessions := AList.delete client (ue_sessions x)\<rparr>) w))))
      else w)"

text \<open>
  \<open>session_for\<close> in its two critical sections. The first looks the client up and checks the limit; without the lock a
  session is created; the second enters it, unless another one is there or the target has changed.
\<close>

datatype session_lookup = Found nat | Full | Absent

definition lookup_session :: "nat \<Rightarrow> peer_addr \<Rightarrow> u64 \<Rightarrow> udp_world \<Rightarrow> session_lookup" where
  "lookup_session e client generation w =
     (let x = uw_heap w ! e
      in case map_of (ue_sessions x) client of
           Some s \<Rightarrow> if se_generation (uw_sessions w ! s) = generation then Found s
                     else if ue_max_sessions x \<le> length (ue_sessions x) then Full else Absent
         | None \<Rightarrow> if ue_max_sessions x \<le> length (ue_sessions x) then Full else Absent)"

definition create_session :: "nat \<Rightarrow> peer_addr \<Rightarrow> string \<Rightarrow> u16 \<Rightarrow> u64 \<Rightarrow> udp_world \<Rightarrow> nat option \<times> udp_world" where
  "create_session e client host target_port generation w =
     (let connects = uw_upstream_connects w (uw_upstream_calls w);
          w = w\<lparr>uw_upstream_calls := uw_upstream_calls w + 1\<rparr>
      in if connects
         then (Some (length (uw_sessions w)),
               (session_guard_new e w)\<lparr>uw_sessions := uw_sessions w @
                  [\<lparr>se_entry = e, se_generation = generation, se_client_addr = client, se_upstream = (host, target_port),
                    se_closed = False, se_last_seen = uw_now w, se_replying = False, se_guard = True\<rparr>]\<rparr>)
         else (None, udp_count (\<lambda>m. m\<lparr>m_udp_send_errors_total := counter_inc (m_udp_send_errors_total m),
                                        m_udp_drop_total := counter_inc (m_udp_drop_total m)\<rparr>) w))"

definition enter_session :: "nat \<Rightarrow> peer_addr \<Rightarrow> u64 \<Rightarrow> nat \<Rightarrow> udp_world \<Rightarrow> nat option \<times> udp_world" where
  "enter_session e client generation s w =
     (let x = uw_heap w ! e
      in case map_of (ue_sessions x) client of
           Some existing \<Rightarrow>
             if se_generation (uw_sessions w ! existing) = generation then (Some existing, w)
             else if ue_generation x \<noteq> generation
             then (None, udp_count (\<lambda>m. m\<lparr>m_udp_reply_stale_total := counter_inc (m_udp_reply_stale_total m)\<rparr>) w)
             else (Some s, spawn_reply_loop s
                     (abort_reply_task existing
                       (udp_count (\<lambda>m. m\<lparr>m_udp_reply_drop_total := counter_inc (m_udp_reply_drop_total m)\<rparr>)
                         (close_session existing
                           (on_uentry e (\<lambda>x. x\<lparr>ue_sessions := AList.update client s (ue_sessions x), ue_empty_since := None\<rparr>) w)))))
         | None \<Rightarrow>
             if ue_generation x \<noteq> generation
             then (None, udp_count (\<lambda>m. m\<lparr>m_udp_reply_stale_total := counter_inc (m_udp_reply_stale_total m)\<rparr>) w)
             else (Some s, spawn_reply_loop s
                     (on_uentry e (\<lambda>x. x\<lparr>ue_sessions := AList.update client s (ue_sessions x), ue_empty_since := None\<rparr>) w)))"

definition session_for :: "nat \<Rightarrow> peer_addr \<Rightarrow> string \<Rightarrow> u16 \<Rightarrow> u64 \<Rightarrow> udp_world \<Rightarrow> nat option \<times> udp_world" where
  "session_for e client host target_port generation w =
     (case lookup_session e client generation w of
        Found s \<Rightarrow> (Some s, w)
      | Full \<Rightarrow> (None, udp_count (\<lambda>m. m\<lparr>m_udp_drop_total := counter_inc (m_udp_drop_total m)\<rparr>) w)
      | Absent \<Rightarrow>
          (case create_session e client host target_port generation w of
             (None, w1) \<Rightarrow> (None, w1)
           | (Some s, w1) \<Rightarrow>
               (case enter_session e client generation s w1 of
                  (res, w2) \<Rightarrow> (res, if res = Some s then w2 else session_guard_drop s w2))))"

subsection \<open>Idle sessions\<close>

fun expire_each :: "nat \<Rightarrow> duration_ns \<Rightarrow> instant_ns \<Rightarrow> (peer_addr \<times> nat) list \<Rightarrow> udp_world \<Rightarrow> udp_world" where
  "expire_each e session_ttl now [] w = w"
| "expire_each e session_ttl now ((client, s) # rest) w =
     expire_each e session_ttl now rest
       (if session_ttl < now - se_last_seen (uw_sessions w ! s) then remove_session e client s Expired w else w)"

definition expire_idle_sessions :: "nat \<Rightarrow> duration_ns \<Rightarrow> udp_world \<Rightarrow> udp_world" where
  "expire_idle_sessions e session_ttl w = expire_each e session_ttl (uw_now w) (ue_sessions (uw_heap w ! e)) w"

text \<open>Shrinking an empty table only gives memory back.\<close>

definition compact_empty_sessions_after_idle :: "nat \<Rightarrow> duration_ns \<Rightarrow> udp_world \<Rightarrow> udp_world" where
  "compact_empty_sessions_after_idle e idle_grace w =
     (case ue_empty_since (uw_heap w ! e) of
        None \<Rightarrow> w
      | Some since \<Rightarrow>
          if uw_now w - since < idle_grace then w
          else on_uentry e (\<lambda>x. x\<lparr>ue_empty_since := None\<rparr>) w)"

definition cleanup_tick :: "nat \<Rightarrow> duration_ns \<Rightarrow> udp_world \<Rightarrow> udp_world" where
  "cleanup_tick e session_ttl w =
     compact_empty_sessions_after_idle e session_ttl (expire_idle_sessions e session_ttl w)"

subsection \<open>Replies\<close>

definition is_current :: "nat \<Rightarrow> udp_world \<Rightarrow> bool" where
  "is_current s w \<longleftrightarrow>
     (let x = uw_heap w ! se_entry (uw_sessions w ! s)
      in map_of (ue_sessions x) (se_client_addr (uw_sessions w ! s)) = Some s \<and>
         se_generation (uw_sessions w ! s) = ue_generation x)"

text \<open>
  One turn of the reply loop: \<open>received\<close> is what the upstream socket yields, \<open>sent\<close> what sending it to the
  client yields. The result is the datagram handed to the listener socket, if any.
\<close>

definition reply_turn :: "nat \<Rightarrow> io_error + u8 list \<Rightarrow> io_error + nat \<Rightarrow> udp_world \<Rightarrow> (peer_addr \<times> u8 list) option \<times> udp_world" where
  "reply_turn s received sent w =
     (let x = uw_sessions w ! s; e = se_entry x
      in case received of
           Inl _ \<Rightarrow>
             (None, abort_reply_task s (remove_session e (se_client_addr x) s RemovalError
                (udp_count (\<lambda>m. m\<lparr>m_udp_recv_errors_total := counter_inc (m_udp_recv_errors_total m)\<rparr>) w)))
         | Inr payload \<Rightarrow>
             if \<not> is_current s w
             then (None, abort_reply_task s (udp_count (\<lambda>m. m\<lparr>m_udp_reply_stale_total := counter_inc (m_udp_reply_stale_total m)\<rparr>)
                     (close_session s w)))
             else case sent of
                    Inr n \<Rightarrow>
                      (Some (se_client_addr x, payload),
                       on_session s (\<lambda>y. y\<lparr>se_last_seen := uw_now w\<rparr>)
                         (on_uentry e (\<lambda>y. y\<lparr>ue_metrics := (ue_metrics y)\<lparr>lm_tx := lm_tx (ue_metrics y) + of_nat n\<rparr>\<rparr>)
                           (udp_count (\<lambda>m. m\<lparr>m_udp_reply_primary_total := counter_inc (m_udp_reply_primary_total m),
                              m_udp_packets_out_total := counter_inc (m_udp_packets_out_total m),
                              m_udp_bytes_out_total := counter_add (of_nat n) (m_udp_bytes_out_total m)\<rparr>) w)))
                  | Inl _ \<Rightarrow>
                      (None, abort_reply_task s (remove_session e (se_client_addr x) s RemovalError
                         (udp_count (\<lambda>m. m\<lparr>m_udp_send_errors_total := counter_inc (m_udp_send_errors_total m),
                            m_udp_reply_drop_total := counter_inc (m_udp_reply_drop_total m)\<rparr>) w))))"

subsection \<open>Receiving\<close>

text \<open>
  \<open>prepare_datagram_batch\<close>: a session for every datagram, found once per peer; then, if the target changed meanwhile,
  all are dropped, and otherwise those that are closed or of another generation.
\<close>

definition previous_session :: "peer_addr option list \<Rightarrow> nat option list \<Rightarrow> nat \<Rightarrow> nat option" where
  "previous_session peers found index =
     (case find (\<lambda>k. peers ! k = peers ! index) [0..<index] of Some k \<Rightarrow> found ! k | None \<Rightarrow> None)"

fun assign_sessions :: "nat \<Rightarrow> string \<Rightarrow> u16 \<Rightarrow> u64 \<Rightarrow> peer_addr option list \<Rightarrow> nat list \<Rightarrow> nat option list \<Rightarrow> udp_world \<Rightarrow>
    nat option list \<times> udp_world" where
  "assign_sessions e host target_port generation peers [] found w = (found, w)"
| "assign_sessions e host target_port generation peers (index # rest) found w =
     (case previous_session peers found index of
        Some s \<Rightarrow> assign_sessions e host target_port generation peers rest (found @ [Some s]) w
      | None \<Rightarrow>
          (case peers ! index of
             None \<Rightarrow> assign_sessions e host target_port generation peers rest (found @ [None]) w
           | Some peer \<Rightarrow>
               (case session_for e peer host target_port generation w of
                  (s, w1) \<Rightarrow> assign_sessions e host target_port generation peers rest (found @ [s]) w1)))"

fun keep_fresh :: "u64 \<Rightarrow> nat option list \<Rightarrow> nat option list \<Rightarrow> udp_world \<Rightarrow> nat option list \<times> udp_world" where
  "keep_fresh generation kept [] w = (kept, w)"
| "keep_fresh generation kept (None # rest) w = keep_fresh generation (kept @ [None]) rest w"
| "keep_fresh generation kept (Some s # rest) w =
     (if se_generation (uw_sessions w ! s) \<noteq> generation \<or> se_closed (uw_sessions w ! s)
      then keep_fresh generation (kept @ [None]) rest
             (udp_count (\<lambda>m. m\<lparr>m_udp_reply_stale_total := counter_inc (m_udp_reply_stale_total m)\<rparr>) (close_session s w))
      else keep_fresh generation (kept @ [Some s]) rest
             (if Some s \<in> set kept then w else on_session s (\<lambda>x. x\<lparr>se_last_seen := uw_now w\<rparr>) w))"

definition close_found :: "nat option list \<Rightarrow> udp_world \<Rightarrow> udp_world" where
  "close_found found w = fold close_session (List.map_filter (\<lambda>x. x) found) w"

text \<open>The receive task reads the target under the lock and works with what it has read.\<close>

definition capture_target :: "nat \<Rightarrow> udp_world \<Rightarrow> udp_world" where
  "capture_target e w =
     (let st = ue_state (uw_heap w ! e)
      in on_uentry e (\<lambda>x. x\<lparr>ue_target := (case (us_effective_host st, us_effective_target_port st) of
           (Some h, Some p) \<Rightarrow> Some (h, p, us_generation st) | _ \<Rightarrow> None)\<rparr>) w)"

definition prepare_datagram_batch :: "nat \<Rightarrow> udp_receive_batch \<Rightarrow> nat \<Rightarrow> udp_world \<Rightarrow> nat option list \<times> udp_world" where
  "prepare_datagram_batch e batch count w =
     (let state = ue_state (uw_heap w ! e); generation = us_generation state; w = capture_target e w
      in case (us_effective_host state, us_effective_target_port state) of
           (Some host, Some target_port) \<Rightarrow>
             (case assign_sessions e host target_port generation (rb_peers batch) [0..<count] [] w of
                (found, w1) \<Rightarrow>
                  if ue_generation (uw_heap w1 ! e) \<noteq> generation
                  then (replicate count None,
                        udp_count (\<lambda>m. m\<lparr>m_udp_reply_stale_total :=
                          counter_add (of_nat (length (List.map_filter (\<lambda>x. x) found))) (m_udp_reply_stale_total m)\<rparr>)
                          (close_found found w1))
                  else keep_fresh generation [] found w1)
         | _ \<Rightarrow>
             (replicate count None,
              udp_count (\<lambda>m. m\<lparr>m_rejected_no_host_total := counter_add (of_nat count) (m_rejected_no_host_total m)\<rparr>) w))"

text \<open>
  The datagrams of a batch are grouped by session, in the order in which sessions first occur: at a position that no
  group holds yet, the positions of the same session from there on form the next group.
\<close>

fun group_from :: "nat option list \<Rightarrow> nat list \<Rightarrow> nat list \<Rightarrow> (nat \<times> nat list) list" where
  "group_from sessions grouped [] = []"
| "group_from sessions grouped (first # rest) =
     (case sessions ! first of
        None \<Rightarrow> group_from sessions grouped rest
      | Some s \<Rightarrow>
          if first \<in> set grouped then group_from sessions grouped rest
          else let indexes = filter (\<lambda>i. sessions ! i = Some s) [first..<length sessions]
               in (s, indexes) # group_from sessions (grouped @ indexes) rest)"

definition group_batch :: "nat option list \<Rightarrow> (nat \<times> nat list) list" where
  "group_batch sessions = group_from sessions [] [0..<length sessions]"

text \<open>Sending one group; \<open>batched\<close> and \<open>single\<close> are the outcomes of the socket calls for the k-th group.\<close>

definition send_group :: "bool \<Rightarrow> (nat \<Rightarrow> io_error + nat) \<Rightarrow> (nat \<Rightarrow> io_error + unit) \<Rightarrow> nat list \<Rightarrow> udp_batch_send_error + unit" where
  "send_group batch_enabled batched single indexes =
     (if batch_enabled \<and> 1 < length indexes then send_batch batched 0 0 (length indexes)
      else send_individually single 0 indexes)"

definition group_sent :: "nat \<Rightarrow> nat \<Rightarrow> nat list \<Rightarrow> udp_batch_send_error + unit \<Rightarrow> udp_world \<Rightarrow> udp_world" where
  "group_sent e s indexes result w =
     (case result of
        Inr _ \<Rightarrow> w
      | Inl err \<Rightarrow>
          remove_session e (se_client_addr (uw_sessions w ! s)) s RemovalError
            (udp_count (\<lambda>m. m\<lparr>m_udp_send_errors_total := counter_inc (m_udp_send_errors_total m),
               m_udp_drop_total := counter_add (of_nat (length indexes - bs_sent err)) (m_udp_drop_total m)\<rparr>) w))"

fun send_groups :: "nat \<Rightarrow> (nat \<Rightarrow> nat \<Rightarrow> io_error + nat) \<Rightarrow> (nat \<Rightarrow> nat \<Rightarrow> io_error + unit) \<Rightarrow> nat \<Rightarrow> (nat \<times> nat list) list \<Rightarrow>
    udp_world \<Rightarrow> udp_world" where
  "send_groups e batched single k [] w = w"
| "send_groups e batched single k ((s, indexes) # rest) w =
     send_groups e batched single (k + 1) rest
       (group_sent e s indexes (send_group (ue_udp_batch_enabled (uw_heap w ! e)) (batched k) (single k) indexes) w)"

definition count_received :: "nat \<Rightarrow> udp_receive_batch \<Rightarrow> nat \<Rightarrow> udp_world \<Rightarrow> udp_world" where
  "count_received e batch count w =
     (let bytes = of_nat (sum_list (take count (rb_lengths batch)));
          w = (if ue_udp_batch_enabled (uw_heap w ! e)
               then udp_count (\<lambda>m. m\<lparr>m_udp_batch_calls_total := counter_inc (m_udp_batch_calls_total m),
                      m_udp_batch_messages_total := counter_add (of_nat count) (m_udp_batch_messages_total m)\<rparr>) w else w)
      in on_uentry e (\<lambda>x. x\<lparr>ue_metrics := (ue_metrics x)\<lparr>lm_rx := lm_rx (ue_metrics x) + bytes\<rparr>\<rparr>)
           (udp_count (\<lambda>m. m\<lparr>m_udp_packets_in_total := counter_add (of_nat count) (m_udp_packets_in_total m),
              m_udp_bytes_in_total := counter_add bytes (m_udp_bytes_in_total m)\<rparr>) w))"

text \<open>One turn of the receive loop, from the outcome of the receive; a receive error ends the loop.\<close>

definition receive_turn :: "nat \<Rightarrow> (nat \<Rightarrow> nat \<Rightarrow> io_error + nat) \<Rightarrow> (nat \<Rightarrow> nat \<Rightarrow> io_error + unit) \<Rightarrow>
    (io_error + nat) \<times> udp_receive_batch \<Rightarrow> udp_world \<Rightarrow> udp_receive_batch \<times> udp_world" where
  "receive_turn e batched single received w =
     (case received of
        (Inl _, batch) \<Rightarrow>
          (batch, on_uentry e (\<lambda>x. x\<lparr>ue_receiving := False\<rparr>)
             (udp_count (\<lambda>m. m\<lparr>m_udp_recv_errors_total := counter_inc (m_udp_recv_errors_total m)\<rparr>) w))
      | (Inr count, batch) \<Rightarrow>
          (case prepare_datagram_batch e batch count (count_received e batch count w) of
             (sessions, w1) \<Rightarrow>
               (grow_if_saturated count batch, send_groups e batched single 0 (group_batch sessions) w1)))"

subsection \<open>Closing\<close>

fun close_each :: "bool \<Rightarrow> nat list \<Rightarrow> udp_world \<Rightarrow> udp_world" where
  "close_each count_as_reply_drop [] w = w"
| "close_each count_as_reply_drop (s # rest) w =
     close_each count_as_reply_drop rest
       (abort_reply_task s
         (if count_as_reply_drop then udp_count (record_removal DropReply) (close_session s w) else close_session s w))"

definition udp_close_sessions :: "nat \<Rightarrow> bool \<Rightarrow> udp_world \<Rightarrow> udp_world" where
  "udp_close_sessions e count_as_reply_drop w =
     (let drained = map snd (ue_sessions (uw_heap w ! e))
      in on_uentry e (\<lambda>x. x\<lparr>ue_empty_since := Some (uw_now w)\<rparr>)
           (close_each count_as_reply_drop drained (on_uentry e (\<lambda>x. x\<lparr>ue_sessions := []\<rparr>) w)))"

definition udp_stop_entry :: "nat \<Rightarrow> bool \<Rightarrow> udp_world \<Rightarrow> udp_world" where
  "udp_stop_entry e count_as_reply_drop w =
     udp_close_sessions e count_as_reply_drop
       (on_uentry e (\<lambda>x. x\<lparr>ue_shutdown := True, ue_receiving := False, ue_cleaning := False, ue_target := None, ue_inflight := None\<rparr>) w)"

definition udp_shutdown_all :: "udp_world \<Rightarrow> udp_world" where
  "udp_shutdown_all w = fold (\<lambda>e. udp_stop_entry e False) (map snd (uw_entries w)) (w\<lparr>uw_entries := []\<rparr>)"

text \<open>
  The best-effort variant that runs when the runtime is dropped: a lock that another task holds is passed over.
\<close>

record free_locks =
  fl_receive_task :: bool
  fl_cleanup_task :: bool
  fl_sessions :: bool
  fl_reply_task :: "nat \<Rightarrow> bool"

definition stop_entry_best_effort :: "free_locks \<Rightarrow> nat \<Rightarrow> udp_world \<Rightarrow> udp_world" where
  "stop_entry_best_effort locks e w =
     (let w = on_uentry e (\<lambda>x. x\<lparr>ue_shutdown := True,
            ue_receiving := (ue_receiving x \<and> \<not> fl_receive_task locks), ue_cleaning := (ue_cleaning x \<and> \<not> fl_cleanup_task locks)\<rparr>) w
      in if fl_sessions locks
         then fold (\<lambda>s w. (if fl_reply_task locks s then abort_reply_task s else (\<lambda>w. w)) (close_session s w))
                (map snd (ue_sessions (uw_heap w ! e))) (on_uentry e (\<lambda>x. x\<lparr>ue_sessions := []\<rparr>) w)
         else w)"

definition shutdown_all_best_effort :: "bool \<Rightarrow> (nat \<Rightarrow> free_locks) \<Rightarrow> udp_world \<Rightarrow> udp_world" where
  "shutdown_all_best_effort entries_free locks w =
     (if entries_free then fold (\<lambda>e. stop_entry_best_effort (locks e) e) (map snd (uw_entries w)) (w\<lparr>uw_entries := []\<rparr>) else w)"

definition udp_runtime_drop :: "nat \<Rightarrow> bool \<Rightarrow> (nat \<Rightarrow> free_locks) \<Rightarrow> udp_world \<Rightarrow> udp_world" where
  "udp_runtime_drop strong_count entries_free locks w =
     (if strong_count = 1 then shutdown_all_best_effort entries_free locks w else w)"

subsection \<open>The facade\<close>

definition udp_entry_state_for :: "allocation \<Rightarrow> udp_entry_state" where
  "udp_entry_state_for a =
     (case (a_host a, a_target_port a) of
        (Some host, Some target_port) \<Rightarrow>
          \<lparr>us_effective_host = Some host, us_effective_target_port = Some target_port, us_runtime_status = Active,
           us_error_kind = None, us_last_error = None, us_generation = 0\<rparr>
      | _ \<Rightarrow>
          \<lparr>us_effective_host = None, us_effective_target_port = None, us_runtime_status = RejectingNoHost,
           us_error_kind = None, us_last_error = None, us_generation = 0\<rparr>)"

definition udp_bind_addr :: "udp_runtime_config \<Rightarrow> u16 \<Rightarrow> runtime_error + socket_addr" where
  "udp_bind_addr config port =
     map_ok (\<lambda>host. (host, port)) (ok_or (ip_addr_from_str (uc_bind_host config)) RuntimeCreateFailed)"

definition udp_bind :: "socket_addr \<Rightarrow> udp_world \<Rightarrow> bool \<times> udp_world" where
  "udp_bind addr w = (uw_bind_grants w (uw_bind_calls w) addr, w\<lparr>uw_bind_calls := uw_bind_calls w + 1\<rparr>)"

definition udp_new_entry :: "udp_runtime_config \<Rightarrow> allocation \<Rightarrow> udp_entry" where
  "udp_new_entry config a =
     \<lparr>ue_port = a_port a, ue_state = udp_entry_state_for a, ue_metrics = listener_metrics_default, ue_shutdown = False,
      ue_receiving = True, ue_cleaning = True, ue_sessions = [], ue_empty_since = None, ue_generation = 0,
      ue_max_sessions = uc_max_sessions config, ue_udp_batch_enabled = uc_udp_batch_enabled config,
      ue_target = None, ue_inflight = None, ue_draining = False\<rparr>"

definition udp_bind_entry :: "allocation \<Rightarrow> bool \<Rightarrow> (udp_world, runtime_error, nat) action" where
  "udp_bind_entry a restore w =
     (case udp_bind_addr (uw_config w) (a_port a) of
        Inl _ \<Rightarrow> (Err (if restore then RuntimeRestoreFailed else RuntimeCreateFailed), w)
      | Inr addr \<Rightarrow>
          (case udp_bind addr w of
             (False, w1) \<Rightarrow>
               (let w2 = udp_count (\<lambda>m. m\<lparr>m_bind_fail_total := counter_inc (m_bind_fail_total m)\<rparr>) w1
                in if restore
                   then (Err RuntimeRestoreFailed,
                         udp_count (\<lambda>m. m\<lparr>m_restore_failures_total := counter_inc (m_restore_failures_total m)\<rparr>) w2)
                   else (Err RuntimeCreateFailed, w2))
           | (True, w1) \<Rightarrow> (Ok (length (uw_heap w1)), w1\<lparr>uw_heap := uw_heap w1 @ [udp_new_entry (uw_config w1) a]\<rparr>)))"

definition udp_open :: "allocation \<Rightarrow> bool \<Rightarrow> (udp_world, runtime_error, unit) action" where
  "udp_open a restore w =
     (if a_protocol a \<noteq> Udp then (Ok (), w)
      else case udp_bind_entry a restore w of
             (Inl e, w1) \<Rightarrow> (Err e, w1)
           | (Inr e, w1) \<Rightarrow>
               (Ok (), udp_count (\<lambda>m. m\<lparr>m_runtime_apply_total := counter_inc (m_runtime_apply_total m)\<rparr>)
                  (w1\<lparr>uw_entries := AList.update (a_id a) e (uw_entries w1)\<rparr>)))"

definition udp_initialize :: "u32 \<Rightarrow> (udp_world, runtime_error, unit) action" where
  "udp_initialize timeout_ms = return ()"

definition udp_create :: "allocation \<Rightarrow> u32 \<Rightarrow> (udp_world, runtime_error, unit) action" where
  "udp_create a timeout_ms = udp_open a False"

definition udp_restore :: "allocation \<Rightarrow> u32 \<Rightarrow> (udp_world, runtime_error, unit) action" where
  "udp_restore a timeout_ms = udp_open a True"

text \<open>An update publishes the new target under a new generation and then closes the sessions.\<close>

definition publish_target :: "allocation \<Rightarrow> nat \<Rightarrow> udp_world \<Rightarrow> udp_world" where
  "publish_target a e w =
     (let new_state = udp_entry_state_for a;
          w = (if us_runtime_status new_state = RejectingNoHost
               then udp_count (\<lambda>m. m\<lparr>m_rejected_no_host_total := counter_inc (m_rejected_no_host_total m)\<rparr>) w else w)
      in on_uentry e (\<lambda>x. let g = saturating_add (us_generation (ue_state x)) 1
           in x\<lparr>ue_state := new_state\<lparr>us_generation := g\<rparr>, ue_generation := g, ue_draining := True\<rparr>) w)"

definition finish_update :: "nat \<Rightarrow> udp_world \<Rightarrow> udp_world" where
  "finish_update e w =
     udp_count (\<lambda>m. m\<lparr>m_runtime_apply_total := counter_inc (m_runtime_apply_total m)\<rparr>)
       (on_uentry e (\<lambda>x. x\<lparr>ue_draining := False\<rparr>) (udp_close_sessions e True w))"

definition udp_update :: "allocation \<Rightarrow> u32 \<Rightarrow> (udp_world, runtime_error, unit) action" where
  "udp_update a timeout_ms w =
     (case map_of (uw_entries w) (a_id a) of
        None \<Rightarrow> (Err RuntimeUpdateFailed, w)
      | Some e \<Rightarrow> (Ok (), finish_update e (publish_target a e w)))"

definition udp_delete :: "string \<Rightarrow> u32 \<Rightarrow> (udp_world, runtime_error, unit) action" where
  "udp_delete i timeout_ms w =
     (case map_of (uw_entries w) i of
        None \<Rightarrow> (Ok (), w)
      | Some e \<Rightarrow> (Ok (), udp_stop_entry e True (w\<lparr>uw_entries := AList.delete i (uw_entries w)\<rparr>)))"

definition observed_of_udp :: "udp_entry_state \<Rightarrow> observed_state" where
  "observed_of_udp s =
     \<lparr>os_effective_target_port = us_effective_target_port s, os_effective_host = us_effective_host s,
      os_runtime_status = us_runtime_status s, os_error_kind = us_error_kind s, os_last_error = us_last_error s\<rparr>"

definition udp_snapshot :: "string \<Rightarrow> udp_world \<Rightarrow> runtime_error + observed_state option" where
  "udp_snapshot i w = Ok (map_option (\<lambda>e. observed_of_udp (ue_state (uw_heap w ! e))) (map_of (uw_entries w) i))"

definition udp_snapshot_listener_metrics :: "udp_world \<Rightarrow> runtime_error + listener_metrics_snapshot list" where
  "udp_snapshot_listener_metrics w =
     Ok (map (\<lambda>(_, e). let x = uw_heap w ! e in
           \<lparr>lms_port = ue_port x, lms_protocol = Udp, lms_connections_current = lm_active (ue_metrics x),
            lms_rx_bytes_total = lm_rx (ue_metrics x), lms_tx_bytes_total = lm_tx (ue_metrics x)\<rparr>) (uw_entries w))"

definition udp_facade :: "udp_world runtime_facade" where
  "udp_facade =
     \<lparr>rf_initialize = udp_initialize, rf_create = udp_create, rf_update = udp_update, rf_delete = udp_delete,
      rf_restore = udp_restore, rf_snapshot = udp_snapshot, rf_snapshot_listener_metrics = udp_snapshot_listener_metrics\<rparr>"

end
