(* ===== verification/Relayd_Udp_Sessions.thy ===== *)
theory Relayd_Udp_Sessions
  imports Relayd_Udp
begin

text \<open>
  The UDP relay as a transition system. The receive task works on a target it has read before, creates
  sessions without holding the table and enters them later; updates publish a target and close the sessions in a
  second step; reply tasks, the cleanup task and the facade run in between. The invariants bound the
  session tables, tie every session to the target of its generation, and keep the gauges exact.
\<close>

subsection \<open>Steps\<close>

text \<open>
  The receive task creates a session and enters it in two steps. A step may count at any time: no counter but
  the gauge of active sessions matters here.
\<close>

definition begin_session :: "nat \<Rightarrow> peer_addr \<Rightarrow> string \<Rightarrow> u16 \<Rightarrow> u64 \<Rightarrow> udp_world \<Rightarrow> udp_world" where
  "begin_session e client h p g w =
     (case create_session e client h p g w of (s, w1) \<Rightarrow> on_uentry e (\<lambda>x. x\<lparr>ue_inflight := s\<rparr>) w1)"

definition finish_session :: "nat \<Rightarrow> nat \<Rightarrow> udp_world \<Rightarrow> udp_world" where
  "finish_session e s w =
     (let x = uw_sessions w ! s; w = on_uentry e (\<lambda>y. y\<lparr>ue_inflight := None\<rparr>) w
      in case enter_session e (se_client_addr x) (se_generation x) s w of
           (res, w1) \<Rightarrow> if res = Some s then w1 else session_guard_drop s w1)"

text \<open>
  Updates of one listener may overlap, so sessions may be closed at any time (\<open>drain\<close>).
  The generation counter saturates; runs with \<open>2 ^ 64 - 1\<close> updates of one listener are left out.
\<close>

inductive udp_step :: "udp_world \<Rightarrow> udp_world \<Rightarrow> bool" where
  time_passes: "uw_now w \<le> t \<Longrightarrow> udp_step w (w\<lparr>uw_now := t\<rparr>)"
| counted: "(\<forall>m. m_udp_active_sessions (h m) = m_udp_active_sessions m) \<Longrightarrow> udp_step w (udp_count h w)"
| received: "e < length (uw_heap w) \<Longrightarrow> ue_receiving (uw_heap w ! e) \<Longrightarrow> udp_step w (count_received e batch count w)"
| receive_failed: "e < length (uw_heap w) \<Longrightarrow> ue_receiving (uw_heap w ! e) \<Longrightarrow> ue_inflight (uw_heap w ! e) = None \<Longrightarrow>
    udp_step w (on_uentry e (\<lambda>x. x\<lparr>ue_receiving := False\<rparr>) w)"
| capture: "e < length (uw_heap w) \<Longrightarrow> ue_receiving (uw_heap w ! e) \<Longrightarrow> ue_inflight (uw_heap w ! e) = None \<Longrightarrow>
    udp_step w (capture_target e w)"
| open_session: "e < length (uw_heap w) \<Longrightarrow> ue_receiving (uw_heap w ! e) \<Longrightarrow> ue_inflight (uw_heap w ! e) = None \<Longrightarrow>
    ue_target (uw_heap w ! e) = Some (h, p, g) \<Longrightarrow> lookup_session e client g w = Absent \<Longrightarrow> udp_step w (begin_session e client h p g w)"
| enter: "e < length (uw_heap w) \<Longrightarrow> ue_receiving (uw_heap w ! e) \<Longrightarrow> ue_inflight (uw_heap w ! e) = Some s \<Longrightarrow>
    udp_step w (finish_session e s w)"
| touch: "s < length (uw_sessions w) \<Longrightarrow> udp_step w (on_session s (\<lambda>x. x\<lparr>se_last_seen := uw_now w\<rparr>) w)"
| mark_closed: "s < length (uw_sessions w) \<Longrightarrow> udp_step w (close_session s w)"
| group_done: "e < length (uw_heap w) \<Longrightarrow> s < length (uw_sessions w) \<Longrightarrow> udp_step w (group_sent e s indexes result w)"
| reply: "s < length (uw_sessions w) \<Longrightarrow> se_replying (uw_sessions w ! s) \<Longrightarrow> udp_step w (snd (reply_turn s datagram sent w))"
| reply_stops: "s < length (uw_sessions w) \<Longrightarrow> se_replying (uw_sessions w ! s) \<Longrightarrow> se_closed (uw_sessions w ! s) \<Longrightarrow>
    udp_step w (abort_reply_task s w)"
| release: "s < length (uw_sessions w) \<Longrightarrow> \<not> se_replying (uw_sessions w ! s) \<Longrightarrow>
    s \<notin> snd ` set (ue_sessions (uw_heap w ! se_entry (uw_sessions w ! s))) \<Longrightarrow>
    ue_inflight (uw_heap w ! se_entry (uw_sessions w ! s)) \<noteq> Some s \<Longrightarrow> udp_step w (session_guard_drop s w)"
| cleanup: "e < length (uw_heap w) \<Longrightarrow> ue_cleaning (uw_heap w ! e) \<Longrightarrow> udp_step w (cleanup_tick e ttl w)"
| create: "map_of (uw_entries w) (a_id a) = None \<Longrightarrow> udp_step w (snd (udp_create a t w))"
| restore: "map_of (uw_entries w) (a_id a) = None \<Longrightarrow> udp_step w (snd (udp_restore a t w))"
| publish: "map_of (uw_entries w) (a_id a) = Some e \<Longrightarrow> ue_generation (uw_heap w ! e) \<noteq> - 1 \<Longrightarrow> udp_step w (publish_target a e w)"
| drain: "e < length (uw_heap w) \<Longrightarrow> udp_step w (finish_update e w)"
| delete: "udp_step w (snd (udp_delete k t w))"
| shutdown: "udp_step w (udp_shutdown_all w)"

subsection \<open>Invariants\<close>

definition gen_matches :: "udp_entry \<Rightarrow> u64 \<Rightarrow> string \<Rightarrow> u16 \<Rightarrow> bool" where
  "gen_matches x g h p \<longleftrightarrow> g \<le> ue_generation x \<and>
     (g = ue_generation x \<longrightarrow> us_effective_host (ue_state x) = Some h \<and> us_effective_target_port (ue_state x) = Some p)"

definition holds_session :: "udp_world \<Rightarrow> nat \<Rightarrow> nat \<Rightarrow> bool" where
  "holds_session w e s \<longleftrightarrow> s < length (uw_sessions w) \<and> se_entry (uw_sessions w ! s) = e \<and> se_guard (uw_sessions w ! s)"

definition uentry_ok :: "udp_world \<Rightarrow> nat \<Rightarrow> bool" where
  "uentry_ok w e \<longleftrightarrow> (let x = uw_heap w ! e in
     distinct (map fst (ue_sessions x)) \<and> length (ue_sessions x) \<le> ue_max_sessions x \<and>
     (\<forall>(c, s) \<in> set (ue_sessions x). holds_session w e s \<and> se_client_addr (uw_sessions w ! s) = c) \<and>
     (\<forall>s. ue_inflight x = Some s \<longrightarrow> length (ue_sessions x) < ue_max_sessions x \<and> holds_session w e s) \<and>
     us_generation (ue_state x) = ue_generation x \<and>
     (\<forall>h p g. ue_target x = Some (h, p, g) \<longrightarrow> gen_matches x g h p) \<and>
     (\<not> ue_draining x \<longrightarrow> (\<forall>(c, s) \<in> set (ue_sessions x). se_generation (uw_sessions w ! s) = ue_generation x)))"

definition session_ok :: "udp_world \<Rightarrow> udp_session \<Rightarrow> bool" where
  "session_ok w s \<longleftrightarrow> se_entry s < length (uw_heap w) \<and>
     gen_matches (uw_heap w ! se_entry s) (se_generation s) (fst (se_upstream s)) (snd (se_upstream s))"

definition sessions_inv :: "udp_world \<Rightarrow> bool" where
  "sessions_inv w \<longleftrightarrow> (\<forall>e < length (uw_heap w). uentry_ok w e) \<and> (\<forall>s < length (uw_sessions w). session_ok w (uw_sessions w ! s))"

definition ugauges_ok :: "udp_world \<Rightarrow> bool" where
  "ugauges_ok w \<longleftrightarrow>
     (\<forall>e < length (uw_heap w). lm_active (ue_metrics (uw_heap w ! e)) = of_nat (count_if (\<lambda>s. se_entry s = e \<and> se_guard s) (uw_sessions w))) \<and>
     m_udp_active_sessions (uw_metrics w) = of_nat (count_if se_guard (uw_sessions w))"

definition uentry_stopped :: "udp_entry \<Rightarrow> bool" where
  "uentry_stopped x \<longleftrightarrow> \<not> ue_receiving x \<and> \<not> ue_cleaning x \<and> ue_sessions x = [] \<and> ue_inflight x = None"

definition utable_ok :: "udp_world \<Rightarrow> bool" where
  "utable_ok w \<longleftrightarrow> distinct (map fst (uw_entries w)) \<and> distinct (map snd (uw_entries w)) \<and>
     snd ` set (uw_entries w) \<subseteq> {..<length (uw_heap w)} \<and>
     (\<forall>e < length (uw_heap w). e \<notin> snd ` set (uw_entries w) \<longrightarrow> uentry_stopped (uw_heap w ! e))"

text \<open>What the session invariant reads, and what the gauges read.\<close>

definition entry_core :: "udp_entry \<Rightarrow> (peer_addr \<times> nat) list \<times> nat \<times> u64 \<times> udp_entry_state \<times> (string \<times> u16 \<times> u64) option \<times> nat option \<times> bool" where
  "entry_core x = (ue_sessions x, ue_max_sessions x, ue_generation x, ue_state x, ue_target x, ue_inflight x, ue_draining x)"

definition session_core :: "udp_session \<Rightarrow> nat \<times> u64 \<times> peer_addr \<times> (string \<times> u16) \<times> bool" where
  "session_core s = (se_entry s, se_generation s, se_client_addr s, se_upstream s, se_guard s)"

definition session_view :: "udp_world \<Rightarrow> _" where
  "session_view w = (map entry_core (uw_heap w), map session_core (uw_sessions w))"

definition ugauge_view :: "udp_world \<Rightarrow> _" where
  "ugauge_view w = (map (\<lambda>x. lm_active (ue_metrics x)) (uw_heap w), map (\<lambda>s. (se_entry s, se_guard s)) (uw_sessions w), m_udp_active_sessions (uw_metrics w))"

lemma udp_frame [simp]:
  "uw_heap (udp_count f w) = uw_heap w" "uw_sessions (udp_count f w) = uw_sessions w" "uw_entries (udp_count f w) = uw_entries w"
  "uw_metrics (udp_count f w) = f (uw_metrics w)" "uw_now (udp_count f w) = uw_now w" "uw_config (udp_count f w) = uw_config w"
  "uw_sessions (on_uentry e g w) = uw_sessions w" "uw_metrics (on_uentry e g w) = uw_metrics w" "uw_entries (on_uentry e g w) = uw_entries w"
  "uw_heap (on_uentry e g w) = on_nth e g (uw_heap w)" "uw_now (on_uentry e g w) = uw_now w"
  "uw_heap (on_session i h w) = uw_heap w" "uw_metrics (on_session i h w) = uw_metrics w" "uw_entries (on_session i h w) = uw_entries w"
  "uw_sessions (on_session i h w) = on_nth i h (uw_sessions w)" "uw_now (on_session i h w) = uw_now w"
  by (simp_all add: udp_count_def on_uentry_def on_session_def)

lemma sessions_inv_view:
  assumes v: "session_view w' = session_view w" and ok: "sessions_inv w"
  shows "sessions_inv w'"
proof -
  have heap: "map entry_core (uw_heap w') = map entry_core (uw_heap w)"
    and sess: "map session_core (uw_sessions w') = map session_core (uw_sessions w)" using v by (simp_all add: session_view_def)
  have len: "length (uw_heap w') = length (uw_heap w)" "length (uw_sessions w') = length (uw_sessions w)"
    using map_eq_imp_length_eq [OF heap] map_eq_imp_length_eq [OF sess] by simp_all
  have h: "entry_core (uw_heap w' ! e) = entry_core (uw_heap w ! e)" if "e < length (uw_heap w)" for e
    using map_eq_nth [OF heap that] .
  have s: "session_core (uw_sessions w' ! i) = session_core (uw_sessions w ! i)" if "i < length (uw_sessions w)" for i
    using map_eq_nth [OF sess that] .
  have "holds_session w' e i = holds_session w e i" for e i
    using s [of i] len by (auto simp: holds_session_def session_core_def)
  moreover have "gen_matches (uw_heap w' ! e) = gen_matches (uw_heap w ! e)" if "e < length (uw_heap w)" for e
    using h [OF that] by (simp add: fun_eq_iff gen_matches_def entry_core_def)
  ultimately show ?thesis
    using ok h s len unfolding sessions_inv_def
    by (auto simp: uentry_ok_def session_ok_def Let_def entry_core_def session_core_def holds_session_def split: prod.splits)
qed

lemma session_view_on_session:
  "s < length (uw_sessions w) \<Longrightarrow> session_core (f (uw_sessions w ! s)) = session_core (uw_sessions w ! s) \<Longrightarrow>
    session_view (on_session s f w) = session_view w"
  by (simp add: session_view_def map_on_nth_same)

lemma session_view_on_uentry:
  "e < length (uw_heap w) \<Longrightarrow> entry_core (f (uw_heap w ! e)) = entry_core (uw_heap w ! e) \<Longrightarrow>
    session_view (on_uentry e f w) = session_view w"
  by (simp add: session_view_def map_on_nth_same)

lemma session_view_count [simp]: "session_view (udp_count f w) = session_view w"
  "session_view (w\<lparr>uw_metrics := m\<rparr>) = session_view w" "session_view (w\<lparr>uw_entries := es\<rparr>) = session_view w"
  "session_view (w\<lparr>uw_bind_calls := n\<rparr>) = session_view w" "session_view (w\<lparr>uw_now := t\<rparr>) = session_view w"
  "session_view (w\<lparr>uw_upstream_calls := n\<rparr>) = session_view w"
  by (simp_all add: session_view_def)

lemma sessions_inv_entry:
  assumes ok: "sessions_inv w" and e: "e < length (uw_heap w)" and new: "uentry_ok (on_uentry e f w) e"
    and gen: "\<And>g h p. gen_matches (uw_heap w ! e) g h p \<Longrightarrow> gen_matches (f (uw_heap w ! e)) g h p"
  shows "sessions_inv (on_uentry e f w)"
  unfolding sessions_inv_def
proof (intro conjI allI impI)
  show "uentry_ok (on_uentry e f w) k" if "k < length (uw_heap (on_uentry e f w))" for k
  proof (cases "k = e")
    case False
    then have "uw_heap (on_uentry e f w) ! k = uw_heap w ! k" by simp
    moreover have "uentry_ok w k" using ok that by (simp add: sessions_inv_def)
    ultimately show ?thesis by (simp add: uentry_ok_def holds_session_def)
  qed (use new in simp)
  show "session_ok (on_uentry e f w) (uw_sessions (on_uentry e f w) ! s)" if "s < length (uw_sessions (on_uentry e f w))" for s
  proof -
    have "session_ok w (uw_sessions w ! s)" using ok that by (simp add: sessions_inv_def)
    then show ?thesis using gen by (auto simp: session_ok_def nth_on_nth)
  qed
qed

lemma uentry_okD:
  assumes "sessions_inv w" and "e < length (uw_heap w)"
  shows "uentry_ok w e" "distinct (map fst (ue_sessions (uw_heap w ! e)))"
    "(c, s) \<in> set (ue_sessions (uw_heap w ! e)) \<Longrightarrow> holds_session w e s \<and> se_client_addr (uw_sessions w ! s) = c"
    "map_of (ue_sessions (uw_heap w ! e)) c = Some s \<Longrightarrow> s < length (uw_sessions w)"
proof -
  show ok: "uentry_ok w e" using assms by (simp add: sessions_inv_def)
  then show "distinct (map fst (ue_sessions (uw_heap w ! e)))" by (simp add: uentry_ok_def Let_def)
  have "\<forall>(c, s) \<in> set (ue_sessions (uw_heap w ! e)). holds_session w e s \<and> se_client_addr (uw_sessions w ! s) = c"
    using ok by (simp add: uentry_ok_def Let_def)
  then show held: "(c, s) \<in> set (ue_sessions (uw_heap w ! e)) \<Longrightarrow> holds_session w e s \<and> se_client_addr (uw_sessions w ! s) = c" for c s
    by blast
  show "map_of (ue_sessions (uw_heap w ! e)) c = Some s \<Longrightarrow> s < length (uw_sessions w)"
    using held map_of_SomeD by (fastforce simp: holds_session_def)
qed

text \<open>A table may shrink at any time.\<close>

lemma sessions_inv_shrink:
  assumes ok: "sessions_inv w" and e: "e < length (uw_heap w)"
    and sub: "set xs \<subseteq> set (ue_sessions (uw_heap w ! e))" "distinct (map fst xs)" "length xs \<le> length (ue_sessions (uw_heap w ! e))"
    and f: "entry_core (f (uw_heap w ! e)) = entry_core ((uw_heap w ! e)\<lparr>ue_sessions := xs\<rparr>)"
  shows "sessions_inv (on_uentry e f w)"
proof (rule sessions_inv_entry [OF ok e])
  show "uentry_ok (on_uentry e f w) e"
    using uentry_okD(1) [OF ok e] e sub f
    by (auto simp: uentry_ok_def Let_def entry_core_def holds_session_def gen_matches_def split: prod.splits)
  show "gen_matches (uw_heap w ! e) g h p \<Longrightarrow> gen_matches (f (uw_heap w ! e)) g h p" for g h p
    using f by (simp add: gen_matches_def entry_core_def)
qed

lemma set_update_sub: "set (AList.update k v xs) \<subseteq> insert (k, v) (set xs)"
  by (induction xs) auto

lemma length_update_le: "length (AList.update k v xs) \<le> length xs + 1"
  by (induction xs) auto

lemma set_delete_sub: "set (AList.delete c xs) \<subseteq> set xs"
  by (auto simp: AList.delete_eq)

lemma sessions_inv_delete_client:
  assumes "sessions_inv w" and "e < length (uw_heap w)"
  shows "sessions_inv (on_uentry e (\<lambda>x. x\<lparr>ue_sessions := AList.delete c (ue_sessions x)\<rparr>) w)"
  by (rule sessions_inv_shrink [OF assms, of "AList.delete c (ue_sessions (uw_heap w ! e))"])
    (use uentry_okD(2) [OF assms] in \<open>simp_all add: distinct_delete_both(1) entry_core_def set_delete_sub length_delete_le\<close>)

lemma session_view_frame:
  "s < length (uw_sessions w) \<Longrightarrow> session_view (close_session s w) = session_view w"
  "s < length (uw_sessions w) \<Longrightarrow> session_view (abort_reply_task s w) = session_view w"
  "s < length (uw_sessions w) \<Longrightarrow> session_view (spawn_reply_loop s w) = session_view w"
  "e < length (uw_heap w) \<Longrightarrow> session_view (record_empty_since_if_empty e w) = session_view w"
  by (simp_all add: close_session_def abort_reply_task_def spawn_reply_loop_def record_empty_since_if_empty_def
      session_view_on_session session_view_on_uentry session_core_def entry_core_def)

lemma session_ops_frame [simp]:
  "length (uw_sessions (close_session s w)) = length (uw_sessions w)" "uw_heap (close_session s w) = uw_heap w"
  "length (uw_sessions (abort_reply_task s w)) = length (uw_sessions w)" "uw_heap (abort_reply_task s w) = uw_heap w"
  "length (uw_sessions (spawn_reply_loop s w)) = length (uw_sessions w)" "uw_heap (spawn_reply_loop s w) = uw_heap w"
  "uw_entries (close_session s w) = uw_entries w" "uw_entries (abort_reply_task s w) = uw_entries w" "uw_entries (spawn_reply_loop s w) = uw_entries w"
  "uw_entries (record_empty_since_if_empty e w) = uw_entries w" "uw_sessions (record_empty_since_if_empty e w) = uw_sessions w"
  "length (uw_heap (record_empty_since_if_empty e w)) = length (uw_heap w)"
  "uw_metrics (close_session s w) = uw_metrics w" "uw_metrics (abort_reply_task s w) = uw_metrics w"
  "uw_metrics (spawn_reply_loop s w) = uw_metrics w" "uw_metrics (record_empty_since_if_empty e w) = uw_metrics w"
  "uw_now (close_session s w) = uw_now w" "uw_now (abort_reply_task s w) = uw_now w" "uw_now (record_empty_since_if_empty e w) = uw_now w"
  by (simp_all add: close_session_def abort_reply_task_def spawn_reply_loop_def record_empty_since_if_empty_def)

lemma sessions_inv_remove:
  assumes ok: "sessions_inv w" and e: "e < length (uw_heap w)"
  shows "sessions_inv (remove_session e c s reason w)"
proof (cases "map_of (ue_sessions (uw_heap w ! e)) c = Some s")
  case True
  have s: "s < length (uw_sessions w)" using uentry_okD(4) [OF ok e True] .
  let ?w = "on_uentry e (\<lambda>x. x\<lparr>ue_sessions := AList.delete c (ue_sessions x)\<rparr>) w"
  have "session_view (remove_session e c s reason w) = session_view ?w"
    using True e s by (simp add: remove_session_def session_view_frame)
  then show ?thesis using sessions_inv_view sessions_inv_delete_client [OF ok e] by blast
qed (use ok in \<open>simp add: remove_session_def\<close>)

lemma remove_session_frame [simp]:
  "length (uw_sessions (remove_session e c s reason w)) = length (uw_sessions w)"
  "length (uw_heap (remove_session e c s reason w)) = length (uw_heap w)"
  "uw_entries (remove_session e c s reason w) = uw_entries w" "uw_now (remove_session e c s reason w) = uw_now w"
  by (simp_all add: remove_session_def)

lemma close_each_view:
  "set ss \<subseteq> {..<length (uw_sessions w)} \<Longrightarrow> session_view (close_each d ss w) = session_view w \<and>
    length (uw_sessions (close_each d ss w)) = length (uw_sessions w)"
  by (induction d ss w rule: close_each.induct) (simp_all add: session_view_frame)

lemma close_each_frame [simp]:
  "uw_heap (close_each d ss w) = uw_heap w" "uw_entries (close_each d ss w) = uw_entries w" "uw_now (close_each d ss w) = uw_now w"
  by (induction d ss w rule: close_each.induct) simp_all

lemma sessions_inv_clear:
  assumes ok: "sessions_inv w" and e: "e < length (uw_heap w)"
    and f: "entry_core (f (uw_heap w ! e)) = entry_core ((uw_heap w ! e)\<lparr>ue_sessions := []\<rparr>)"
  shows "sessions_inv (on_uentry e f w)"
  by (rule sessions_inv_shrink [OF ok e, of "[]"]) (use f in simp_all)

lemma sessions_inv_close:
  assumes ok: "sessions_inv w" and e: "e < length (uw_heap w)"
  shows "sessions_inv (udp_close_sessions e d w)"
proof -
  let ?w = "on_uentry e (\<lambda>x. x\<lparr>ue_sessions := []\<rparr>) w" and ?ss = "map snd (ue_sessions (uw_heap w ! e))"
  have ss: "set ?ss \<subseteq> {..<length (uw_sessions ?w)}" using uentry_okD(3) [OF ok e] by (force simp: holds_session_def)
  have "sessions_inv ?w" by (rule sessions_inv_clear [OF ok e]) simp
  then have "sessions_inv (close_each d ?ss ?w)" using sessions_inv_view close_each_view [OF ss] by blast
  moreover have "session_view (udp_close_sessions e d w) = session_view (close_each d ?ss ?w)"
    unfolding udp_close_sessions_def Let_def by (rule session_view_on_uentry) (use e in \<open>simp_all add: entry_core_def\<close>)
  ultimately show ?thesis using sessions_inv_view by blast
qed

subsection \<open>Opening and entering sessions\<close>

lemma create_session_sel:
  assumes "create_session e client h p g w = (res, w')"
  shows "map entry_core (uw_heap w') = map entry_core (uw_heap w)" "uw_entries w' = uw_entries w" "length (uw_heap w') = length (uw_heap w)"
    "res = None \<Longrightarrow> uw_sessions w' = uw_sessions w"
    "res = Some s \<Longrightarrow> s = length (uw_sessions w) \<and> uw_sessions w' = uw_sessions w @
       [\<lparr>se_entry = e, se_generation = g, se_client_addr = client, se_upstream = (h, p), se_closed = False, se_last_seen = uw_now w,
         se_replying = False, se_guard = True\<rparr>]"
proof -
  have core: "map entry_core (on_nth e (\<lambda>x. x\<lparr>ue_metrics := m x\<rparr>) xs) = map entry_core xs" for m xs
  proof (cases "e < length xs")
    case True then show ?thesis by (simp add: map_on_nth_same entry_core_def)
  next
    case False then show ?thesis by (simp add: on_nth_def list_update_beyond)
  qed
  show "map entry_core (uw_heap w') = map entry_core (uw_heap w)" "uw_entries w' = uw_entries w" "length (uw_heap w') = length (uw_heap w)"
    "res = None \<Longrightarrow> uw_sessions w' = uw_sessions w"
    "res = Some s \<Longrightarrow> s = length (uw_sessions w) \<and> uw_sessions w' = uw_sessions w @
       [\<lparr>se_entry = e, se_generation = g, se_client_addr = client, se_upstream = (h, p), se_closed = False, se_last_seen = uw_now w,
         se_replying = False, se_guard = True\<rparr>]"
    using assms by (auto simp: create_session_def session_guard_new_def Let_def core split: if_splits)
qed

lemma lookup_Absent: "lookup_session e client g w = Absent \<Longrightarrow> length (ue_sessions (uw_heap w ! e)) < ue_max_sessions (uw_heap w ! e)"
  by (auto simp: lookup_session_def Let_def split: option.splits if_splits)

lemma sessions_inv_append:
  assumes ok: "sessions_inv w" and heap: "map entry_core (uw_heap w') = map entry_core (uw_heap w)"
    and sess: "uw_sessions w' = uw_sessions w @ [x]" and x: "session_ok w x"
  shows "sessions_inv w'"
proof -
  have len: "length (uw_heap w') = length (uw_heap w)" using map_eq_imp_length_eq [OF heap] .
  have h: "entry_core (uw_heap w' ! e) = entry_core (uw_heap w ! e)" if "e < length (uw_heap w)" for e using map_eq_nth [OF heap that] .
  have gm: "gen_matches (uw_heap w' ! e) = gen_matches (uw_heap w ! e)" if "e < length (uw_heap w)" for e
    using h [OF that] by (simp add: fun_eq_iff gen_matches_def entry_core_def)
  have hs: "holds_session w e s \<Longrightarrow> holds_session w' e s \<and> uw_sessions w' ! s = uw_sessions w ! s" for e s
    by (simp add: holds_session_def sess nth_append)
  have "uentry_ok w' e" if e: "e < length (uw_heap w)" for e
    using uentry_okD(1) [OF ok e] h [OF e] gm [OF e] hs
    by (fastforce simp: uentry_ok_def Let_def entry_core_def split: prod.splits)
  moreover have "session_ok w' (uw_sessions w' ! s)" if "s < length (uw_sessions w')" for s
  proof -
    have "session_ok w (uw_sessions w' ! s)" using ok x that by (auto simp: sess sessions_inv_def nth_append less_Suc_eq)
    then show ?thesis using len gm by (simp add: session_ok_def)
  qed
  ultimately show ?thesis by (simp add: sessions_inv_def len)
qed

lemma sessions_inv_begin:
  assumes ok: "sessions_inv w" and e: "e < length (uw_heap w)" and target: "ue_target (uw_heap w ! e) = Some (h, p, g)"
    and absent: "lookup_session e client g w = Absent"
  shows "sessions_inv (begin_session e client h p g w)"
proof -
  obtain res w1 where cr: "create_session e client h p g w = (res, w1)" by fastforce
  note sel = create_session_sel [OF cr]
  have gm: "gen_matches (uw_heap w ! e) g h p" using uentry_okD(1) [OF ok e] target by (simp add: uentry_ok_def Let_def)
  have core: "entry_core (uw_heap w1 ! e) = entry_core (uw_heap w ! e)" using map_eq_nth [OF sel(1) e] .
  have "sessions_inv w1"
  proof (cases res)
    case None
    then have "session_view w1 = session_view w" using sel(1,4) by (simp add: session_view_def)
    then show ?thesis using sessions_inv_view ok by blast
  next
    case (Some s)
    show ?thesis
      by (rule sessions_inv_append [OF ok sel(1)]) (use sel(5) [OF Some] gm e in \<open>auto simp: session_ok_def\<close>)
  qed
  moreover have "e < length (uw_heap w1)" using e sel(3) by simp
  moreover have "uentry_ok (on_uentry e (\<lambda>x. x\<lparr>ue_inflight := res\<rparr>) w1) e"
  proof -
    have "holds_session w1 e s" if "res = Some s" for s using sel(5) [OF that] by (simp add: holds_session_def)
    then show ?thesis
      using uentry_okD(1) [OF \<open>sessions_inv w1\<close> \<open>e < length (uw_heap w1)\<close>] core lookup_Absent [OF absent] \<open>e < length (uw_heap w1)\<close>
      by (auto simp: uentry_ok_def Let_def entry_core_def holds_session_def gen_matches_def split: prod.splits)
  qed
  ultimately have "sessions_inv (on_uentry e (\<lambda>x. x\<lparr>ue_inflight := res\<rparr>) w1)"
    by (intro sessions_inv_entry) (auto simp: gen_matches_def)
  then show ?thesis using cr by (simp add: begin_session_def)
qed

text \<open>Entering adds one session of the current generation to a table that has room.\<close>

lemma sessions_inv_insert:
  assumes ok: "sessions_inv w" and e: "e < length (uw_heap w)" and held: "holds_session w e s" and c: "se_client_addr (uw_sessions w ! s) = c"
    and room: "length (ue_sessions (uw_heap w ! e)) < ue_max_sessions (uw_heap w ! e)"
    and gen: "se_generation (uw_sessions w ! s) = ue_generation (uw_heap w ! e)" and idle: "ue_inflight (uw_heap w ! e) = None"
  shows "sessions_inv (on_uentry e (\<lambda>x. x\<lparr>ue_sessions := AList.update c s (ue_sessions x), ue_empty_since := None\<rparr>) w)"
proof -
  let ?xs = "ue_sessions (uw_heap w ! e)"
  let ?f = "\<lambda>x. x\<lparr>ue_sessions := AList.update c s (ue_sessions x), ue_empty_since := None\<rparr>"
  note old = uentry_okD(1) [OF ok e, unfolded uentry_ok_def Let_def]
  have "uentry_ok (on_uentry e ?f w) e"
    unfolding uentry_ok_def Let_def udp_frame nth_on_nth_eq [OF e]
  proof (intro conjI)
    show "distinct (map fst (ue_sessions (?f (uw_heap w ! e))))" using uentry_okD(2) [OF ok e] by (simp add: distinct_update)
    show "length (ue_sessions (?f (uw_heap w ! e))) \<le> ue_max_sessions (?f (uw_heap w ! e))"
      using room length_update_le [of c s ?xs] by simp
    show "\<forall>(c', s') \<in> set (ue_sessions (?f (uw_heap w ! e))). holds_session (on_uentry e ?f w) e s' \<and> se_client_addr (uw_sessions w ! s') = c'"
      using old held c set_update_sub [of c s ?xs] by (auto simp: holds_session_def)
    show "\<not> ue_draining (?f (uw_heap w ! e)) \<longrightarrow>
        (\<forall>(c', s') \<in> set (ue_sessions (?f (uw_heap w ! e))). se_generation (uw_sessions w ! s') = ue_generation (?f (uw_heap w ! e)))"
    proof
      assume "\<not> ue_draining (?f (uw_heap w ! e))"
      then have "\<not> ue_draining (uw_heap w ! e)" by simp
      then have "\<forall>(c', s') \<in> set ?xs. se_generation (uw_sessions w ! s') = ue_generation (uw_heap w ! e)"
        using old by blast
      with gen have "\<forall>(c', s') \<in> insert (c, s) (set ?xs). se_generation (uw_sessions w ! s') = ue_generation (uw_heap w ! e)"
        by blast
      then show "\<forall>(c', s') \<in> set (ue_sessions (?f (uw_heap w ! e))). se_generation (uw_sessions w ! s') = ue_generation (?f (uw_heap w ! e))"
        using set_update_sub [of c s ?xs] by (simp del: split_paired_All) blast
    qed
  qed (use old idle in \<open>simp_all add: gen_matches_def\<close>)
  then show ?thesis by (rule sessions_inv_entry [OF ok e]) (simp add: gen_matches_def)
qed

lemma sessions_inv_drop:
  assumes ok: "sessions_inv w" and s: "s < length (uw_sessions w)"
    and free: "\<And>c. (c, s) \<notin> set (ue_sessions (uw_heap w ! se_entry (uw_sessions w ! s)))"
      "ue_inflight (uw_heap w ! se_entry (uw_sessions w ! s)) \<noteq> Some s"
  shows "sessions_inv (session_guard_drop s w)"
proof (cases "se_guard (uw_sessions w ! s)")
  case True
  let ?e = "se_entry (uw_sessions w ! s)" and ?v = "session_guard_drop s w"
  have e: "?e < length (uw_heap w)" using ok s by (simp add: sessions_inv_def session_ok_def)
  have heap: "map entry_core (uw_heap ?v) = map entry_core (uw_heap w)"
    using True e by (simp add: session_guard_drop_def Let_def map_on_nth_same entry_core_def)
  have len: "length (uw_heap ?v) = length (uw_heap w)" using map_eq_imp_length_eq [OF heap] .
  have h: "entry_core (uw_heap ?v ! k) = entry_core (uw_heap w ! k)" if "k < length (uw_heap w)" for k using map_eq_nth [OF heap that] .
  have gm: "gen_matches (uw_heap ?v ! k) = gen_matches (uw_heap w ! k)" if "k < length (uw_heap w)" for k
    using h [OF that] by (simp add: fun_eq_iff gen_matches_def entry_core_def)
  have sess: "uw_sessions ?v = on_nth s (\<lambda>x. x\<lparr>se_guard := False\<rparr>) (uw_sessions w)" using True by (simp add: session_guard_drop_def Let_def)
  have hs: "holds_session w k t \<Longrightarrow> t \<noteq> s \<Longrightarrow> holds_session ?v k t \<and> uw_sessions ?v ! t = uw_sessions w ! t" for k t
    by (simp add: holds_session_def sess)
  have "uentry_ok ?v k" if k: "k < length (uw_heap w)" for k
  proof -
    note old = uentry_okD(1) [OF ok k, unfolded uentry_ok_def Let_def]
    have "t \<noteq> s" if "(c, t) \<in> set (ue_sessions (uw_heap w ! k))" for c t
      using uentry_okD(3) [OF ok k that] free(1) [of c] that by (auto simp: holds_session_def)
    moreover have "t \<noteq> s" if "ue_inflight (uw_heap w ! k) = Some t" for t
      using old that free(2) by (auto simp: holds_session_def)
    ultimately show ?thesis using old h [OF k] gm [OF k] hs
      by (fastforce simp: uentry_ok_def Let_def entry_core_def split: prod.splits)
  qed
  moreover have "session_ok ?v (uw_sessions ?v ! t)" if "t < length (uw_sessions ?v)" for t
  proof -
    have "session_ok w (uw_sessions w ! t)" using ok that by (simp add: sess sessions_inv_def)
    then have "session_ok w (uw_sessions ?v ! t)" using that by (simp add: sess nth_on_nth session_ok_def)
    then show ?thesis using len gm by (simp add: session_ok_def)
  qed
  ultimately show ?thesis by (simp add: sessions_inv_def len)
qed (use ok in \<open>simp add: session_guard_drop_def Let_def\<close>)

lemma sessions_inv_enter:
  assumes ok: "sessions_inv w" and e: "e < length (uw_heap w)" and held: "holds_session w e s"
    and room: "length (ue_sessions (uw_heap w ! e)) < ue_max_sessions (uw_heap w ! e)" and idle: "ue_inflight (uw_heap w ! e) = None"
    and run: "enter_session e (se_client_addr (uw_sessions w ! s)) (se_generation (uw_sessions w ! s)) s w = (res, w')"
  shows "sessions_inv w'" and "res \<noteq> Some s \<Longrightarrow> uw_heap w' = uw_heap w \<and> uw_sessions w' = uw_sessions w \<and> (\<forall>c. (c, s) \<notin> set (ue_sessions (uw_heap w ! e)))"
    and "length (uw_heap w') = length (uw_heap w)" and "length (uw_sessions w') = length (uw_sessions w)" and "uw_entries w' = uw_entries w"
proof -
  let ?c = "se_client_addr (uw_sessions w ! s)" and ?g = "se_generation (uw_sessions w ! s)"
  let ?ins = "on_uentry e (\<lambda>x. x\<lparr>ue_sessions := AList.update ?c s (ue_sessions x), ue_empty_since := None\<rparr>) w"
  have ins: "sessions_inv ?ins" if "ue_generation (uw_heap w ! e) = ?g"
    using sessions_inv_insert [OF ok e held refl room _ idle] that by simp
  have s: "s < length (uw_sessions w)" using held by (simp add: holds_session_def)
  have ex: "k < length (uw_sessions w)" if "map_of (ue_sessions (uw_heap w ! e)) ?c = Some k" for k using uentry_okD(4) [OF ok e that] .
  have cases: "(w' = w \<and> res = map_of (ue_sessions (uw_heap w ! e)) ?c \<and> res \<noteq> None) \<or>
      (\<exists>f. w' = udp_count f w \<and> res = None \<and> ue_generation (uw_heap w ! e) \<noteq> ?g) \<or>
      (res = Some s \<and> session_view w' = session_view ?ins \<and> ue_generation (uw_heap w ! e) = ?g \<and> length (uw_heap w') = length (uw_heap w) \<and>
         length (uw_sessions w') = length (uw_sessions w) \<and> uw_entries w' = uw_entries w)"
    using run s ex e by (auto simp: enter_session_def Let_def session_view_frame split: option.splits if_splits)
  show "sessions_inv w'" using cases ok ins sessions_inv_view [of w' ?ins] sessions_inv_view [of w' w] by auto
  show "length (uw_heap w') = length (uw_heap w)" "length (uw_sessions w') = length (uw_sessions w)" "uw_entries w' = uw_entries w"
    using cases by auto
  assume no: "res \<noteq> Some s"
  have "(c, s) \<notin> set (ue_sessions (uw_heap w ! e))" for c
  proof
    assume mem: "(c, s) \<in> set (ue_sessions (uw_heap w ! e))"
    then have "c = ?c" using uentry_okD(3) [OF ok e mem] by simp
    then have "map_of (ue_sessions (uw_heap w ! e)) ?c = Some s" using mem uentry_okD(2) [OF ok e] by simp
    then show False using run no by (simp add: enter_session_def)
  qed
  then show "uw_heap w' = uw_heap w \<and> uw_sessions w' = uw_sessions w \<and> (\<forall>c. (c, s) \<notin> set (ue_sessions (uw_heap w ! e)))"
    using cases no by auto
qed

lemma finish_cases:
  assumes ok: "sessions_inv w" and e: "e < length (uw_heap w)" and fl: "ue_inflight (uw_heap w ! e) = Some s"
  defines "w0 \<equiv> on_uentry e (\<lambda>y. y\<lparr>ue_inflight := None\<rparr>) w"
  shows "sessions_inv w0" "holds_session w0 e s" "length (ue_sessions (uw_heap w0 ! e)) < ue_max_sessions (uw_heap w0 ! e)"
    "ue_inflight (uw_heap w0 ! e) = None" "e < length (uw_heap w0)"
proof -
  note old = uentry_okD(1) [OF ok e, unfolded uentry_ok_def Let_def]
  show "sessions_inv w0" unfolding w0_def
    by (rule sessions_inv_entry [OF ok e]) (use old e in \<open>auto simp: uentry_ok_def Let_def holds_session_def gen_matches_def\<close>)
  show "holds_session w0 e s" "length (ue_sessions (uw_heap w0 ! e)) < ue_max_sessions (uw_heap w0 ! e)"
    "ue_inflight (uw_heap w0 ! e) = None" "e < length (uw_heap w0)"
    using old fl e by (simp_all add: w0_def holds_session_def)
qed

lemma sessions_inv_finish:
  assumes ok: "sessions_inv w" and e: "e < length (uw_heap w)" and fl: "ue_inflight (uw_heap w ! e) = Some s"
  shows "sessions_inv (finish_session e s w)"
proof -
  let ?w = "on_uentry e (\<lambda>y. y\<lparr>ue_inflight := None\<rparr>) w"
  note w0 = finish_cases [OF ok e fl]
  obtain res w1 where run: "enter_session e (se_client_addr (uw_sessions ?w ! s)) (se_generation (uw_sessions ?w ! s)) s ?w = (res, w1)" by fastforce
  note ent = sessions_inv_enter [OF w0(1,5,2,3,4) run]
  have s: "s < length (uw_sessions w)" "se_entry (uw_sessions w ! s) = e" using w0(2) by (simp_all add: holds_session_def)
  have "sessions_inv (session_guard_drop s w1)" if "res \<noteq> Some s"
  proof (rule sessions_inv_drop [OF ent(1)])
    show "s < length (uw_sessions w1)" using ent(4) s by simp
    show "(c, s) \<notin> set (ue_sessions (uw_heap w1 ! se_entry (uw_sessions w1 ! s)))" for c
    proof -
      have "(c, s) \<notin> set (ue_sessions (uw_heap ?w ! e))" using ent(2) [OF that] by blast
      then show ?thesis using ent(2) [OF that] s by simp
    qed
    show "ue_inflight (uw_heap w1 ! se_entry (uw_sessions w1 ! s)) \<noteq> Some s" using ent(2) [OF that] s w0(4) by simp
  qed
  then show ?thesis using ent(1) run by (auto simp: finish_session_def Let_def split: prod.split)
qed

subsection \<open>Targets\<close>

lemma sessions_inv_capture:
  assumes ok: "sessions_inv w" and e: "e < length (uw_heap w)"
  shows "sessions_inv (capture_target e w)"
  unfolding capture_target_def Let_def
  by (rule sessions_inv_entry [OF ok e])
    (use uentry_okD(1) [OF ok e] e in \<open>auto simp: uentry_ok_def Let_def holds_session_def gen_matches_def split: option.splits\<close>)

lemma sessions_inv_publish:
  assumes ok: "sessions_inv w" and e: "e < length (uw_heap w)" and g: "ue_generation (uw_heap w ! e) \<noteq> - 1"
  shows "sessions_inv (publish_target a e w)"
proof -
  let ?v = "if us_runtime_status (udp_entry_state_for a) = RejectingNoHost
    then udp_count (\<lambda>m. m\<lparr>m_rejected_no_host_total := counter_inc (m_rejected_no_host_total m)\<rparr>) w else w"
  let ?f = "\<lambda>x. let g = saturating_add (us_generation (ue_state x)) 1
    in x\<lparr>ue_state := (udp_entry_state_for a)\<lparr>us_generation := g\<rparr>, ue_generation := g, ue_draining := True\<rparr>"
  have v: "sessions_inv ?v" "uw_heap ?v = uw_heap w" "uw_sessions ?v = uw_sessions w"
    using ok sessions_inv_view [of ?v w] by simp_all
  note old = uentry_okD(1) [OF ok e, unfolded uentry_ok_def Let_def]
  have gen: "saturating_add (us_generation (ue_state (uw_heap w ! e))) 1 = ue_generation (uw_heap w ! e) + 1"
    "ue_generation (uw_heap w ! e) < ue_generation (uw_heap w ! e) + 1"
    using old saturating_succ [OF g] by simp_all
  have stale: "gen_matches (?f (uw_heap w ! e)) k h p" if "gen_matches (uw_heap w ! e) k h p" for k h p
    using that gen by (auto simp: gen_matches_def Let_def)
  have "sessions_inv (on_uentry e ?f ?v)"
  proof (rule sessions_inv_entry [OF v(1)])
    have "uentry_ok (on_uentry e ?f w) e"
      unfolding uentry_ok_def udp_frame nth_on_nth_eq [OF e] Let_def [of "?f (uw_heap w ! e)"]
    proof (intro conjI)
      show "\<forall>h p k. ue_target (?f (uw_heap w ! e)) = Some (h, p, k) \<longrightarrow> gen_matches (?f (uw_heap w ! e)) k h p"
        using old stale by (simp add: Let_def)
    qed (use old in \<open>simp_all add: Let_def holds_session_def\<close>)
    then show "uentry_ok (on_uentry e ?f ?v) e" by (simp add: uentry_ok_def v holds_session_def)
  qed (use e v stale in simp_all)
  then show ?thesis by (simp add: publish_target_def Let_def)
qed

lemma sessions_inv_finish_update:
  assumes ok: "sessions_inv w" and e: "e < length (uw_heap w)"
  shows "sessions_inv (finish_update e w)" "ue_sessions (uw_heap (finish_update e w) ! e) = []"
proof -
  let ?v = "udp_close_sessions e True w"
  have v: "sessions_inv ?v" "ue_sessions (uw_heap ?v ! e) = []" "e < length (uw_heap ?v)"
    using sessions_inv_close [OF ok e] e by (simp_all add: udp_close_sessions_def Let_def)
  have "sessions_inv (on_uentry e (\<lambda>x. x\<lparr>ue_draining := False\<rparr>) ?v)"
    by (rule sessions_inv_entry [OF v(1,3)])
      (use uentry_okD(1) [OF v(1,3)] v in \<open>auto simp: uentry_ok_def Let_def holds_session_def gen_matches_def\<close>)
  then show "sessions_inv (finish_update e w)"
    unfolding finish_update_def using sessions_inv_view session_view_count(1) by blast
  show "ue_sessions (uw_heap (finish_update e w) ! e) = []" using v by (simp add: finish_update_def)
qed

lemma sessions_inv_new_entry:
  assumes ok: "sessions_inv w"
  shows "sessions_inv (w\<lparr>uw_heap := uw_heap w @ [udp_new_entry config a]\<rparr>)" (is "sessions_inv ?v")
proof -
  have "uentry_ok ?v e" if "e < length (uw_heap w)" for e
  proof -
    have "uw_heap ?v ! e = uw_heap w ! e" "holds_session ?v = holds_session w" "uw_sessions ?v = uw_sessions w"
      using that by (simp_all add: nth_append fun_eq_iff holds_session_def)
    then have "uentry_ok ?v e = uentry_ok w e" unfolding uentry_ok_def by (simp only:)
    then show ?thesis using uentry_okD(1) [OF ok that] by simp
  qed
  moreover have "uentry_ok ?v (length (uw_heap w))"
    by (simp add: uentry_ok_def udp_new_entry_def udp_entry_state_for_def split: option.split)
  moreover have "session_ok ?v (uw_sessions w ! s)" if "s < length (uw_sessions w)" for s
    using ok that by (auto simp: sessions_inv_def session_ok_def nth_append)
  ultimately show ?thesis by (auto simp: sessions_inv_def less_Suc_eq)
qed

end
