(* ===== verification/Relayd_Udp_Steps.thy ===== *)
theory Relayd_Udp_Steps
  imports Relayd_Udp_Sessions
begin

text \<open>
  Every step of the UDP relay keeps the session invariant, the exact gauges and the rule that an entry that
  left the table has been stopped. Operations that leave the gauges alone are rewritten away by their
  view; the order on worlds in which stopped entries stay stopped is closed under composition.
\<close>

subsection \<open>Gauges\<close>

lemma map_on_nth_id: "(\<And>x. g (f x) = g x) \<Longrightarrow> map g (on_nth i f xs) = map g xs"
  by (rule nth_equalityI) (simp_all add: nth_on_nth)

lemma ugauges_ok_view:
  assumes v: "ugauge_view w' = ugauge_view w" and ok: "ugauges_ok w"
  shows "ugauges_ok w'"
proof -
  let ?key = "\<lambda>s. (se_entry s, se_guard s)"
  have act: "map (\<lambda>x. lm_active (ue_metrics x)) (uw_heap w') = map (\<lambda>x. lm_active (ue_metrics x)) (uw_heap w)"
    and keys: "map ?key (uw_sessions w') = map ?key (uw_sessions w)"
    and total: "m_udp_active_sessions (uw_metrics w') = m_udp_active_sessions (uw_metrics w)" using v by (simp_all add: ugauge_view_def)
  have "count_if (\<lambda>s. P (?key s)) (uw_sessions w') = count_if (\<lambda>s. P (?key s)) (uw_sessions w)" for P
    using arg_cong [OF keys, of "count_if P"] by (simp add: count_if_map)
  from this [of "\<lambda>(e, g). e = k \<and> g" for k] this [of snd]
  show ?thesis using ok total map_eq_imp_length_eq [OF act] map_eq_nth [OF act] by (simp add: ugauges_ok_def)
qed

lemma ugauge_view_on [simp]:
  "(\<And>x. lm_active (ue_metrics (f x)) = lm_active (ue_metrics x)) \<Longrightarrow> ugauge_view (on_uentry e f w) = ugauge_view w"
  "(\<And>x. (se_entry (g x), se_guard (g x)) = (se_entry x, se_guard x)) \<Longrightarrow> ugauge_view (on_session s g w) = ugauge_view w"
  "(\<And>m. m_udp_active_sessions (h m) = m_udp_active_sessions m) \<Longrightarrow> ugauge_view (udp_count h w) = ugauge_view w"
  "ugauge_view (w\<lparr>uw_now := t\<rparr>) = ugauge_view w" "ugauge_view (w\<lparr>uw_entries := es\<rparr>) = ugauge_view w"
  "ugauge_view (w\<lparr>uw_bind_calls := n\<rparr>) = ugauge_view w" "ugauge_view (w\<lparr>uw_upstream_calls := n\<rparr>) = ugauge_view w"
  by (simp_all add: ugauge_view_def map_on_nth_id)

lemma record_removal_active [simp]: "m_udp_active_sessions (record_removal reason m) = m_udp_active_sessions m"
  by (simp add: record_removal_def split: session_removal_reason.split)

lemma ugauge_view_ops [simp]:
  "ugauge_view (close_session s w) = ugauge_view w" "ugauge_view (abort_reply_task s w) = ugauge_view w"
  "ugauge_view (spawn_reply_loop s w) = ugauge_view w" "ugauge_view (record_empty_since_if_empty e w) = ugauge_view w"
  "ugauge_view (remove_session e c s reason w) = ugauge_view w" "ugauge_view (capture_target e w) = ugauge_view w"
  "ugauge_view (snd (enter_session e c g s w)) = ugauge_view w" "ugauge_view (count_received e batch count w) = ugauge_view w"
  "ugauge_view (group_sent e s indexes result w) = ugauge_view w"
  "ugauge_view (compact_empty_sessions_after_idle e ttl w) = ugauge_view w" "ugauge_view (publish_target a e w) = ugauge_view w"
proof -
  show basic: "ugauge_view (close_session s w) = ugauge_view w" "ugauge_view (abort_reply_task s w) = ugauge_view w"
    "ugauge_view (spawn_reply_loop s w) = ugauge_view w" "ugauge_view (record_empty_since_if_empty e w) = ugauge_view w" for e s w
    by (simp_all add: close_session_def abort_reply_task_def spawn_reply_loop_def record_empty_since_if_empty_def)
  show remove: "ugauge_view (remove_session e c s reason w) = ugauge_view w" for e c s reason w by (simp add: remove_session_def basic)
  show "ugauge_view (capture_target e w) = ugauge_view w" by (simp add: capture_target_def Let_def)
  show "ugauge_view (snd (enter_session e c g s w)) = ugauge_view w"
    by (simp add: enter_session_def Let_def basic split: option.split)
  show "ugauge_view (count_received e batch count w) = ugauge_view w" by (simp add: count_received_def Let_def)
  show "ugauge_view (group_sent e s indexes result w) = ugauge_view w" by (simp add: group_sent_def remove split: sum.split)
  show "ugauge_view (compact_empty_sessions_after_idle e ttl w) = ugauge_view w"
    by (simp add: compact_empty_sessions_after_idle_def split: option.split)
  show "ugauge_view (publish_target a e w) = ugauge_view w" by (simp add: publish_target_def Let_def)
qed

lemma ugauge_view_loops [simp]:
  "ugauge_view (expire_each e ttl now xs w) = ugauge_view w" "ugauge_view (close_each d ss w) = ugauge_view w"
proof -
  show "ugauge_view (expire_each e ttl now xs w) = ugauge_view w" by (induction e ttl now xs w rule: expire_each.induct) simp_all
  show "ugauge_view (close_each d ss w) = ugauge_view w" by (induction d ss w rule: close_each.induct) simp_all
qed

lemma ugauge_view_closing [simp]:
  "ugauge_view (cleanup_tick e ttl w) = ugauge_view w" "ugauge_view (udp_close_sessions e d w) = ugauge_view w"
  "ugauge_view (udp_stop_entry e d w) = ugauge_view w" "ugauge_view (finish_update e w) = ugauge_view w"
  by (simp_all add: cleanup_tick_def expire_idle_sessions_def udp_close_sessions_def udp_stop_entry_def finish_update_def Let_def)

lemma ugauge_view_stop_all: "ugauge_view (fold (\<lambda>e. udp_stop_entry e d) es w) = ugauge_view w"
  by (induction es arbitrary: w) simp_all

lemma ugauge_view_reply: "ugauge_view (snd (reply_turn s received sent w)) = ugauge_view w"
  by (simp add: reply_turn_def Let_def split: sum.split)

lemma ugauge_view_bind: "ugauge_view (snd (udp_bind addr w)) = ugauge_view w"
  by (simp add: udp_bind_def)

text \<open>A guard is taken with a new session and released once.\<close>

lemma ugauges_ok_create:
  assumes ok: "ugauges_ok w" and e: "e < length (uw_heap w)"
  shows "ugauges_ok (snd (create_session e client h p g w))"
proof -
  let ?new = "\<lparr>se_entry = e, se_generation = g, se_client_addr = client, se_upstream = (h, p), se_closed = False, se_last_seen = uw_now w,
    se_replying = False, se_guard = True\<rparr>"
  have "ugauges_ok ((session_guard_new e (w\<lparr>uw_upstream_calls := n\<rparr>))\<lparr>uw_sessions := uw_sessions w @ [?new]\<rparr>)" for n
    using ok e by (auto simp: ugauges_ok_def session_guard_new_def nth_on_nth gauge_inc_def)
  moreover have "ugauges_ok (udp_count h (w\<lparr>uw_upstream_calls := n\<rparr>))"
    if "\<And>m. m_udp_active_sessions (h m) = m_udp_active_sessions m" for h n
    by (rule ugauges_ok_view [OF _ ok]) (simp add: that)
  ultimately show ?thesis by (simp add: create_session_def Let_def)
qed

lemma ugauges_ok_drop:
  assumes ok: "ugauges_ok w" and s: "s < length (uw_sessions w)" and e: "se_entry (uw_sessions w ! s) < length (uw_heap w)"
  shows "ugauges_ok (session_guard_drop s w)"
proof (cases "se_guard (uw_sessions w ! s)")
  case True
  let ?e = "se_entry (uw_sessions w ! s)" and ?ss = "on_nth s (\<lambda>x. x\<lparr>se_guard := False\<rparr>) (uw_sessions w)"
  have total: "count_if se_guard ?ss + 1 = count_if se_guard (uw_sessions w)"
    using count_if_on_nth_sub [OF s, of se_guard "\<lambda>x. x\<lparr>se_guard := False\<rparr>"] True by simp
  have here: "count_if (\<lambda>x. se_entry x = ?e \<and> se_guard x) ?ss + 1 = count_if (\<lambda>x. se_entry x = ?e \<and> se_guard x) (uw_sessions w)"
    using count_if_on_nth_sub [OF s, of "\<lambda>x. se_entry x = ?e \<and> se_guard x" "\<lambda>x. x\<lparr>se_guard := False\<rparr>"] True by simp
  have other: "count_if (\<lambda>x. se_entry x = k \<and> se_guard x) ?ss = count_if (\<lambda>x. se_entry x = k \<and> se_guard x) (uw_sessions w)" if "k \<noteq> ?e" for k
    by (rule count_if_on_nth_same [OF s]) (use that in simp)
  have "of_nat (count_if se_guard ?ss) = (of_nat (count_if se_guard (uw_sessions w)) - 1 :: u64)"
    using arg_cong [OF total, of "of_nat :: nat \<Rightarrow> u64"] by (simp add: eq_diff_eq add.commute)
  moreover have "of_nat (count_if (\<lambda>x. se_entry x = ?e \<and> se_guard x) ?ss) = (of_nat (count_if (\<lambda>x. se_entry x = ?e \<and> se_guard x) (uw_sessions w)) - 1 :: u64)"
    using arg_cong [OF here, of "of_nat :: nat \<Rightarrow> u64"] by (simp add: eq_diff_eq add.commute)
  ultimately show ?thesis
    using True ok e other by (auto simp: ugauges_ok_def session_guard_drop_def Let_def nth_on_nth gauge_dec_def)
qed (use ok in \<open>simp add: session_guard_drop_def Let_def\<close>)

subsection \<open>Stopped entries stay stopped\<close>

definition keeps_stopped :: "udp_world \<Rightarrow> udp_world \<Rightarrow> bool" where
  "keeps_stopped w w' \<longleftrightarrow> uw_entries w' = uw_entries w \<and> length (uw_heap w') = length (uw_heap w) \<and>
     (\<forall>e < length (uw_heap w). uentry_stopped (uw_heap w ! e) \<longrightarrow> uentry_stopped (uw_heap w' ! e))"

lemma keeps_stopped_refl [simp]: "keeps_stopped w w"
  by (simp add: keeps_stopped_def)

lemma keeps_stopped_trans: "keeps_stopped w v \<Longrightarrow> keeps_stopped v u \<Longrightarrow> keeps_stopped w u"
  by (simp add: keeps_stopped_def)

lemma keeps_stopped_heap: "uw_heap v = uw_heap w \<Longrightarrow> uw_entries v = uw_entries w \<Longrightarrow> keeps_stopped w v"
  by (simp add: keeps_stopped_def)

lemma keeps_stopped_entry:
  "(e < length (uw_heap w) \<Longrightarrow> uentry_stopped (uw_heap w ! e) \<Longrightarrow> uentry_stopped (f (uw_heap w ! e))) \<Longrightarrow> keeps_stopped w (on_uentry e f w)"
  by (simp add: keeps_stopped_def nth_on_nth)

lemma utable_ok_keeps: "keeps_stopped w w' \<Longrightarrow> utable_ok w \<Longrightarrow> utable_ok w'"
  by (simp add: keeps_stopped_def utable_ok_def)

lemma keeps_stopped_session [simp]:
  "keeps_stopped w (close_session s w)" "keeps_stopped w (abort_reply_task s w)" "keeps_stopped w (spawn_reply_loop s w)"
  "keeps_stopped w (udp_count h w)" "keeps_stopped w (on_session s g w)" "keeps_stopped w (w\<lparr>uw_now := t\<rparr>)" "keeps_stopped w (w\<lparr>uw_bind_calls := n\<rparr>)"
  by (simp_all add: keeps_stopped_heap)

lemma keeps_stopped_record_empty [simp]: "keeps_stopped w (record_empty_since_if_empty e w)"
  by (auto simp: record_empty_since_if_empty_def uentry_stopped_def intro!: keeps_stopped_entry)

lemmas keeps_stopped_then =
  keeps_stopped_session [THEN keeps_stopped_trans [rotated]] keeps_stopped_record_empty [THEN keeps_stopped_trans [rotated]]

lemma keeps_stopped_remove [simp]: "keeps_stopped w (remove_session e c s reason w)"
proof -
  have "keeps_stopped w (on_uentry e (\<lambda>x. x\<lparr>ue_sessions := AList.delete c (ue_sessions x)\<rparr>) w)"
    by (rule keeps_stopped_entry) (simp add: uentry_stopped_def)
  then show ?thesis unfolding remove_session_def by (simp add: keeps_stopped_then)
qed

lemmas keeps_stopped_remove_then = keeps_stopped_remove [THEN keeps_stopped_trans [rotated]]

lemma keeps_stopped_expire [simp]: "keeps_stopped w (expire_each e ttl now xs w)"
proof (induction e ttl now xs w rule: expire_each.induct)
  case (2 e ttl now client s rest w)
  show ?case unfolding expire_each.simps by (rule keeps_stopped_trans [OF _ 2]) simp
qed simp

lemma keeps_stopped_cleanup: "keeps_stopped w (cleanup_tick e ttl w)"
proof -
  have "keeps_stopped v (compact_empty_sessions_after_idle e ttl v)" for v
    by (auto simp: compact_empty_sessions_after_idle_def uentry_stopped_def intro!: keeps_stopped_entry split: option.split)
  moreover have "keeps_stopped w (expire_idle_sessions e ttl w)" by (simp add: expire_idle_sessions_def)
  ultimately show ?thesis unfolding cleanup_tick_def using keeps_stopped_trans by blast
qed

lemma keeps_stopped_close [simp]: "keeps_stopped w (udp_close_sessions e d w)"
proof -
  let ?v = "on_uentry e (\<lambda>x. x\<lparr>ue_sessions := []\<rparr>) w" and ?ss = "map snd (ue_sessions (uw_heap w ! e))"
  have "keeps_stopped w ?v" by (rule keeps_stopped_entry) (simp add: uentry_stopped_def)
  moreover have "keeps_stopped ?v (close_each d ?ss ?v)" by (simp add: keeps_stopped_heap)
  moreover have "keeps_stopped v (on_uentry e (\<lambda>x. x\<lparr>ue_empty_since := t\<rparr>) v)" for v t
    by (rule keeps_stopped_entry) (simp add: uentry_stopped_def)
  ultimately show ?thesis unfolding udp_close_sessions_def Let_def using keeps_stopped_trans by blast
qed

lemma udp_stop_entry_sel:
  assumes "e < length (uw_heap w)"
  shows "uw_entries (udp_stop_entry e d w) = uw_entries w" "length (uw_heap (udp_stop_entry e d w)) = length (uw_heap w)"
    "uentry_stopped (uw_heap (udp_stop_entry e d w) ! e)" "\<And>k. k \<noteq> e \<Longrightarrow> uw_heap (udp_stop_entry e d w) ! k = uw_heap w ! k"
  using assms by (simp_all add: udp_stop_entry_def udp_close_sessions_def Let_def uentry_stopped_def)

lemma keeps_stopped_stop: "e < length (uw_heap w) \<Longrightarrow> keeps_stopped w (udp_stop_entry e d w)"
  using udp_stop_entry_sel [where d = d and e = e and w = w] unfolding keeps_stopped_def by metis

lemma keeps_stopped_finish_update: "keeps_stopped w (finish_update e w)"
proof -
  have "keeps_stopped v (on_uentry e (\<lambda>x. x\<lparr>ue_draining := False\<rparr>) v)" for v
    by (rule keeps_stopped_entry) (simp add: uentry_stopped_def)
  from keeps_stopped_trans [OF keeps_stopped_close this] show ?thesis unfolding finish_update_def by (rule keeps_stopped_then)
qed

lemma keeps_stopped_publish: "keeps_stopped w (publish_target a e w)"
proof -
  have step: "keeps_stopped v (on_uentry e (\<lambda>x. let g = saturating_add (us_generation (ue_state x)) 1
      in x\<lparr>ue_state := st g, ue_generation := g, ue_draining := True\<rparr>) v)" for v st
    by (rule keeps_stopped_entry) (simp add: uentry_stopped_def Let_def)
  show ?thesis unfolding publish_target_def by (subst Let_def, subst Let_def, rule keeps_stopped_trans [OF _ step]) simp
qed

lemma keeps_stopped_group_sent: "keeps_stopped w (group_sent e s indexes result w)"
  by (simp add: group_sent_def keeps_stopped_remove_then split: sum.split)

lemma keeps_stopped_reply: "keeps_stopped w (snd (reply_turn s received sent w))"
proof -
  have "keeps_stopped v (on_uentry e (\<lambda>y. y\<lparr>ue_metrics := m y\<rparr>) v)" for v e m
    by (rule keeps_stopped_entry) (simp add: uentry_stopped_def)
  note metrics = this [THEN keeps_stopped_trans [rotated]]
  show ?thesis by (simp add: reply_turn_def Let_def keeps_stopped_then keeps_stopped_remove_then metrics split: sum.split)
qed

subsection \<open>The invariant\<close>

definition udp_inv :: "udp_world \<Rightarrow> bool" where
  "udp_inv w \<longleftrightarrow> sessions_inv w \<and> ugauges_ok w \<and> utable_ok w"

lemma udp_inv_frame:
  "udp_inv w \<Longrightarrow> sessions_inv w' \<Longrightarrow> ugauge_view w' = ugauge_view w \<Longrightarrow> keeps_stopped w w' \<Longrightarrow> udp_inv w'"
  unfolding udp_inv_def using ugauges_ok_view utable_ok_keeps by blast

lemma udp_inv_view:
  "udp_inv w \<Longrightarrow> session_view w' = session_view w \<Longrightarrow> ugauge_view w' = ugauge_view w \<Longrightarrow> keeps_stopped w w' \<Longrightarrow> udp_inv w'"
  using udp_inv_frame sessions_inv_view udp_inv_def by blast

lemma udp_inv_count: "(\<And>m. m_udp_active_sessions (h m) = m_udp_active_sessions m) \<Longrightarrow> udp_inv w \<Longrightarrow> udp_inv (udp_count h w)"
  by (erule udp_inv_view) simp_all

lemma udp_inv_live: "e < length (uw_heap w) \<Longrightarrow> ue_receiving (uw_heap w ! e) \<Longrightarrow> keeps_stopped w (on_uentry e f w)"
  by (rule keeps_stopped_entry) (simp add: uentry_stopped_def)

lemma sessions_inv_expire:
  "sessions_inv w \<Longrightarrow> e < length (uw_heap w) \<Longrightarrow> sessions_inv (expire_each e ttl now xs w) \<and>
    length (uw_heap (expire_each e ttl now xs w)) = length (uw_heap w)"
  by (induction e ttl now xs w rule: expire_each.induct) (simp_all add: sessions_inv_remove)

lemma sessions_inv_cleanup:
  assumes "sessions_inv w" and "e < length (uw_heap w)"
  shows "sessions_inv (cleanup_tick e ttl w)"
proof -
  let ?v = "expire_idle_sessions e ttl w"
  have v: "sessions_inv ?v" "e < length (uw_heap ?v)" using sessions_inv_expire [OF assms] assms(2) by (simp_all add: expire_idle_sessions_def)
  have "session_view (compact_empty_sessions_after_idle e ttl ?v) = session_view ?v"
    using v(2) by (simp add: compact_empty_sessions_after_idle_def session_view_on_uentry entry_core_def split: option.split)
  then show ?thesis unfolding cleanup_tick_def using v(1) sessions_inv_view by blast
qed

lemma sessions_inv_count: "sessions_inv w \<Longrightarrow> sessions_inv (udp_count h w)"
  by (erule sessions_inv_view [rotated]) simp

lemma sessions_inv_group_sent: "sessions_inv w \<Longrightarrow> e < length (uw_heap w) \<Longrightarrow> sessions_inv (group_sent e s indexes result w)"
  by (simp add: group_sent_def sessions_inv_remove sessions_inv_count split: sum.split)

lemma sessions_inv_reply:
  assumes ok: "sessions_inv w" and s: "s < length (uw_sessions w)"
  shows "sessions_inv (snd (reply_turn s received sent w))"
proof -
  let ?e = "se_entry (uw_sessions w ! s)"
  have e: "?e < length (uw_heap w)" using ok s by (simp add: sessions_inv_def session_ok_def)
  have ends: "sessions_inv (abort_reply_task s (remove_session ?e c s r (udp_count h w)))" for c r h
    by (rule sessions_inv_view [OF session_view_frame(2)]) (use s e ok in \<open>simp_all add: sessions_inv_remove sessions_inv_count\<close>)
  have stale: "sessions_inv (abort_reply_task s (udp_count h (close_session s w)))" for h
    using s by (intro sessions_inv_view [OF _ ok]) (simp add: session_view_frame)
  have "session_view (on_session s (\<lambda>y. y\<lparr>se_last_seen := t\<rparr>) (on_uentry ?e (\<lambda>y. y\<lparr>ue_metrics := m y\<rparr>) (udp_count h w))) = session_view w" for t m h
    using s e by (simp add: session_view_on_session session_view_on_uentry session_core_def entry_core_def)
  then have sent: "sessions_inv (on_session s (\<lambda>y. y\<lparr>se_last_seen := t\<rparr>) (on_uentry ?e (\<lambda>y. y\<lparr>ue_metrics := m y\<rparr>) (udp_count h w)))" for t m h
    using sessions_inv_view ok by blast
  show ?thesis using ends stale sent by (simp add: reply_turn_def Let_def split: sum.split)
qed

lemma sessions_inv_stop:
  assumes ok: "sessions_inv w" and e: "e < length (uw_heap w)"
  shows "sessions_inv (udp_stop_entry e d w)"
proof -
  let ?f = "\<lambda>x. x\<lparr>ue_shutdown := True, ue_receiving := False, ue_cleaning := False, ue_target := None, ue_inflight := None\<rparr>"
  have "uentry_ok (on_uentry e ?f w) e"
    using uentry_okD(1) [OF ok e] e by (auto simp: uentry_ok_def Let_def holds_session_def gen_matches_def)
  then have "sessions_inv (on_uentry e ?f w)" by (rule sessions_inv_entry [OF ok e]) (simp add: gen_matches_def)
  then show ?thesis unfolding udp_stop_entry_def using sessions_inv_close e by simp
qed

lemma sessions_inv_entries: "sessions_inv (w\<lparr>uw_entries := es\<rparr>) = sessions_inv w"
  using sessions_inv_view [of "w\<lparr>uw_entries := es\<rparr>" w] sessions_inv_view [of w "w\<lparr>uw_entries := es\<rparr>"] by auto

subsection \<open>Tasks\<close>

lemma keeps_stopped_begin:
  assumes "e < length (uw_heap w)" "ue_receiving (uw_heap w ! e)"
  shows "keeps_stopped w (begin_session e client h p g w)"
proof -
  obtain res w1 where cr: "create_session e client h p g w = (res, w1)" by fastforce
  have "keeps_stopped w w1"
    using cr by (auto simp: create_session_def session_guard_new_def Let_def keeps_stopped_def nth_on_nth uentry_stopped_def split: if_splits)
  then show ?thesis using assms by (auto simp: begin_session_def cr keeps_stopped_def nth_on_nth uentry_stopped_def)
qed

lemma keeps_stopped_drop: "keeps_stopped w (session_guard_drop s w)"
  by (auto simp: session_guard_drop_def Let_def keeps_stopped_def nth_on_nth uentry_stopped_def)

lemma keeps_stopped_finish:
  assumes "e < length (uw_heap w)" "ue_receiving (uw_heap w ! e)"
  shows "keeps_stopped w (finish_session e s w)"
proof -
  let ?w = "on_uentry e (\<lambda>y. y\<lparr>ue_inflight := None\<rparr>) w"
  obtain res w1 where run: "enter_session e (se_client_addr (uw_sessions ?w ! s)) (se_generation (uw_sessions ?w ! s)) s ?w = (res, w1)" by fastforce
  have "keeps_stopped w w1" using run assms
    by (auto simp: enter_session_def Let_def keeps_stopped_def nth_on_nth uentry_stopped_def split: option.splits if_splits)
  then show ?thesis
    using run keeps_stopped_trans [OF _ keeps_stopped_drop] by (auto simp: finish_session_def Let_def split: prod.split)
qed

lemma udp_inv_begin:
  assumes inv: "udp_inv w" and e: "e < length (uw_heap w)" "ue_receiving (uw_heap w ! e)" and target: "ue_target (uw_heap w ! e) = Some (h, p, g)"
    and absent: "lookup_session e client g w = Absent"
  shows "udp_inv (begin_session e client h p g w)"
proof -
  obtain res w1 where cr: "create_session e client h p g w = (res, w1)" by fastforce
  have "ugauges_ok w1" using ugauges_ok_create [of w e client h p g] inv e(1) cr by (simp add: udp_inv_def)
  then have "ugauges_ok (begin_session e client h p g w)"
    by (rule ugauges_ok_view [rotated]) (simp add: begin_session_def cr)
  then show ?thesis
    using sessions_inv_begin [OF _ e(1) target absent] inv utable_ok_keeps [OF keeps_stopped_begin [OF e]] by (simp add: udp_inv_def)
qed

lemma udp_inv_drop:
  assumes inv: "udp_inv w" and s: "s < length (uw_sessions w)"
    and free: "\<And>c. (c, s) \<notin> set (ue_sessions (uw_heap w ! se_entry (uw_sessions w ! s)))"
      "ue_inflight (uw_heap w ! se_entry (uw_sessions w ! s)) \<noteq> Some s"
  shows "udp_inv (session_guard_drop s w)"
proof -
  have e: "se_entry (uw_sessions w ! s) < length (uw_heap w)" using inv s by (simp add: udp_inv_def sessions_inv_def session_ok_def)
  show ?thesis
    using sessions_inv_drop [OF _ s free] ugauges_ok_drop [OF _ s e] utable_ok_keeps [OF keeps_stopped_drop] inv by (auto simp: udp_inv_def)
qed

lemma udp_inv_finish:
  assumes inv: "udp_inv w" and e: "e < length (uw_heap w)" "ue_receiving (uw_heap w ! e)" and fl: "ue_inflight (uw_heap w ! e) = Some s"
  shows "udp_inv (finish_session e s w)"
proof -
  let ?w = "on_uentry e (\<lambda>y. y\<lparr>ue_inflight := None\<rparr>) w"
  have ok: "sessions_inv w" using inv by (simp add: udp_inv_def)
  note w0 = finish_cases [OF ok e(1) fl]
  obtain res w1 where run: "enter_session e (se_client_addr (uw_sessions ?w ! s)) (se_generation (uw_sessions ?w ! s)) s ?w = (res, w1)" by fastforce
  note ent = sessions_inv_enter [OF w0(1,5,2,3,4) run]
  have s: "s < length (uw_sessions w)" "se_entry (uw_sessions w ! s) = e" using w0(2) by (simp_all add: holds_session_def)
  have "ugauge_view w1 = ugauge_view ?w" using ugauge_view_ops(7) [of e _ _ s ?w] run by (metis snd_conv)
  then have "ugauges_ok w1" using inv ugauges_ok_view [of w1 w] by (simp add: udp_inv_def)
  moreover have "ugauges_ok (session_guard_drop s w1)" if "res \<noteq> Some s"
    by (rule ugauges_ok_drop [OF calculation]) (use ent(2) [OF that] s e in simp_all)
  ultimately have "ugauges_ok (finish_session e s w)" using run by (auto simp: finish_session_def Let_def split: prod.split)
  then show ?thesis using sessions_inv_finish [OF ok e(1) fl] inv utable_ok_keeps [OF keeps_stopped_finish [OF e]] by (auto simp: udp_inv_def)
qed

subsection \<open>Control\<close>

lemma udp_inv_entries:
  assumes "udp_inv w" and "distinct (map fst es)" and "distinct (map snd es)" and "snd ` set es \<subseteq> {..<length (uw_heap w)}"
    and "\<And>e. e < length (uw_heap w) \<Longrightarrow> e \<notin> snd ` set es \<Longrightarrow> uentry_stopped (uw_heap w ! e)"
  shows "udp_inv (w\<lparr>uw_entries := es\<rparr>)"
  using assms ugauges_ok_view [of "w\<lparr>uw_entries := es\<rparr>" w] by (simp add: udp_inv_def utable_ok_def sessions_inv_entries)

lemma utable_bound:
  assumes "utable_ok w" and "map_of (uw_entries w) i = Some e" shows "e < length (uw_heap w)"
proof -
  have "(i, e) \<in> set (uw_entries w)" using assms(2) by (rule map_of_SomeD)
  then have "e \<in> snd ` set (uw_entries w)" by force
  then show ?thesis using assms(1) unfolding utable_ok_def by blast
qed

lemma udp_entries_bound: "udp_inv w \<Longrightarrow> map_of (uw_entries w) i = Some e \<Longrightarrow> e < length (uw_heap w)"
  using utable_bound udp_inv_def by blast

lemma udp_inv_stop:
  assumes "udp_inv w" and "e < length (uw_heap w)"
  shows "udp_inv (udp_stop_entry e d w)"
  by (rule udp_inv_frame [OF assms(1)]) (use assms sessions_inv_stop keeps_stopped_stop in \<open>auto simp: udp_inv_def\<close>)

lemma close_each_entries: "close_each d ss (w\<lparr>uw_entries := es\<rparr>) = (close_each d ss w)\<lparr>uw_entries := es\<rparr>"
proof -
  have "abort_reply_task s (v\<lparr>uw_entries := es\<rparr>) = (abort_reply_task s v)\<lparr>uw_entries := es\<rparr>"
    "close_session s (v\<lparr>uw_entries := es\<rparr>) = (close_session s v)\<lparr>uw_entries := es\<rparr>"
    "udp_count h (v\<lparr>uw_entries := es\<rparr>) = (udp_count h v)\<lparr>uw_entries := es\<rparr>" for s v h
    by (simp_all add: abort_reply_task_def close_session_def on_session_def udp_count_def)
  then show ?thesis by (induction d ss w rule: close_each.induct) (simp_all split: if_splits)
qed

lemma udp_stop_entry_entries: "udp_stop_entry e d (w\<lparr>uw_entries := es\<rparr>) = (udp_stop_entry e d w)\<lparr>uw_entries := es\<rparr>"
proof -
  have on: "on_uentry k f (v\<lparr>uw_entries := es\<rparr>) = (on_uentry k f v)\<lparr>uw_entries := es\<rparr>" for k f v by (simp add: on_uentry_def)
  show ?thesis by (simp add: udp_stop_entry_def udp_close_sessions_def Let_def on close_each_entries)
qed

lemma utable_ok_delete:
  assumes tab: "utable_ok w"
  shows "utable_ok (snd (udp_delete i t w))"
proof (cases "map_of (uw_entries w) i")
  case (Some e)
  have e: "e < length (uw_heap w)" using utable_bound [OF tab Some] .
  note stop = udp_stop_entry_sel [OF e, where d = True]
  have rest: "snd ` set (AList.delete i (uw_entries w)) = snd ` set (uw_entries w) - {e}"
    using snd_delete [OF _ Some] tab by (simp add: utable_ok_def)
  have "uentry_stopped (uw_heap (udp_stop_entry e True w) ! k)"
    if "k < length (uw_heap w)" "k \<notin> snd ` set (AList.delete i (uw_entries w))" for k
    using that tab rest stop(3,4) by (cases "k = e") (auto simp: utable_ok_def)
  then have "utable_ok ((udp_stop_entry e True w)\<lparr>uw_entries := AList.delete i (uw_entries w)\<rparr>)"
    using tab rest stop(2) by (auto simp: utable_ok_def distinct_delete_both)
  then show ?thesis using Some by (simp add: udp_delete_def udp_stop_entry_entries)
qed (use tab in \<open>simp add: udp_delete_def\<close>)

lemma udp_inv_delete: "udp_inv w \<Longrightarrow> udp_inv (snd (udp_delete i t w))"
  using utable_ok_delete [of w i t] udp_entries_bound [of w i] ugauges_ok_view [of "snd (udp_delete i t w)" w]
  by (auto simp: udp_inv_def udp_delete_def udp_stop_entry_entries sessions_inv_entries sessions_inv_stop split: option.splits)

lemma udp_stop_entries:
  assumes "set es \<subseteq> {..<length (uw_heap w)}"
  shows "keeps_stopped w (fold (\<lambda>e. udp_stop_entry e d) es w) \<and> (\<forall>k \<in> set es. uentry_stopped (uw_heap (fold (\<lambda>e. udp_stop_entry e d) es w) ! k))"
  using assms
proof (induction es arbitrary: w)
  case (Cons e es)
  have e: "e < length (uw_heap w)" using Cons.prems by simp
  note stop = udp_stop_entry_sel [OF e, where d = d] keeps_stopped_stop [OF e, of d]
  have "keeps_stopped (udp_stop_entry e d w) (fold (\<lambda>e. udp_stop_entry e d) es (udp_stop_entry e d w)) \<and>
      (\<forall>k \<in> set es. uentry_stopped (uw_heap (fold (\<lambda>e. udp_stop_entry e d) es (udp_stop_entry e d w)) ! k))"
    using Cons stop(2) by simp
  then show ?case using stop e keeps_stopped_trans [OF stop(5)] by (auto simp: keeps_stopped_def)
qed simp

lemma udp_stop_all_entries: "fold (\<lambda>e. udp_stop_entry e d) es (v\<lparr>uw_entries := xs\<rparr>) = (fold (\<lambda>e. udp_stop_entry e d) es v)\<lparr>uw_entries := xs\<rparr>"
  by (induction es arbitrary: v) (simp_all add: udp_stop_entry_entries)

lemma utable_ok_shutdown:
  assumes tab: "utable_ok w"
  shows "utable_ok (udp_shutdown_all w)"
proof -
  let ?es = "map snd (uw_entries w)" and ?v = "fold (\<lambda>e. udp_stop_entry e False) (map snd (uw_entries w)) w"
  have v: "keeps_stopped w ?v" "\<And>k. k \<in> snd ` set (uw_entries w) \<Longrightarrow> uentry_stopped (uw_heap ?v ! k)"
    using udp_stop_entries [of ?es w False] tab by (auto simp: utable_ok_def)
  then have "uentry_stopped (uw_heap ?v ! k)" if "k < length (uw_heap ?v)" for k
    using that tab by (cases "k \<in> snd ` set (uw_entries w)") (auto simp: utable_ok_def keeps_stopped_def)
  then show ?thesis by (simp add: udp_shutdown_all_def udp_stop_all_entries utable_ok_def)
qed

lemma sessions_inv_stop_all:
  "sessions_inv w \<Longrightarrow> set es \<subseteq> {..<length (uw_heap w)} \<Longrightarrow> sessions_inv (fold (\<lambda>e. udp_stop_entry e d) es w)"
  by (induction es arbitrary: w) (simp_all add: sessions_inv_stop udp_stop_entry_sel(2))

lemma udp_inv_shutdown: "udp_inv w \<Longrightarrow> udp_inv (udp_shutdown_all w)"
  using utable_ok_shutdown [of w] sessions_inv_stop_all [of w "map snd (uw_entries w)" False]
    ugauges_ok_view [of "udp_shutdown_all w" w] ugauge_view_stop_all [of False "map snd (uw_entries w)"]
  by (simp add: udp_inv_def udp_shutdown_all_def udp_stop_all_entries sessions_inv_entries utable_ok_def)

lemma utable_ok_open_entry:
  assumes tab: "utable_ok w" and new: "map_of (uw_entries w) i = None"
  shows "utable_ok (w\<lparr>uw_heap := uw_heap w @ [x], uw_entries := AList.update i (length (uw_heap w)) (uw_entries w)\<rparr>)"
proof -
  have "i \<notin> set (map fst (uw_entries w))" using new by (simp add: map_of_eq_None_iff)
  then show ?thesis using tab by (auto simp: utable_ok_def update_fresh nth_append less_Suc_eq)
qed

lemma udp_inv_open_entry:
  assumes inv: "udp_inv w" and new: "map_of (uw_entries w) i = None"
  shows "udp_inv (w\<lparr>uw_heap := uw_heap w @ [udp_new_entry config a], uw_entries := AList.update i (length (uw_heap w)) (uw_entries w)\<rparr>)" (is "udp_inv ?u")
proof -
  have "sessions_inv ?u" using sessions_inv_new_entry [of w config a] inv by (simp add: udp_inv_def sessions_inv_entries)
  moreover have "ugauges_ok ?u"
  proof -
    have none: "count_if (\<lambda>s. se_entry s = length (uw_heap w) \<and> se_guard s) (uw_sessions w) = 0"
      using inv by (force simp: count_if_def filter_empty_conv udp_inv_def sessions_inv_def session_ok_def in_set_conv_nth)
    show ?thesis using inv none
      by (auto simp: udp_inv_def ugauges_ok_def nth_append less_Suc_eq udp_new_entry_def listener_metrics_default_def)
  qed
  moreover have "utable_ok ?u" using utable_ok_open_entry [OF _ new] inv by (simp add: udp_inv_def)
  ultimately show ?thesis by (simp add: udp_inv_def)
qed

lemma udp_inv_open:
  assumes inv: "udp_inv w" and new: "map_of (uw_entries w) (a_id a) = None"
  shows "udp_inv (snd (udp_open a restore w))"
proof (cases "udp_bind_addr (uw_config w) (a_port a)")
  case (Inr addr)
  obtain granted w1 where b: "udp_bind addr w = (granted, w1)" by fastforce
  have "udp_inv (snd (udp_bind addr w))" by (rule udp_inv_view [OF inv]) (simp_all add: udp_bind_def)
  then have w1: "udp_inv w1" "uw_entries w1 = uw_entries w" using b by (auto simp: udp_bind_def)
  have "udp_inv (udp_count h (w1\<lparr>uw_heap := uw_heap w1 @ [udp_new_entry (uw_config w1) a],
      uw_entries := AList.update (a_id a) (length (uw_heap w1)) (uw_entries w)\<rparr>))"
    if "\<And>m. m_udp_active_sessions (h m) = m_udp_active_sessions m" for h
    using udp_inv_count [OF that udp_inv_open_entry [OF w1(1), of "a_id a"]] new w1(2) by simp
  moreover have "udp_inv (udp_count h w1)" "udp_inv (udp_count h' (udp_count h w1))"
    if "\<And>m. m_udp_active_sessions (h m) = m_udp_active_sessions m" "\<And>m. m_udp_active_sessions (h' m) = m_udp_active_sessions m" for h h'
    using udp_inv_count that w1(1) by simp_all
  ultimately show ?thesis using inv Inr b w1 by (cases granted) (simp_all add: udp_open_def udp_bind_entry_def Let_def)
qed (use inv in \<open>simp add: udp_open_def udp_bind_entry_def\<close>)

lemma udp_inv_publish: "udp_inv w \<Longrightarrow> e < length (uw_heap w) \<Longrightarrow> ue_generation (uw_heap w ! e) \<noteq> - 1 \<Longrightarrow> udp_inv (publish_target a e w)"
  by (rule udp_inv_frame [OF _ _ _ keeps_stopped_publish]) (simp_all add: udp_inv_def sessions_inv_publish)

lemma udp_inv_finish_update: "udp_inv w \<Longrightarrow> e < length (uw_heap w) \<Longrightarrow> udp_inv (finish_update e w)"
  by (rule udp_inv_frame [OF _ _ _ keeps_stopped_finish_update]) (simp_all add: udp_inv_def sessions_inv_finish_update)

subsection \<open>All steps\<close>

lemma udp_inv_received:
  assumes "udp_inv w" and "e < length (uw_heap w)" and "ue_receiving (uw_heap w ! e)"
  shows "udp_inv (count_received e batch count w)"
  using assms(1)
proof (rule udp_inv_view)
  show "session_view (count_received e batch count w) = session_view w"
    using assms(2) by (simp add: count_received_def Let_def session_view_on_uentry entry_core_def)
  show "keeps_stopped w (count_received e batch count w)"
    using assms by (simp add: count_received_def Let_def keeps_stopped_def nth_on_nth uentry_stopped_def)
qed simp

lemma udp_inv_capture:
  assumes "udp_inv w" and "e < length (uw_heap w)" and "ue_receiving (uw_heap w ! e)" and "ue_inflight (uw_heap w ! e) = None"
  shows "udp_inv (capture_target e w)"
  using assms(1)
proof (rule udp_inv_frame)
  show "keeps_stopped w (capture_target e w)"
    unfolding capture_target_def Let_def by (rule udp_inv_live [OF assms(2,3)])
qed (use assms sessions_inv_capture in \<open>auto simp: udp_inv_def\<close>)

lemma udp_step_inv: "udp_step w w' \<Longrightarrow> udp_inv w \<Longrightarrow> udp_inv w'"
proof (induction rule: udp_step.induct)
  case (time_passes w t)
  from time_passes.prems show ?case by (rule udp_inv_view) simp_all
next
  case (counted h w)
  then show ?case using udp_inv_count by blast
next
  case (receive_failed e w)
  from receive_failed.prems show ?case
    by (rule udp_inv_view) (use receive_failed.hyps in \<open>simp_all add: udp_inv_live session_view_on_uentry entry_core_def\<close>)
next
  case (touch s w)
  from touch.prems show ?case by (rule udp_inv_view) (use touch.hyps in \<open>simp_all add: session_view_on_session session_core_def\<close>)
next
  case (mark_closed s w)
  from mark_closed.prems show ?case by (rule udp_inv_view) (use mark_closed.hyps in \<open>simp_all add: session_view_frame\<close>)
next
  case (group_done e w s indexes result)
  from group_done.prems show ?case
    by (rule udp_inv_frame) (use group_done in \<open>simp_all add: udp_inv_def sessions_inv_group_sent keeps_stopped_group_sent\<close>)
next
  case (reply s w datagram sent)
  from reply.prems show ?case
    by (rule udp_inv_frame) (use reply in \<open>simp_all add: udp_inv_def sessions_inv_reply keeps_stopped_reply ugauge_view_reply\<close>)
next
  case (reply_stops s w)
  from reply_stops.prems show ?case by (rule udp_inv_view) (use reply_stops.hyps in \<open>simp_all add: session_view_frame\<close>)
next
  case (release s w)
  from release.prems release.hyps(1) show ?case by (rule udp_inv_drop) (use release.hyps in force)+
next
  case (cleanup e w ttl)
  from cleanup.prems show ?case
    by (rule udp_inv_frame) (use cleanup in \<open>simp_all add: udp_inv_def sessions_inv_cleanup keeps_stopped_cleanup\<close>)
qed (simp_all add: udp_inv_received udp_inv_capture udp_inv_begin udp_inv_finish udp_create_def udp_restore_def udp_inv_open udp_inv_publish udp_inv_finish_update
    udp_entries_bound udp_inv_delete udp_inv_shutdown)

lemma udp_inv_new: "udp_inv (udp_runtime_new config metrics_default grants connects)"
  by (simp add: udp_inv_def sessions_inv_def ugauges_ok_def utable_ok_def udp_runtime_new_def metrics_default_def)

lemma udp_steps_inv: "udp_step\<^sup>*\<^sup>* w w' \<Longrightarrow> udp_inv w \<Longrightarrow> udp_inv w'"
  by (induction rule: rtranclp_induct) (auto dest: udp_step_inv)

text \<open>The rule on stopped entries does not rest on the session invariant.\<close>

lemma utable_ok_open:
  assumes tab: "utable_ok w" and new: "map_of (uw_entries w) (a_id a) = None"
  shows "utable_ok (snd (udp_open a restore w))"
proof -
  have b: "utable_ok (w\<lparr>uw_bind_calls := n\<rparr>)" for n using tab by (simp add: utable_ok_def)
  have "utable_ok (udp_count h v) = utable_ok v" for h v by (simp add: utable_ok_def)
  then show ?thesis using tab b utable_ok_open_entry [OF b, where i = "a_id a"] new
    by (simp add: udp_open_def udp_bind_entry_def udp_bind_def Let_def split: sum.split bool.split)
qed

lemma udp_step_utable: "udp_step w w' \<Longrightarrow> utable_ok w \<Longrightarrow> utable_ok w'"
proof (induction rule: udp_step.induct)
  case (received e w batch count)
  then have "keeps_stopped w (count_received e batch count w)"
    by (simp add: count_received_def Let_def keeps_stopped_def nth_on_nth uentry_stopped_def)
  then show ?case using received.prems by (rule utable_ok_keeps)
next
  case (capture e w)
  have "keeps_stopped w (capture_target e w)" unfolding capture_target_def Let_def by (rule udp_inv_live [OF capture.hyps(1,2)])
  then show ?case using capture.prems by (rule utable_ok_keeps)
qed (simp_all add: utable_ok_keeps [OF keeps_stopped_session(4)] utable_ok_keeps [OF keeps_stopped_session(6)] utable_ok_keeps [OF udp_inv_live]
    utable_ok_keeps [OF keeps_stopped_begin] utable_ok_keeps [OF keeps_stopped_finish] utable_ok_keeps [OF keeps_stopped_session(5)]
    utable_ok_keeps [OF keeps_stopped_session(1)] utable_ok_keeps [OF keeps_stopped_group_sent] utable_ok_keeps [OF keeps_stopped_reply]
    utable_ok_keeps [OF keeps_stopped_session(2)] utable_ok_keeps [OF keeps_stopped_drop] utable_ok_keeps [OF keeps_stopped_cleanup]
    udp_create_def udp_restore_def utable_ok_open utable_ok_keeps [OF keeps_stopped_publish] utable_ok_keeps [OF keeps_stopped_finish_update]
    utable_ok_delete utable_ok_shutdown)

end
