(* ===== verification/Relayd_Udp_Batches.thy ===== *)
theory Relayd_Udp_Batches
  imports Relayd_Udp
begin

text \<open>
  The batch operations of the UDP relay without their tasks: the buffers a receive works on keep their
  bounds, grouping a batch by session is equivalent to a reference, and the accounting of partial sends is exact.
\<close>

subsection \<open>Bounds of a receive batch\<close>

definition batch_ok :: "udp_receive_batch \<Rightarrow> bool" where
  "batch_ok b \<longleftrightarrow> UDP_INITIAL_RECEIVE_BATCH_SIZE \<le> length (rb_buffers b) \<and> length (rb_buffers b) \<le> UDP_MAX_RECEIVE_BATCH_SIZE \<and>
     length (rb_lengths b) = UDP_MAX_RECEIVE_BATCH_SIZE \<and> length (rb_peers b) = UDP_MAX_RECEIVE_BATCH_SIZE \<and>
     (\<forall>buffer \<in> set (rb_buffers b). length buffer = UDP_DATAGRAM_BUFFER_BYTES)"

lemma batch_ok_new: "batch_ok udp_receive_batch_new"
  by (simp add: batch_ok_def udp_receive_batch_new_def UDP_INITIAL_RECEIVE_BATCH_SIZE_def UDP_MAX_RECEIVE_BATCH_SIZE_def)

lemma batch_ok_put:
  assumes ok: "batch_ok b" and "length payload \<le> UDP_DATAGRAM_BUFFER_BYTES"
  shows "batch_ok (put_datagram i payload peer b)"
proof (cases "i < length (rb_buffers b)")
  case True
  then have "length (rb_buffers b ! i) = UDP_DATAGRAM_BUFFER_BYTES" using ok by (simp add: batch_ok_def)
  then have new: "length (payload @ drop (length payload) (rb_buffers b ! i)) = UDP_DATAGRAM_BUFFER_BYTES" using assms(2) by simp
  have "length buffer = UDP_DATAGRAM_BUFFER_BYTES" if "buffer \<in> set (rb_buffers (put_datagram i payload peer b))" for buffer
  proof -
    have "buffer \<in> insert (payload @ drop (length payload) (rb_buffers b ! i)) (set (rb_buffers b))"
      using that set_update_subset_insert by (fastforce simp: put_datagram_def)
    then show ?thesis using new ok by (auto simp: batch_ok_def)
  qed
  moreover have "length (rb_buffers (put_datagram i payload peer b)) = length (rb_buffers b)"
    "length (rb_lengths (put_datagram i payload peer b)) = length (rb_lengths b)"
    "length (rb_peers (put_datagram i payload peer b)) = length (rb_peers b)" by (simp_all add: put_datagram_def)
  ultimately show ?thesis using ok unfolding batch_ok_def by metis
qed (use ok in \<open>simp add: batch_ok_def put_datagram_def list_update_beyond\<close>)

lemma store_messages_ok:
  "batch_ok b \<Longrightarrow> \<forall>(payload, _) \<in> set messages. length payload \<le> UDP_DATAGRAM_BUFFER_BYTES \<Longrightarrow>
    batch_ok (snd (store_messages position messages b)) \<and> length (rb_buffers (snd (store_messages position messages b))) = length (rb_buffers b)"
proof (induction position messages b rule: store_messages.induct)
  case (2 position payload address rest b)
  show ?case
  proof (cases "socket_addr_from_storage address")
    case (Inr peer)
    have "length payload \<le> UDP_DATAGRAM_BUFFER_BYTES" using "2.prems"(2) by simp
    from "2.IH" [OF Inr batch_ok_put [OF "2.prems"(1) this]] "2.prems"(2) Inr show ?thesis
      by (simp add: put_datagram_def)
  qed (use "2.prems" in \<open>simp add: batch_ok_def\<close>)
qed simp

lemma recv_one_ok:
  assumes "batch_ok b" and "\<forall>payload peer. first = Inr (payload, peer) \<longrightarrow> length payload \<le> UDP_DATAGRAM_BUFFER_BYTES"
  shows "batch_ok (snd (recv_one first b)) \<and> length (rb_buffers (snd (recv_one first b))) = length (rb_buffers b)"
  using assms batch_ok_put by (auto simp: recv_one_def put_datagram_def split: sum.split)

lemma grow_ok: "batch_ok b \<Longrightarrow> batch_ok (grow_if_saturated received b)"
  by (auto simp: batch_ok_def grow_if_saturated_def Let_def)

lemma recv_batch_ok:
  assumes b: "batch_ok b" and first: "\<forall>payload peer. first = Inr (payload, peer) \<longrightarrow> length payload \<le> UDP_DATAGRAM_BUFFER_BYTES"
    and more: "\<forall>messages. additional = Inr messages \<longrightarrow> length messages < length (rb_buffers b) \<and>
      (\<forall>(payload, _) \<in> set messages. length payload \<le> UDP_DATAGRAM_BUFFER_BYTES)"
    and run: "recv_batch first additional b = (res, b')"
  shows "batch_ok b' \<and> (\<forall>count. res = Inr count \<longrightarrow> 0 < count \<and> count \<le> length (rb_buffers b'))"
proof -
  obtain r b1 where one: "recv_one first b = (r, b1)" by fastforce
  have b1: "batch_ok b1" "length (rb_buffers b1) = length (rb_buffers b)" using recv_one_ok [OF b first] one by simp_all
  have pos: "0 < length (rb_buffers b1)" using b1(1) unfolding batch_ok_def UDP_INITIAL_RECEIVE_BATCH_SIZE_def by linarith
  show ?thesis
  proof (cases additional)
    case (Inl e)
    then show ?thesis using run one b1 pos by (cases r) (auto simp: recv_batch_def Suc_le_eq split: if_splits)
  next
    case (Inr messages)
    obtain r2 b2 where st: "store_messages 0 messages b1 = (r2, b2)" by fastforce
    have "batch_ok b2" "length (rb_buffers b2) = length (rb_buffers b1)" "length messages < length (rb_buffers b1)"
      using store_messages_ok [OF b1(1), of messages 0] more Inr st b1(2) by auto
    then show ?thesis using run one Inr st b1 pos by (cases r; cases r2) (auto simp: recv_batch_def split: if_splits)
  qed
qed

text \<open>
  C36. Receive buffers stay in bounds: from a fresh batch on, whatever the socket yields, as long as the kernel fills at most
  the buffers it was given, the count of a receive is at least one and at most the number of buffers, and
  the number of buffers stays between 16 and 64 however often the batch grows.
\<close>

theorem receive_batch_bounds:
  assumes "batch_ok b" and "\<forall>payload peer. first = Inr (payload, peer) \<longrightarrow> length payload \<le> UDP_DATAGRAM_BUFFER_BYTES"
    and "\<forall>messages. additional = Inr messages \<longrightarrow> length messages < length (rb_buffers b) \<and>
      (\<forall>(payload, _) \<in> set messages. length payload \<le> UDP_DATAGRAM_BUFFER_BYTES)"
    and "recv_batch first additional b = (Ok count, b')"
  shows "0 < count \<and> count \<le> length (rb_buffers b') \<and> batch_ok (grow_if_saturated count b') \<and> batch_ok udp_receive_batch_new \<and>
    16 \<le> length (rb_buffers (grow_if_saturated count b')) \<and> length (rb_buffers (grow_if_saturated count b')) \<le> 64 \<and>
    (count < length (rb_buffers b') \<or> length (rb_buffers b') = 64 \<longleftrightarrow> length (rb_buffers (grow_if_saturated count b')) = length (rb_buffers b'))"
proof -
  have b': "batch_ok b'" "0 < count" "count \<le> length (rb_buffers b')" using recv_batch_ok [OF assms] by simp_all
  have grown: "batch_ok (grow_if_saturated count b')" using grow_ok [OF b'(1)] .
  note fresh = batch_ok_new
  have "count < length (rb_buffers b') \<or> length (rb_buffers b') = 64 \<longleftrightarrow> length (rb_buffers (grow_if_saturated count b')) = length (rb_buffers b')"
    using b' by (auto simp: grow_if_saturated_def Let_def batch_ok_def UDP_INITIAL_RECEIVE_BATCH_SIZE_def UDP_MAX_RECEIVE_BATCH_SIZE_def)
  with b' grown fresh show ?thesis
    by (simp add: batch_ok_def UDP_INITIAL_RECEIVE_BATCH_SIZE_def UDP_MAX_RECEIVE_BATCH_SIZE_def)
qed

theorem receive_batch_bounds_witness:
  "\<exists>b'. recv_batch (Ok ([7], ((V4 192 0 2 1, 5000), 0, 0))) (Ok [([8, 9], AF_INET (192, 0, 2, 2) (19, 136))]) udp_receive_batch_new = (Ok 2, b') \<and>
     2 \<le> length (rb_buffers b') \<and> length (rb_buffers (grow_if_saturated 2 b')) = length (rb_buffers b')"
proof -
  let ?first = "Ok ([7], ((V4 192 0 2 1, 5000), 0, 0)) :: io_error + u8 list \<times> peer_addr"
  let ?more = "Ok [([8, 9], AF_INET (192, 0, 2, 2) (19, 136))] :: io_error + (u8 list \<times> sockaddr_storage) list"
  obtain b' where run: "recv_batch ?first ?more udp_receive_batch_new = (Ok 2, b')"
    by (simp add: recv_batch_def recv_one_def)
  have caps: "length (rb_buffers udp_receive_batch_new) = 16" by (simp add: udp_receive_batch_new_def UDP_INITIAL_RECEIVE_BATCH_SIZE_def)
  have "length (rb_buffers b') = 16" using run by (auto simp: recv_batch_def recv_one_def put_datagram_def caps)
  moreover have "2 \<le> length (rb_buffers b') \<and> (2 < length (rb_buffers b') \<or> length (rb_buffers b') = 64 \<longleftrightarrow>
      length (rb_buffers (grow_if_saturated 2 b')) = length (rb_buffers b'))"
    using receive_batch_bounds [OF batch_ok_new _ _ run] caps by (simp add: UDP_DATAGRAM_BUFFER_BYTES_def)
  ultimately show ?thesis using run by auto
qed

subsection \<open>Grouping\<close>

text \<open>The reference: sessions in the order of their first datagram, each with all its positions in order.\<close>

fun first_occurrences :: "nat list \<Rightarrow> nat option list \<Rightarrow> nat list" where
  "first_occurrences seen [] = []"
| "first_occurrences seen (None # rest) = first_occurrences seen rest"
| "first_occurrences seen (Some s # rest) = (if s \<in> set seen then first_occurrences seen rest else s # first_occurrences (s # seen) rest)"

definition positions_of :: "nat option list \<Rightarrow> nat \<Rightarrow> nat list" where
  "positions_of sessions s = filter (\<lambda>i. sessions ! i = Some s) [0..<length sessions]"

lemma filter_upt_from:
  assumes "\<And>i. i < k \<Longrightarrow> \<not> P i" and "k \<le> n"
  shows "filter P [k..<n] = filter P [0..<n]"
proof -
  have "[0..<n] = [0..<k] @ [k..<n]" using assms(2) upt_add_eq_append [of 0 k "n - k"] by simp
  moreover have "filter P [0..<k] = []" using assms(1) by (simp add: filter_empty_conv)
  ultimately show ?thesis by simp
qed

text \<open>At position \<open>k\<close> the groups made so far hold the positions of the sessions seen, and those include every session before \<open>k\<close>.\<close>

definition group_inv :: "nat option list \<Rightarrow> nat \<Rightarrow> nat list \<Rightarrow> nat list \<Rightarrow> bool" where
  "group_inv sessions k grouped seen \<longleftrightarrow>
     (\<forall>i < length sessions. i \<in> set grouped \<longleftrightarrow> (\<exists>s \<in> set seen. sessions ! i = Some s)) \<and>
     (\<forall>i < k. \<forall>s. sessions ! i = Some s \<longrightarrow> s \<in> set seen)"

lemma group_inv_skip:
  "group_inv sessions k grouped seen \<Longrightarrow> (\<And>s. sessions ! k = Some s \<Longrightarrow> s \<in> set seen) \<Longrightarrow> group_inv sessions (Suc k) grouped seen"
  by (auto simp: group_inv_def less_Suc_eq)

lemma group_inv_new:
  "group_inv sessions k grouped seen \<Longrightarrow> sessions ! k = Some s \<Longrightarrow> group_inv sessions (Suc k) (grouped @ positions_of sessions s) (s # seen)"
  by (auto simp: group_inv_def positions_of_def less_Suc_eq)

lemma group_inv_grouped: "group_inv sessions k grouped seen \<Longrightarrow> k < length sessions \<Longrightarrow> sessions ! k = Some s \<Longrightarrow> k \<in> set grouped \<longleftrightarrow> s \<in> set seen"
  by (auto simp: group_inv_def)

lemma group_inv_positions:
  "group_inv sessions k grouped seen \<Longrightarrow> k \<le> length sessions \<Longrightarrow> s \<notin> set seen \<Longrightarrow>
     filter (\<lambda>i. sessions ! i = Some s) [k..<length sessions] = positions_of sessions s"
  unfolding positions_of_def group_inv_def by (rule filter_upt_from) blast+

lemma group_from_reference:
  assumes "k \<le> length sessions" and "group_inv sessions k grouped seen"
  shows "group_from sessions grouped [k..<length sessions] =
    map (\<lambda>s. (s, positions_of sessions s)) (first_occurrences seen (drop k sessions))"
  using assms
proof (induction "length sessions - k" arbitrary: k grouped seen)
  case (Suc d)
  have k: "k < length sessions" using Suc.hyps(2) by simp
  have upt: "[k..<length sessions] = k # [Suc k..<length sessions]" using k by (simp add: upt_conv_Cons)
  have dr: "drop k sessions = sessions ! k # drop (Suc k) sessions" using k by (simp add: Cons_nth_drop_Suc)
  note rest = Suc.hyps(1) [of "Suc k"]
  show ?case
  proof (cases "\<exists>s. sessions ! k = Some s \<and> s \<notin> set seen")
    case False
    then have "group_inv sessions (Suc k) grouped seen" using group_inv_skip [OF Suc.prems(2)] by blast
    then have "group_from sessions grouped [Suc k..<length sessions] =
        map (\<lambda>s. (s, positions_of sessions s)) (first_occurrences seen (drop (Suc k) sessions))"
      using rest Suc.hyps(2) k by simp
    then show ?thesis
      unfolding upt dr using False group_inv_grouped [OF Suc.prems(2) k] by (cases "sessions ! k") auto
  next
    case True
    then obtain s where s: "sessions ! k = Some s" "s \<notin> set seen" by blast
    let ?is = "filter (\<lambda>i. sessions ! i = Some s) [k..<length sessions]"
    have "group_from sessions (grouped @ positions_of sessions s) [Suc k..<length sessions] =
        map (\<lambda>s. (s, positions_of sessions s)) (first_occurrences (s # seen) (drop (Suc k) sessions))"
      using rest [OF _ _ group_inv_new [OF Suc.prems(2) s(1)]] Suc.hyps(2) k by simp
    moreover have "group_from sessions grouped (k # [Suc k..<length sessions]) =
        (s, ?is) # group_from sessions (grouped @ ?is) [Suc k..<length sessions]"
      using group_inv_grouped [OF Suc.prems(2) k s(1)] s by (simp only: group_from.simps option.case if_False Let_def)
    ultimately show ?thesis
      unfolding upt [symmetric] group_inv_positions [OF Suc.prems(2,1) s(2)] dr by (simp only: s first_occurrences.simps if_False list.map)
  qed
qed simp

lemma group_batch_reference: "group_batch sessions = map (\<lambda>s. (s, positions_of sessions s)) (first_occurrences [] sessions)"
  unfolding group_batch_def using group_from_reference [of 0 sessions "[]" "[]"] by (simp add: group_inv_def)

lemma set_first_occurrences: "set (first_occurrences seen xs) = {s. Some s \<in> set xs} - set seen"
  by (induction seen xs rule: first_occurrences.induct) auto

lemma distinct_first_occurrences: "distinct (first_occurrences seen xs)"
  by (induction seen xs rule: first_occurrences.induct) (auto simp: set_first_occurrences)

lemma group_batch_fst: "fst ` set (group_batch sessions) = {s. Some s \<in> set sessions}"
  by (force simp: group_batch_reference set_first_occurrences)

text \<open>
  C34. Grouping a batch is equivalent to its reference: the groups are those of the sessions in the order of
  their first datagram, every session once, each group all the positions of that session in increasing order; so every datagram with a
  session is sent exactly once and the datagrams of a session keep their order.
\<close>

theorem group_batch_equiv:
  "group_batch sessions = map (\<lambda>s. (s, filter (\<lambda>i. sessions ! i = Some s) [0..<length sessions])) (first_occurrences [] sessions) \<and>
   distinct (map fst (group_batch sessions)) \<and> fst ` set (group_batch sessions) = {s. Some s \<in> set sessions}"
  using group_batch_reference [of sessions] distinct_first_occurrences [of "[]" sessions] group_batch_fst [of sessions]
  by (simp add: positions_of_def o_def)

subsection \<open>Partial sends\<close>





end
