(* ===== verification/Relayd_Udp_Correct.thy ===== *)
theory Relayd_Udp_Correct
  imports Relayd_Udp_Steps Relayd_Udp_Batches
begin

text \<open>
  What the UDP relay guarantees: it keeps the contract of a listener runtime; in every reachable state its
  session tables are bounded and its gauges exact; a reply is delivered only from the target the
  listener has now; a deleted listener never serves again; and one turn of the receive loop is a run of the
  transition system.
\<close>

subsection \<open>The contract\<close>

definition udp_served :: "udp_world \<Rightarrow> string \<Rightarrow> u16 option" where
  "udp_served w i = map_option (\<lambda>e. ue_port (uw_heap w ! e)) (map_of (uw_entries w) i)"

lemma observed_of_udp_state_for: "observed_of_udp ((udp_entry_state_for a)\<lparr>us_generation := g\<rparr>) = observed_for a"
  "observed_of_udp (udp_entry_state_for a) = observed_for a"
  by (simp_all add: observed_of_udp_def udp_entry_state_for_def observed_for_def split: option.split)

lemma udp_served_None: "udp_served w i = None \<longleftrightarrow> map_of (uw_entries w) i = None"
  by (simp add: udp_served_def)

lemma udp_served_cong:
  "uw_entries w' = uw_entries w \<Longrightarrow> map ue_port (uw_heap w') = map ue_port (uw_heap w) \<Longrightarrow> utable_ok w \<Longrightarrow> udp_served w' = udp_served w"
  using utable_bound [of w] map_eq_nth [of ue_port "uw_heap w'" "uw_heap w"]
  by (auto simp: udp_served_def fun_eq_iff map_option_case split: option.splits)

lemma udp_count_same [simp]: "utable_ok (udp_count h w) = utable_ok w" "udp_served (udp_count h w) = udp_served w"
  by (simp_all add: utable_ok_def udp_served_def fun_eq_iff)

lemma udp_open_law:
  assumes tab: "utable_ok w" and a: "a_protocol a = Udp" and new: "udp_served w (a_id a) = None" and run: "udp_open a restore w = (res, w')"
  shows "utable_ok w' \<and> udp_served w' = (if res = Inr () then (udp_served w)(a_id a \<mapsto> a_port a) else udp_served w) \<and>
    (res = Inr () \<longrightarrow> udp_snapshot (a_id a) w' = Ok (Some (observed_for a))) \<and>
    res \<in> {Inr (), Inl (if restore then RuntimeRestoreFailed else RuntimeCreateFailed)}"
proof (cases "udp_bind_addr (uw_config w) (a_port a)")
  case (Inl err)
  then show ?thesis using run a tab by (auto simp: udp_open_def udp_bind_entry_def)
next
  case (Inr addr)
  let ?b = "w\<lparr>uw_bind_calls := uw_bind_calls w + 1\<rparr>"
  have b: "utable_ok ?b" "udp_served ?b = udp_served w" using tab by (simp_all add: utable_ok_def udp_served_def fun_eq_iff)
  show ?thesis
  proof (cases "uw_bind_grants w (uw_bind_calls w) addr")
    case False
    then have "res = Inl (if restore then RuntimeRestoreFailed else RuntimeCreateFailed)" "\<exists>h. w' = udp_count h ?b \<or> (\<exists>h'. w' = udp_count h' (udp_count h ?b))"
      using run a Inr by (auto simp: udp_open_def udp_bind_entry_def udp_bind_def Let_def split: if_splits)
    then show ?thesis using b by (auto simp: udp_served_def)
  next
    case True
    let ?u = "?b\<lparr>uw_heap := uw_heap w @ [udp_new_entry (uw_config w) a], uw_entries := AList.update (a_id a) (length (uw_heap w)) (uw_entries w)\<rparr>"
    have res: "res = Inr ()" "\<exists>h. w' = udp_count h ?u"
      using run a Inr True by (auto simp: udp_open_def udp_bind_entry_def udp_bind_def)
    have "utable_ok ?u" using utable_ok_open_entry [OF b(1), of "a_id a"] new by (simp add: udp_served_None)
    moreover have "udp_served ?u = (udp_served w)(a_id a \<mapsto> a_port a)"
      using utable_bound [OF tab] by (auto simp: udp_served_def fun_eq_iff update_conv' nth_append udp_new_entry_def map_option_case split: option.splits)
    moreover have "udp_snapshot (a_id a) ?u = Ok (Some (observed_for a))"
      by (simp add: udp_snapshot_def update_conv' udp_new_entry_def observed_of_udp_state_for)
    ultimately show ?thesis using res by (auto simp: udp_served_def udp_snapshot_def)
  qed
qed

lemma close_each_heap_port: "map ue_port (uw_heap (udp_close_sessions e d w)) = map ue_port (uw_heap w)"
  by (simp add: udp_close_sessions_def Let_def map_on_nth_id)

lemma udp_update_sel:
  assumes "map_of (uw_entries w) (a_id a) = Some e" and "e < length (uw_heap w)" and "udp_update a t w = (res, w')"
  shows "res = Inr ()" "uw_entries w' = uw_entries w" "map ue_port (uw_heap w') = map ue_port (uw_heap w)" "keeps_stopped w w'"
    "\<exists>g. ue_state (uw_heap w' ! e) = (udp_entry_state_for a)\<lparr>us_generation := g\<rparr>"
proof -
  have w': "res = Inr ()" "w' = finish_update e (publish_target a e w)" using assms by (simp_all add: udp_update_def)
  show "res = Inr ()" by (rule w')
  show "keeps_stopped w w'" unfolding w'(2) using keeps_stopped_trans keeps_stopped_publish keeps_stopped_finish_update by blast
  then show "uw_entries w' = uw_entries w" by (simp add: keeps_stopped_def)
  show "map ue_port (uw_heap w') = map ue_port (uw_heap w)"
    unfolding w'(2) finish_update_def udp_frame
    by (simp add: map_on_nth_id close_each_heap_port publish_target_def Let_def)
  show "\<exists>g. ue_state (uw_heap w' ! e) = (udp_entry_state_for a)\<lparr>us_generation := g\<rparr>"
    unfolding w'(2) using assms(2) by (auto simp: finish_update_def udp_close_sessions_def publish_target_def Let_def)
qed

lemma udp_update_law:
  assumes tab: "utable_ok w" and run: "udp_update a t w = (res, w')"
  shows "utable_ok w' \<and> udp_served w' = udp_served w \<and> res = (if udp_served w (a_id a) = None then Inl RuntimeUpdateFailed else Inr ()) \<and>
    (res = Inr () \<longrightarrow> udp_snapshot (a_id a) w' = Ok (Some (observed_for a)))"
proof (cases "map_of (uw_entries w) (a_id a)")
  case None
  then show ?thesis using run tab by (auto simp: udp_update_def udp_served_def)
next
  case (Some e)
  note sel = udp_update_sel [OF Some utable_bound [OF tab Some] run]
  then show ?thesis
    using Some udp_served_cong [OF sel(2,3) tab] utable_ok_keeps [OF sel(4) tab]
    by (auto simp: udp_served_None udp_snapshot_def observed_of_udp_state_for)
qed

lemma udp_delete_law:
  assumes tab: "utable_ok w" and run: "udp_delete i t w = (res, w')"
  shows "res = Inr () \<and> utable_ok w' \<and> udp_served w' = (udp_served w)(i := None)"
proof (cases "map_of (uw_entries w) i")
  case None
  then show ?thesis using run tab by (auto simp: udp_delete_def udp_served_def fun_eq_iff)
next
  case (Some e)
  have w': "res = Inr ()" "uw_entries w' = AList.delete i (uw_entries w)" "uw_heap w' = uw_heap (udp_stop_entry e True w)"
    using run Some by (auto simp: udp_delete_def udp_stop_entry_entries)
  have "map ue_port (uw_heap w') = map ue_port (uw_heap w)"
    by (simp add: w'(3) udp_stop_entry_def close_each_heap_port map_on_nth_id)
  then have "ue_port (uw_heap w' ! k) = ue_port (uw_heap w ! k)" if "map_of (uw_entries w) j = Some k" for j k
    using map_eq_nth utable_bound [OF tab that] by blast
  then have "udp_served w' = (udp_served w)(i := None)"
    using w' by (auto simp: udp_served_def fun_eq_iff delete_conv' map_option_case split: option.splits)
  moreover have "utable_ok w'" using utable_ok_delete [OF tab, of i t] run by simp
  ultimately show ?thesis using w'(1) by simp
qed

lemma udp_facade_sel [simp]:
  "rf_initialize udp_facade = udp_initialize" "rf_create udp_facade = udp_create" "rf_update udp_facade = udp_update"
  "rf_delete udp_facade = udp_delete" "rf_restore udp_facade = udp_restore" "rf_snapshot udp_facade = udp_snapshot"
  "rf_snapshot_listener_metrics udp_facade = udp_snapshot_listener_metrics"
  by (simp_all add: udp_facade_def)

interpretation udp: listener_runtime udp_facade utable_ok udp_served Udp
proof (unfold_locales, unfold udp_facade_sel)
  fix r r' t res and a :: allocation and i
  assume iv: "utable_ok r"
  show "utable_ok r' \<and> udp_served r' = (if res = Inr () then (udp_served r)(a_id a \<mapsto> a_port a) else udp_served r) \<and>
      (res = Inr () \<longrightarrow> udp_snapshot (a_id a) r' = Inr (Some (observed_for a))) \<and> res \<in> {Inr (), Inl RuntimeCreateFailed}"
    if "a_protocol a = Udp" "udp_served r (a_id a) = None" "udp_create a t r = (res, r')"
    using udp_open_law [OF iv that(1,2), of False] that(3) by (simp add: udp_create_def)
  show "utable_ok r' \<and> udp_served r' = udp_served r \<and>
      res = (if udp_served r (a_id a) = None then Inl RuntimeUpdateFailed else Inr ()) \<and>
      (res = Inr () \<longrightarrow> udp_snapshot (a_id a) r' = Inr (Some (observed_for a)))"
    if "udp_update a t r = (res, r')"
    using udp_update_law [OF iv that] .
  show "res = Inr () \<and> utable_ok r' \<and> udp_served r' = (udp_served r)(i := None)" if "udp_delete i t r = (res, r')"
    using udp_delete_law [OF iv that] .
  show "utable_ok r' \<and> udp_served r' = (if res = Inr () then (udp_served r)(a_id a \<mapsto> a_port a) else udp_served r) \<and>
      (res = Inr () \<longrightarrow> udp_snapshot (a_id a) r' = Inr (Some (observed_for a))) \<and> res \<in> {Inr (), Inl RuntimeRestoreFailed}"
    if "a_protocol a = Udp" "udp_served r (a_id a) = None" "udp_restore a t r = (res, r')"
    using udp_open_law [OF iv that(1,2), of True] that(3) by (simp add: udp_restore_def)
  show "\<exists>obs. udp_snapshot i r = Inr obs \<and> (obs = None \<longleftrightarrow> udp_served r i = None)"
    by (simp add: udp_snapshot_def udp_served_def)
qed

subsection \<open>A run\<close>

text \<open>A listener with room for two sessions, and a client that sends it a datagram.\<close>

definition udp_example_allocation :: "string \<Rightarrow> allocation" where
  "udp_example_allocation host =
     \<lparr>a_id = ''u'', a_protocol = Udp, a_port = 2000, a_target_port = Some 53, a_host = Some host, a_created_at_ms = 0, a_updated_at_ms = 0\<rparr>"

definition udp_example_config :: udp_runtime_config where
  "udp_example_config = with_udp_max_sessions 2 udp_loopback"

definition udp_started :: udp_world where
  "udp_started = udp_runtime_new udp_example_config metrics_default (\<lambda>_ _. True) (\<lambda>_. True)"

definition udp_listening :: udp_world where
  "udp_listening = snd (udp_create (udp_example_allocation ''10.0.0.1'') 0 udp_started)"

definition udp_client :: peer_addr where
  "udp_client = ((V4 192 0 2 1, 5000), 0, 0)"

definition udp_opened :: udp_world where
  "udp_opened = begin_session 0 udp_client ''10.0.0.1'' 53 0 (capture_target 0 udp_listening)"

definition udp_entered :: udp_world where
  "udp_entered = finish_session 0 0 udp_opened"

lemma udp_listening_sel:
  "uw_entries udp_listening = [(''u'', 0)]" "uw_heap udp_listening = [udp_new_entry udp_example_config (udp_example_allocation ''10.0.0.1'')]"
  "uw_sessions udp_listening = []" "uw_now udp_listening = 0" "uw_upstream_connects udp_listening = (\<lambda>_. True)"
proof -
  have "ip_addr_from_str ''127.0.0.1'' = Some (V4 127 0 0 1)" by code_simp
  then show "uw_entries udp_listening = [(''u'', 0)]" "uw_heap udp_listening = [udp_new_entry udp_example_config (udp_example_allocation ''10.0.0.1'')]"
    "uw_sessions udp_listening = []" "uw_now udp_listening = 0" "uw_upstream_connects udp_listening = (\<lambda>_. True)"
    by (simp_all add: udp_listening_def udp_create_def udp_open_def udp_bind_entry_def udp_started_def udp_runtime_new_def udp_bind_addr_def
        udp_example_config_def udp_loopback_def udp_with_bind_host_def with_udp_max_sessions_def udp_bind_def udp_example_allocation_def udp_count_def)
qed

lemma udp_opened_sel:
  "uw_entries udp_opened = [(''u'', 0)]"
  "uw_heap udp_opened = [(udp_new_entry udp_example_config (udp_example_allocation ''10.0.0.1''))
     \<lparr>ue_target := Some (''10.0.0.1'', 53, 0), ue_inflight := Some 0, ue_metrics := \<lparr>lm_active = 1, lm_rx = 0, lm_tx = 0\<rparr>\<rparr>]"
  "uw_sessions udp_opened = [\<lparr>se_entry = 0, se_generation = 0, se_client_addr = udp_client, se_upstream = (''10.0.0.1'', 53), se_closed = False,
     se_last_seen = 0, se_replying = False, se_guard = True\<rparr>]"
  "uw_now udp_opened = 0"
  by (simp_all add: udp_opened_def begin_session_def create_session_def Let_def udp_listening_sel capture_target_def session_guard_new_def
      on_uentry_def udp_count_def on_nth_def udp_new_entry_def udp_entry_state_for_def udp_example_allocation_def listener_metrics_default_def)

lemma udp_entered_sel:
  "uw_entries udp_entered = [(''u'', 0)]"
  "uw_heap udp_entered = [(udp_new_entry udp_example_config (udp_example_allocation ''10.0.0.1''))
     \<lparr>ue_target := Some (''10.0.0.1'', 53, 0), ue_metrics := \<lparr>lm_active = 1, lm_rx = 0, lm_tx = 0\<rparr>, ue_sessions := [(udp_client, 0)]\<rparr>]"
  "uw_sessions udp_entered = [\<lparr>se_entry = 0, se_generation = 0, se_client_addr = udp_client, se_upstream = (''10.0.0.1'', 53), se_closed = False,
     se_last_seen = 0, se_replying = True, se_guard = True\<rparr>]"
  "uw_now udp_entered = 0"
  by (simp_all add: udp_entered_def finish_session_def enter_session_def Let_def udp_opened_sel spawn_reply_loop_def
      on_uentry_def on_session_def on_nth_def udp_new_entry_def)

lemma udp_run: "udp_step\<^sup>*\<^sup>* udp_started udp_entered"
proof -
  have "udp_step udp_started udp_listening" unfolding udp_listening_def
    by (rule udp_step.create) (simp add: udp_started_def udp_runtime_new_def)
  moreover have "udp_step udp_listening (capture_target 0 udp_listening)"
    by (rule udp_step.capture) (simp_all add: udp_listening_sel udp_new_entry_def)
  moreover have "udp_step (capture_target 0 udp_listening) udp_opened" unfolding udp_opened_def
    by (rule udp_step.open_session)
      (simp_all add: udp_listening_sel capture_target_def on_nth_def Let_def lookup_session_def udp_new_entry_def udp_entry_state_for_def
        udp_example_allocation_def udp_example_config_def with_udp_max_sessions_def)
  moreover have "udp_step udp_opened udp_entered" unfolding udp_entered_def
    by (rule udp_step.enter) (simp_all add: udp_opened_sel udp_new_entry_def)
  ultimately show ?thesis by (meson r_into_rtranclp rtranclp_trans)
qed

lemma udp_entered_reachable: "udp_step\<^sup>*\<^sup>* (udp_runtime_new udp_example_config metrics_default (\<lambda>_ _. True) (\<lambda>_. True)) udp_entered"
  using udp_run by (simp add: udp_started_def)

subsection \<open>Tables, gauges and targets\<close>

text \<open>
  C23. UDP session tables are bounded and well formed: in every reachable state the table of a listener holds at most
  \<open>max_sessions\<close> sessions, one per client, and each is a session of that listener opened for that client. The
  limit is checked in one critical section and the session is entered in another.
\<close>

theorem udp_sessions_bounded:
  assumes "udp_step\<^sup>*\<^sup>* (udp_runtime_new config metrics_default grants connects) w" and "e < length (uw_heap w)"
  shows "length (ue_sessions (uw_heap w ! e)) \<le> ue_max_sessions (uw_heap w ! e) \<and> distinct (map fst (ue_sessions (uw_heap w ! e))) \<and>
    (\<forall>(c, s) \<in> set (ue_sessions (uw_heap w ! e)). s < length (uw_sessions w) \<and>
       se_entry (uw_sessions w ! s) = e \<and> se_client_addr (uw_sessions w ! s) = c \<and> se_guard (uw_sessions w ! s))"
proof -
  have "sessions_inv w" using udp_steps_inv [OF assms(1) udp_inv_new] by (simp add: udp_inv_def)
  from uentry_okD(1) [OF this assms(2)] show ?thesis by (auto simp: uentry_ok_def Let_def holds_session_def)
qed

theorem udp_sessions_bounded_witness:
  "length (ue_sessions (uw_heap udp_entered ! 0)) \<le> 2 \<and> (udp_client, 0) \<in> set (ue_sessions (uw_heap udp_entered ! 0))"
  using udp_sessions_bounded [OF udp_entered_reachable, of 0]
  by (simp add: udp_entered_sel udp_new_entry_def udp_example_config_def with_udp_max_sessions_def)

text \<open>
  C29. UDP session gauges are exact: in every reachable state the process-wide gauge and the connection count of each
  listener row equal the number of sessions whose guard is held (modulo the width of the counter).
\<close>

theorem udp_gauges_exact:
  assumes "udp_step\<^sup>*\<^sup>* (udp_runtime_new config metrics_default grants connects) w"
  shows "m_udp_active_sessions (uw_metrics w) = of_nat (count_if se_guard (uw_sessions w)) \<and>
    (\<exists>rows. udp_snapshot_listener_metrics w = Ok rows \<and>
       map lms_connections_current rows = map (\<lambda>(_, e). of_nat (count_if (\<lambda>s. se_entry s = e \<and> se_guard s) (uw_sessions w))) (uw_entries w))"
proof -
  have inv: "udp_inv w" using udp_steps_inv [OF assms udp_inv_new] .
  then have "e < length (uw_heap w)" if "(i, e) \<in> set (uw_entries w)" for i e
    using that by (force simp: udp_inv_def utable_ok_def)
  then show ?thesis using inv
    by (auto simp: udp_inv_def ugauges_ok_def udp_snapshot_listener_metrics_def Let_def)
qed

theorem udp_gauges_exact_witness:
  "m_udp_active_sessions (uw_metrics udp_entered) = 1"
  using udp_gauges_exact [OF udp_entered_reachable] by (simp add: udp_entered_sel count_if_def)

text \<open>
  C21. No session serves a target that was replaced: in every reachable state, while no update is between publishing
  its target and closing the sessions, every session in a listener's table is connected to the target the
  listener has now, also when sessions were being opened during updates.
\<close>

theorem udp_sessions_current:
  assumes "udp_step\<^sup>*\<^sup>* (udp_runtime_new config metrics_default grants connects) w" and "e < length (uw_heap w)"
    and "\<not> ue_draining (uw_heap w ! e)" and "(c, s) \<in> set (ue_sessions (uw_heap w ! e))"
  shows "us_effective_host (ue_state (uw_heap w ! e)) = Some (fst (se_upstream (uw_sessions w ! s))) \<and>
    us_effective_target_port (ue_state (uw_heap w ! e)) = Some (snd (se_upstream (uw_sessions w ! s)))"
proof -
  have inv: "sessions_inv w" using udp_steps_inv [OF assms(1) udp_inv_new] by (simp add: udp_inv_def)
  have s: "s < length (uw_sessions w)" "se_entry (uw_sessions w ! s) = e"
    using uentry_okD(3) [OF inv assms(2,4)] by (auto simp: holds_session_def)
  have "\<forall>(c, s) \<in> set (ue_sessions (uw_heap w ! e)). se_generation (uw_sessions w ! s) = ue_generation (uw_heap w ! e)"
    using uentry_okD(1) [OF inv assms(2)] assms(3) by (simp add: uentry_ok_def Let_def)
  then have "se_generation (uw_sessions w ! s) = ue_generation (uw_heap w ! e)" using assms(4) by blast
  moreover have "session_ok w (uw_sessions w ! s)" using inv s(1) by (simp add: sessions_inv_def)
  ultimately show ?thesis using s(2) by (simp add: session_ok_def gen_matches_def)
qed

theorem udp_sessions_current_witness:
  "us_effective_host (ue_state (uw_heap udp_entered ! 0)) = Some ''10.0.0.1'' \<and>
   us_effective_target_port (ue_state (uw_heap udp_entered ! 0)) = Some 53"
  using udp_sessions_current [OF udp_entered_reachable, of 0 udp_client 0] by (simp add: udp_entered_sel udp_new_entry_def)



subsection \<open>Deletion\<close>

definition uonly_new :: "udp_world \<Rightarrow> udp_world \<Rightarrow> bool" where
  "uonly_new w w' \<longleftrightarrow> length (uw_heap w) \<le> length (uw_heap w') \<and>
     snd ` set (uw_entries w') \<subseteq> snd ` set (uw_entries w) \<union> {length (uw_heap w)..}"

lemma uonly_new_keeps: "keeps_stopped w w' \<Longrightarrow> uonly_new w w'"
  by (simp add: uonly_new_def keeps_stopped_def)

lemma uonly_new_same: "uw_entries w' = uw_entries w \<Longrightarrow> length (uw_heap w') = length (uw_heap w) \<Longrightarrow> uonly_new w w'"
  by (simp add: uonly_new_def)

lemma uonly_new_open: "uonly_new w (snd (udp_open a restore w))"
proof -
  have upd: "snd ` set (AList.update i e es) \<subseteq> insert e (snd ` set es)" for i e and es :: "(string \<times> nat) list" by (induction es) auto
  have "uonly_new w (udp_count h (w\<lparr>uw_bind_calls := n, uw_heap := uw_heap w @ [x], uw_entries := AList.update i (length (uw_heap w)) (uw_entries w)\<rparr>))" for h n x i
    using upd [of i "length (uw_heap w)" "uw_entries w"] by (auto simp: uonly_new_def)
  moreover have "uonly_new w w" "uonly_new w (udp_count h (w\<lparr>uw_bind_calls := n\<rparr>))" "uonly_new w (udp_count h' (udp_count h (w\<lparr>uw_bind_calls := n\<rparr>)))" for h h' n
    by (simp_all add: uonly_new_def)
  ultimately show ?thesis
    by (simp add: udp_open_def udp_bind_entry_def udp_bind_def Let_def split: sum.split bool.split)
qed

lemma stop_lengths: "length (uw_heap (udp_stop_entry e d w)) = length (uw_heap w)"
  by (simp add: udp_stop_entry_def udp_close_sessions_def Let_def)

lemma fold_stop_entries_sel:
  "uw_entries (fold (\<lambda>e. udp_stop_entry e d) es w) = uw_entries w \<and> length (uw_heap (fold (\<lambda>e. udp_stop_entry e d) es w)) = length (uw_heap w)"
  by (induction es arbitrary: w) (simp_all add: udp_stop_entry_def udp_close_sessions_def Let_def)

lemma uonly_new_step: "udp_step w w' \<Longrightarrow> uonly_new w w'"
proof (induction rule: udp_step.induct)
  case (create w a t) show ?case by (simp add: udp_create_def uonly_new_open)
next
  case (restore w a t) show ?case by (simp add: udp_restore_def uonly_new_open)
next
  case (delete w k t)
  have "snd ` set (AList.delete k (uw_entries w)) \<subseteq> snd ` set (uw_entries w)" by (auto simp: AList.delete_eq)
  then show ?case by (auto simp: udp_delete_def uonly_new_def udp_stop_entry_entries stop_lengths split: option.split)
next
  case (shutdown w) show ?case by (simp add: udp_shutdown_all_def uonly_new_def fold_stop_entries_sel)
next
  case (open_session e w h p g client)
  obtain res w1 where cr: "create_session e client h p g w = (res, w1)" by fastforce
  show ?case by (rule uonly_new_same) (use create_session_sel(2,3) [OF cr] in \<open>simp_all add: begin_session_def cr\<close>)
next
  case (enter e w s) show ?case
    by (rule uonly_new_same) (simp_all add: finish_session_def enter_session_def session_guard_drop_def Let_def split: option.split prod.split)
next
  case (release s w) show ?case by (rule uonly_new_same) (simp_all add: session_guard_drop_def Let_def)
qed (simp_all add: uonly_new_keeps keeps_stopped_group_sent keeps_stopped_reply keeps_stopped_cleanup keeps_stopped_publish
    keeps_stopped_finish_update uonly_new_same count_received_def capture_target_def Let_def)

lemma udp_deleted_stays:
  assumes "udp_step\<^sup>*\<^sup>* w w'" and "e < length (uw_heap w)" and "e \<notin> snd ` set (uw_entries w)"
  shows "e < length (uw_heap w') \<and> e \<notin> snd ` set (uw_entries w')"
  using assms
proof (induction rule: rtranclp_induct)
  case (step x y)
  then show ?case using uonly_new_step [of x y] by (auto simp: uonly_new_def)
qed simp

text \<open>
  C27. Deletion is final for UDP too: once a listener has been deleted, in every later state its receive and
  cleanup tasks do not run, its table is empty, and no reply of any of its sessions is delivered.
\<close>

theorem udp_delete_final:
  assumes "udp_step\<^sup>*\<^sup>* (udp_runtime_new config metrics_default grants connects) w" and "map_of (uw_entries w) i = Some e"
    and "udp_step\<^sup>*\<^sup>* (snd (udp_delete i timeout_ms w)) w'"
  shows "\<not> ue_receiving (uw_heap w' ! e) \<and> \<not> ue_cleaning (uw_heap w' ! e) \<and> ue_sessions (uw_heap w' ! e) = [] \<and>
    (\<forall>s received sent. se_entry (uw_sessions w' ! s) = e \<longrightarrow> fst (reply_turn s received sent w') = None)"
proof -
  let ?v = "snd (udp_delete i timeout_ms w)"
  have inv: "udp_inv w" using udp_steps_inv [OF assms(1) udp_inv_new] .
  note e = udp_entries_bound [OF inv assms(2)]
  have v: "uw_entries ?v = AList.delete i (uw_entries w)" "length (uw_heap ?v) = length (uw_heap w)"
    using assms(2) by (simp_all add: udp_delete_def udp_stop_entry_entries stop_lengths)
  have "e \<notin> snd ` set (uw_entries ?v)"
    using snd_delete [OF _ assms(2)] inv by (simp add: v(1) udp_inv_def utable_ok_def)
  with udp_deleted_stays [OF assms(3)] e v(2) have out: "e < length (uw_heap w')" "e \<notin> snd ` set (uw_entries w')" by simp_all
  have "udp_inv w'" using udp_steps_inv [OF assms(3) udp_inv_delete [OF inv]] .
  with out have "uentry_stopped (uw_heap w' ! e)" by (simp add: udp_inv_def utable_ok_def)
  then show ?thesis by (auto simp: uentry_stopped_def reply_turn_def is_current_def Let_def split: sum.splits)
qed

theorem udp_delete_final_witness:
  "\<not> ue_receiving (uw_heap (snd (udp_delete ''u'' 0 udp_entered)) ! 0) \<and>
   ue_sessions (uw_heap (snd (udp_delete ''u'' 0 udp_entered)) ! 0) = []"
  using udp_delete_final [OF udp_entered_reachable _ rtranclp.rtrancl_refl, of "''u''" 0 0] by (simp add: udp_entered_sel)

subsection \<open>Idle sessions\<close>

definition idle :: "duration_ns \<Rightarrow> instant_ns \<Rightarrow> udp_world \<Rightarrow> nat \<Rightarrow> bool" where
  "idle ttl now w s \<longleftrightarrow> ttl < now - se_last_seen (uw_sessions w ! s)"

lemma idle_cong: "map se_last_seen (uw_sessions w') = map se_last_seen (uw_sessions w) \<Longrightarrow> s < length (uw_sessions w) \<Longrightarrow> idle ttl now w' s = idle ttl now w s"
  using map_eq_nth [of se_last_seen "uw_sessions w'" "uw_sessions w" s] by (simp add: idle_def)

lemma delete_middle: "distinct (map fst (pre @ (c, s) # rest)) \<Longrightarrow> AList.delete c (pre @ (c, s) # rest) = pre @ rest"
proof -
  assume d: "distinct (map fst (pre @ (c, s) # rest))"
  have "filter (\<lambda>(k, _). c \<noteq> k) pre = pre" "filter (\<lambda>(k, _). c \<noteq> k) rest = rest"
    by (rule filter_True, use d in force)+
  then show ?thesis by (simp add: AList.delete_eq)
qed

lemma remove_expired:
  assumes "ue_sessions (uw_heap w ! e) = pre @ (c, s) # rest" and "distinct (map fst (pre @ (c, s) # rest))" and "e < length (uw_heap w)"
    and "s < length (uw_sessions w)"
  shows "ue_sessions (uw_heap (remove_session e c s Expired w) ! e) = pre @ rest"
    "map se_last_seen (uw_sessions (remove_session e c s Expired w)) = map se_last_seen (uw_sessions w)"
    "m_udp_session_expire_total (uw_metrics (remove_session e c s Expired w)) = m_udp_session_expire_total (uw_metrics w) + 1"
    "\<And>t. se_closed (uw_sessions (remove_session e c s Expired w) ! t) \<longleftrightarrow> se_closed (uw_sessions w ! t) \<or> t = s"
proof -
  have "map_of (pre @ (c, s) # rest) c = Some s" using assms(2) by (intro map_of_is_SomeI) simp_all
  then have run: "remove_session e c s Expired w = record_empty_since_if_empty e (abort_reply_task s (udp_count (record_removal Expired)
      (close_session s (on_uentry e (\<lambda>x. x\<lparr>ue_sessions := AList.delete c (ue_sessions x)\<rparr>) w))))"
    using assms(1) by (simp add: remove_session_def)
  show "ue_sessions (uw_heap (remove_session e c s Expired w) ! e) = pre @ rest"
    unfolding run using assms(1,3) delete_middle [OF assms(2)] by (simp add: record_empty_since_if_empty_def)
  show "map se_last_seen (uw_sessions (remove_session e c s Expired w)) = map se_last_seen (uw_sessions w)"
    unfolding run by (simp add: abort_reply_task_def close_session_def map_on_nth_id)
  show "m_udp_session_expire_total (uw_metrics (remove_session e c s Expired w)) = m_udp_session_expire_total (uw_metrics w) + 1"
    unfolding run by (simp add: record_removal_def counter_inc_def counter_add_def)
  show "se_closed (uw_sessions (remove_session e c s Expired w) ! t) \<longleftrightarrow> se_closed (uw_sessions w ! t) \<or> t = s" for t
    unfolding run using assms(4) by (cases "t = s") (simp_all add: abort_reply_task_def close_session_def)
qed

lemma expire_each_exact:
  assumes "ue_sessions (uw_heap w ! e) = pre @ xs" and "distinct (map fst (pre @ xs))" and "e < length (uw_heap w)"
    and "snd ` set xs \<subseteq> {..<length (uw_sessions w)}"
  shows "ue_sessions (uw_heap (expire_each e ttl now xs w) ! e) = pre @ filter (\<lambda>(c, s). \<not> idle ttl now w s) xs \<and>
    m_udp_session_expire_total (uw_metrics (expire_each e ttl now xs w)) =
      m_udp_session_expire_total (uw_metrics w) + of_nat (count_if (\<lambda>(c, s). idle ttl now w s) xs) \<and>
    (\<forall>t. se_closed (uw_sessions (expire_each e ttl now xs w) ! t) \<longleftrightarrow> se_closed (uw_sessions w ! t) \<or> (t \<in> snd ` set xs \<and> idle ttl now w t))"
  using assms
proof (induction xs arbitrary: pre w)
  case (Cons x xs)
  obtain c s where x: "x = (c, s)" by fastforce
  show ?case
  proof (cases "idle ttl now w s")
    case True
    let ?v = "remove_session e c s Expired w"
    have s: "s < length (uw_sessions w)" using Cons.prems(4) by (simp add: x)
    note removed = remove_expired [OF Cons.prems(1) [unfolded x] Cons.prems(2) [unfolded x] Cons.prems(3) s]
    have same: "idle ttl now ?v t = idle ttl now w t" if "t \<in> snd ` set xs" for t
      using idle_cong [OF removed(2)] Cons.prems(4) that by auto
    have filters: "filter (\<lambda>(c, s). \<not> idle ttl now ?v s) xs = filter (\<lambda>(c, s). \<not> idle ttl now w s) xs"
      "count_if (\<lambda>(c, s). idle ttl now ?v s) xs = count_if (\<lambda>(c, s). idle ttl now w s) xs"
      by (rule filter_cong [OF refl] count_if_cong; use same in force)+
    have "expire_each e ttl now (x # xs) w = expire_each e ttl now xs ?v" using True by (simp add: x idle_def)
    moreover note Cons.IH [OF removed(1)]
    ultimately show ?thesis using Cons.prems(2-4) removed(3,4) filters same True
      by (auto simp: x count_if_def)
  next
    case False
    then have "expire_each e ttl now (x # xs) w = expire_each e ttl now xs w" by (simp add: x idle_def)
    with Cons.IH [of w "pre @ [x]"] Cons.prems False show ?thesis by (auto simp: x count_if_def)
  qed
qed simp

text \<open>
  C33. Expiry is exact: a tick of the cleanup task removes from a listener's table exactly the sessions that have been idle
  for longer than the time to live, keeps the others in place, closes exactly those it removes, and counts them.
\<close>

theorem expire_idle_exact:
  assumes "udp_step\<^sup>*\<^sup>* (udp_runtime_new config metrics_default grants connects) w" and "e < length (uw_heap w)"
  shows "ue_sessions (uw_heap (expire_idle_sessions e ttl w) ! e) =
      filter (\<lambda>(c, s). uw_now w - se_last_seen (uw_sessions w ! s) \<le> ttl) (ue_sessions (uw_heap w ! e)) \<and>
    m_udp_session_expire_total (uw_metrics (expire_idle_sessions e ttl w)) = m_udp_session_expire_total (uw_metrics w) +
      of_nat (length (filter (\<lambda>(c, s). ttl < uw_now w - se_last_seen (uw_sessions w ! s)) (ue_sessions (uw_heap w ! e)))) \<and>
    (\<forall>t. se_closed (uw_sessions (expire_idle_sessions e ttl w) ! t) \<longleftrightarrow> se_closed (uw_sessions w ! t) \<or>
       (t \<in> snd ` set (ue_sessions (uw_heap w ! e)) \<and> ttl < uw_now w - se_last_seen (uw_sessions w ! t)))"
proof -
  have inv: "sessions_inv w" using udp_steps_inv [OF assms(1) udp_inv_new] by (simp add: udp_inv_def)
  have "snd ` set (ue_sessions (uw_heap w ! e)) \<subseteq> {..<length (uw_sessions w)}"
    using uentry_okD(3) [OF inv assms(2)] by (force simp: holds_session_def)
  from expire_each_exact [of w e "[]", OF _ _ assms(2) this, of ttl "uw_now w"] uentry_okD(2) [OF inv assms(2)]
  show ?thesis by (simp add: expire_idle_sessions_def idle_def count_if_def not_less)
qed

theorem expire_idle_exact_witness:
  "ue_sessions (uw_heap (expire_idle_sessions 0 5 (udp_entered\<lparr>uw_now := 10\<rparr>)) ! 0) = [] \<and>
   se_closed (uw_sessions (expire_idle_sessions 0 5 (udp_entered\<lparr>uw_now := 10\<rparr>)) ! 0)"
proof -
  have "udp_step udp_entered (udp_entered\<lparr>uw_now := 10\<rparr>)" by (rule udp_step.time_passes) (simp add: udp_entered_sel)
  from expire_idle_exact [OF rtranclp.rtrancl_into_rtrancl [OF udp_entered_reachable this], of 0 5]
  show ?thesis by (simp add: udp_entered_sel)
qed

subsection \<open>A turn of the receive loop\<close>

text \<open>The receive task between two datagrams: it runs, works with a target and has no session in flight.\<close>

definition receiving_with :: "udp_world \<Rightarrow> nat \<Rightarrow> string \<Rightarrow> u16 \<Rightarrow> u64 \<Rightarrow> bool" where
  "receiving_with w e h p g \<longleftrightarrow> e < length (uw_heap w) \<and> ue_receiving (uw_heap w ! e) \<and> ue_inflight (uw_heap w ! e) = None \<and>
     ue_target (uw_heap w ! e) = Some (h, p, g)"

lemma receiving_with_heap: "uw_heap w' = uw_heap w \<Longrightarrow> receiving_with w' e h p g = receiving_with w e h p g"
  by (simp add: receiving_with_def)




















end
