(* ===== verification/Relayd_Real.thy ===== *)
theory Relayd_Real
  imports Relayd_Tcp_Correct Relayd_Udp_Correct "HOL-Library.Multiset"
begin

text \<open>
  The userspace runtime (\<open>src/src/runtime/real.rs\<close>): the TCP and the UDP relay behind one facade, with a table of the
  protocol of each allocation. Both relays count into the same \<open>Metrics\<close>; a relay works on a world
  that carries the shared counters and hands them back. The composition keeps the contract of a runtime, given
  that each relay keeps the contract of a listener runtime.
\<close>

subsection \<open>Configuration and state\<close>

record real_runtime_config =
  rrc_bind_host :: string
  rrc_udp_session_ttl :: duration_ns
  rrc_udp_max_sessions :: nat
  rrc_udp_batch_enabled :: bool
  rrc_tcp_splice_enabled :: bool
  rrc_force_tcp_copy_fallback :: bool

definition real_with_bind_host :: "string \<Rightarrow> real_runtime_config" where
  "real_with_bind_host host =
     \<lparr>rrc_bind_host = host, rrc_udp_session_ttl = 60000 * 1000000, rrc_udp_max_sessions = 65536, rrc_udp_batch_enabled = True,
      rrc_tcp_splice_enabled = False, rrc_force_tcp_copy_fallback = False\<rparr>"

definition real_loopback :: real_runtime_config where
  "real_loopback = real_with_bind_host ''127.0.0.1''"

definition real_with_udp_session_ttl :: "duration_ns \<Rightarrow> real_runtime_config \<Rightarrow> real_runtime_config" where
  "real_with_udp_session_ttl ttl c = c\<lparr>rrc_udp_session_ttl := ttl\<rparr>"

definition real_with_udp_max_sessions :: "nat \<Rightarrow> real_runtime_config \<Rightarrow> real_runtime_config" where
  "real_with_udp_max_sessions n c = c\<lparr>rrc_udp_max_sessions := n\<rparr>"

definition real_with_udp_batch_enabled :: "bool \<Rightarrow> real_runtime_config \<Rightarrow> real_runtime_config" where
  "real_with_udp_batch_enabled enabled c = c\<lparr>rrc_udp_batch_enabled := enabled\<rparr>"

definition real_with_tcp_splice_enabled :: "bool \<Rightarrow> real_runtime_config \<Rightarrow> real_runtime_config" where
  "real_with_tcp_splice_enabled enabled c = c\<lparr>rrc_tcp_splice_enabled := enabled\<rparr>"

definition real_with_force_tcp_copy_fallback :: "bool \<Rightarrow> real_runtime_config \<Rightarrow> real_runtime_config" where
  "real_with_force_tcp_copy_fallback force c = c\<lparr>rrc_force_tcp_copy_fallback := force\<rparr>"

record real_runtime =
  rr_tcp :: tcp_world
  rr_udp :: udp_world
  rr_metrics :: metrics
  rr_protocols :: "(string \<times> protocol) list"

text \<open>\<open>tcp_grants\<close>, \<open>udp_grants\<close> and \<open>connects\<close> are the answers of the operating system to the relays.\<close>

definition real_runtime_new :: "real_runtime_config \<Rightarrow> metrics \<Rightarrow> (nat \<Rightarrow> socket_addr \<Rightarrow> bool) \<Rightarrow> (nat \<Rightarrow> socket_addr \<Rightarrow> bool) \<Rightarrow> (nat \<Rightarrow> bool) \<Rightarrow> real_runtime" where
  "real_runtime_new config m tcp_grants udp_grants connects =
     \<lparr>rr_tcp = tcp_runtime_new (with_force_tcp_copy_fallback (rrc_force_tcp_copy_fallback config)
        (with_tcp_splice_enabled (rrc_tcp_splice_enabled config) (tcp_with_bind_host (rrc_bind_host config)))) m tcp_grants,
      rr_udp = udp_runtime_new (with_udp_batch_enabled (rrc_udp_batch_enabled config)
        (with_udp_max_sessions (rrc_udp_max_sessions config) (with_session_ttl (rrc_udp_session_ttl config)
          (udp_with_bind_host (rrc_bind_host config))))) m udp_grants connects,
      rr_metrics = m, rr_protocols = []\<rparr>"

definition tcp_now :: "real_runtime \<Rightarrow> tcp_world" where
  "tcp_now r = (rr_tcp r)\<lparr>tw_metrics := rr_metrics r\<rparr>"

definition udp_now :: "real_runtime \<Rightarrow> udp_world" where
  "udp_now r = (rr_udp r)\<lparr>uw_metrics := rr_metrics r\<rparr>"

definition with_tcp :: "(tcp_world, 'e, 'a) action \<Rightarrow> (real_runtime, 'e, 'a) action" where
  "with_tcp f r = (case f (tcp_now r) of (res, w) \<Rightarrow> (res, r\<lparr>rr_tcp := w, rr_metrics := tw_metrics w\<rparr>))"

definition with_udp :: "(udp_world, 'e, 'a) action \<Rightarrow> (real_runtime, 'e, 'a) action" where
  "with_udp f r = (case f (udp_now r) of (res, w) \<Rightarrow> (res, r\<lparr>rr_udp := w, rr_metrics := uw_metrics w\<rparr>))"

definition set_protocol :: "string \<Rightarrow> protocol \<Rightarrow> (real_runtime, runtime_error, unit) action" where
  "set_protocol i p r = (Ok (), r\<lparr>rr_protocols := AList.update i p (rr_protocols r)\<rparr>)"

subsection \<open>Operations\<close>

definition as_protocol :: "allocation \<Rightarrow> protocol \<Rightarrow> allocation" where
  "as_protocol a p = a\<lparr>a_protocol := p\<rparr>"

definition real_shutdown_all :: "real_runtime \<Rightarrow> real_runtime" where
  "real_shutdown_all r =
     (let r = r\<lparr>rr_protocols := []\<rparr>; w = tcp_shutdown_all (tcp_now r); r = r\<lparr>rr_tcp := w, rr_metrics := tw_metrics w\<rparr>;
          v = udp_shutdown_all (udp_now r)
      in r\<lparr>rr_udp := v, rr_metrics := uw_metrics v\<rparr>)"

definition real_initialize :: "u32 \<Rightarrow> (real_runtime, runtime_error, unit) action" where
  "real_initialize timeout_ms = return ()"

definition real_create :: "allocation \<Rightarrow> u32 \<Rightarrow> (real_runtime, runtime_error, unit) action" where
  "real_create a timeout_ms =
     (case a_protocol a of
        Tcp \<Rightarrow> and_then (with_tcp (tcp_create a timeout_ms)) (\<lambda>_. set_protocol (a_id a) Tcp)
      | Udp \<Rightarrow> and_then (with_udp (udp_create a timeout_ms)) (\<lambda>_. set_protocol (a_id a) Udp)
      | Both \<Rightarrow>
          and_then (with_tcp (tcp_create (as_protocol a Tcp) timeout_ms)) (\<lambda>_ r.
            case with_udp (udp_create (as_protocol a Udp) timeout_ms) r of
              (Inl e, r1) \<Rightarrow> (Err e, snd (with_tcp (tcp_delete (a_id a) timeout_ms) r1))
            | (Inr _, r1) \<Rightarrow> set_protocol (a_id a) Both r1))"

definition real_update :: "allocation \<Rightarrow> u32 \<Rightarrow> (real_runtime, runtime_error, unit) action" where
  "real_update a timeout_ms =
     (case a_protocol a of
        Tcp \<Rightarrow> with_tcp (tcp_update a timeout_ms)
      | Udp \<Rightarrow> with_udp (udp_update a timeout_ms)
      | Both \<Rightarrow>
          and_then (with_tcp (tcp_update (as_protocol a Tcp) timeout_ms)) (\<lambda>_.
            with_udp (udp_update (as_protocol a Udp) timeout_ms)))"

definition real_delete :: "string \<Rightarrow> u32 \<Rightarrow> (real_runtime, runtime_error, unit) action" where
  "real_delete i timeout_ms r =
     (case with_tcp (tcp_delete i timeout_ms) (r\<lparr>rr_protocols := AList.delete i (rr_protocols r)\<rparr>) of
        (tcp, r1) \<Rightarrow>
          (case with_udp (udp_delete i timeout_ms) r1 of
             (udp, r2) \<Rightarrow> (question tcp (\<lambda>_. udp), r2)))"

definition real_restore :: "allocation \<Rightarrow> u32 \<Rightarrow> (real_runtime, runtime_error, unit) action" where
  "real_restore a timeout_ms =
     (case a_protocol a of
        Tcp \<Rightarrow> and_then (with_tcp (tcp_restore a timeout_ms)) (\<lambda>_. set_protocol (a_id a) Tcp)
      | Udp \<Rightarrow> and_then (with_udp (udp_restore a timeout_ms)) (\<lambda>_. set_protocol (a_id a) Udp)
      | Both \<Rightarrow>
          and_then (with_tcp (tcp_restore (as_protocol a Tcp) timeout_ms)) (\<lambda>_ r.
            case with_udp (udp_restore (as_protocol a Udp) timeout_ms) r of
              (Inl _, r1) \<Rightarrow> (Err RuntimeRestoreFailed, snd (with_tcp (tcp_delete (a_id a) timeout_ms) r1))
            | (Inr _, r1) \<Rightarrow> set_protocol (a_id a) Both r1))"

definition degraded_from :: "observed_state \<Rightarrow> string \<Rightarrow> observed_state" where
  "degraded_from s msg =
     s\<lparr>os_runtime_status := DegradedApplyFailed, os_error_kind := Some ApplyFailed, os_last_error := Some msg\<rparr>"

fun aggregate_snapshot :: "observed_state option \<Rightarrow> observed_state option \<Rightarrow> observed_state option" where
  "aggregate_snapshot (Some tcp) (Some udp) =
     (if tcp = udp then Some tcp else Some (degraded_from tcp ''divergent tcp/udp runtime state''))"
| "aggregate_snapshot (Some tcp) None = Some (degraded_from tcp ''missing udp runtime state'')"
| "aggregate_snapshot None (Some udp) = Some (degraded_from udp ''missing tcp runtime state'')"
| "aggregate_snapshot None None = None"

definition real_snapshot :: "string \<Rightarrow> real_runtime \<Rightarrow> runtime_error + observed_state option" where
  "real_snapshot i r =
     (case map_of (rr_protocols r) i of
        Some Tcp \<Rightarrow> tcp_snapshot i (tcp_now r)
      | Some Udp \<Rightarrow> udp_snapshot i (udp_now r)
      | Some Both \<Rightarrow>
          question (tcp_snapshot i (tcp_now r)) (\<lambda>tcp.
            question (udp_snapshot i (udp_now r)) (\<lambda>udp. Ok (aggregate_snapshot tcp udp)))
      | None \<Rightarrow> Ok None)"

definition real_snapshot_listener_metrics :: "real_runtime \<Rightarrow> runtime_error + listener_metrics_snapshot list" where
  "real_snapshot_listener_metrics r =
     question (tcp_snapshot_listener_metrics (tcp_now r)) (\<lambda>tcp.
       question (udp_snapshot_listener_metrics (udp_now r)) (\<lambda>udp.
         Ok (sort_key (\<lambda>row. (lms_port row, protocol_as_str (lms_protocol row))) (tcp @ udp))))"

definition real_facade :: "real_runtime runtime_facade" where
  "real_facade =
     \<lparr>rf_initialize = real_initialize, rf_create = real_create, rf_update = real_update, rf_delete = real_delete,
      rf_restore = real_restore, rf_snapshot = real_snapshot, rf_snapshot_listener_metrics = real_snapshot_listener_metrics\<rparr>"

lemma real_facade_sel [simp]:
  "rf_initialize real_facade = real_initialize" "rf_create real_facade = real_create" "rf_update real_facade = real_update"
  "rf_delete real_facade = real_delete" "rf_restore real_facade = real_restore" "rf_snapshot real_facade = real_snapshot"
  "rf_snapshot_listener_metrics real_facade = real_snapshot_listener_metrics"
  by (simp_all add: real_facade_def)

subsection \<open>The relays do not disturb each other's counters\<close>

definition tcp_part :: "metrics \<Rightarrow> u64 \<times> u64 \<times> u64" where
  "tcp_part m = (m_tcp_active_sessions m, m_tcp_session_create_total m, m_tcp_session_close_total m)"

lemma tcp_part_close_each: "tcp_part (uw_metrics (close_each d ss w)) = tcp_part (uw_metrics w)"
  by (induction d ss w rule: close_each.induct) (simp_all add: tcp_part_def record_removal_def)

lemma tcp_part_udp:
  "tcp_part (uw_metrics (snd (udp_create a t w))) = tcp_part (uw_metrics w)"
  "tcp_part (uw_metrics (snd (udp_restore a t w))) = tcp_part (uw_metrics w)"
  "tcp_part (uw_metrics (snd (udp_update a t w))) = tcp_part (uw_metrics w)"
  "tcp_part (uw_metrics (snd (udp_delete i t w))) = tcp_part (uw_metrics w)"
proof -
  have "tcp_part (uw_metrics (snd (udp_open a b w))) = tcp_part (uw_metrics w)" for b
    by (simp add: tcp_part_def udp_open_def udp_bind_entry_def udp_bind_def Let_def split: sum.split bool.split)
  then show "tcp_part (uw_metrics (snd (udp_create a t w))) = tcp_part (uw_metrics w)"
    "tcp_part (uw_metrics (snd (udp_restore a t w))) = tcp_part (uw_metrics w)"
    by (simp_all add: udp_create_def udp_restore_def)
  have close: "tcp_part (uw_metrics (udp_close_sessions e d v)) = tcp_part (uw_metrics v)" for e d v
    by (simp add: udp_close_sessions_def Let_def tcp_part_close_each)
  have "tcp_part (uw_metrics (publish_target a e w)) = tcp_part (uw_metrics w)" for e
    by (simp add: publish_target_def Let_def tcp_part_def)
  then have "tcp_part (uw_metrics (finish_update e (publish_target a e w))) = tcp_part (uw_metrics w)" for e
    using close [of e True "publish_target a e w"] by (simp add: finish_update_def tcp_part_def)
  then show "tcp_part (uw_metrics (snd (udp_update a t w))) = tcp_part (uw_metrics w)"
    by (simp add: udp_update_def split: option.split)
  show "tcp_part (uw_metrics (snd (udp_delete i t w))) = tcp_part (uw_metrics w)"
    by (simp add: udp_delete_def udp_stop_entry_def close split: option.split)
qed

subsection \<open>The relays behind the facade\<close>

abbreviation real_tcp :: "real_runtime \<Rightarrow> string \<Rightarrow> u16 option" where
  "real_tcp r \<equiv> tcp_served (rr_tcp r)"

abbreviation real_udp :: "real_runtime \<Rightarrow> string \<Rightarrow> u16 option" where
  "real_udp r \<equiv> udp_served (rr_udp r)"

definition relays_ok :: "real_runtime \<Rightarrow> bool" where
  "relays_ok r \<longleftrightarrow> tcp_inv (tcp_now r) \<and> utable_ok (rr_udp r)"

lemma now_sel [simp]:
  "tcp_served (tcp_now r) = real_tcp r" "udp_served (udp_now r) = real_udp r" "utable_ok (udp_now r) = utable_ok (rr_udp r)"
  "tcp_snapshot i (tcp_now r) = tcp_snapshot i (rr_tcp r)" "udp_snapshot i (udp_now r) = udp_snapshot i (rr_udp r)"
  "uw_metrics (udp_now r) = rr_metrics r" "tcp_now (r\<lparr>rr_protocols := ps\<rparr>) = tcp_now r"
  by (simp_all add: tcp_now_def udp_now_def tcp_served_def udp_served_def utable_ok_def tcp_snapshot_def udp_snapshot_def fun_eq_iff)

lemma now_heap: "tw_entries (tcp_now r) = tw_entries (rr_tcp r)" "tw_heap (tcp_now r) = tw_heap (rr_tcp r)"
  "uw_entries (udp_now r) = uw_entries (rr_udp r)" "uw_heap (udp_now r) = uw_heap (rr_udp r)"
  by (simp_all add: tcp_now_def udp_now_def)

lemma tcp_now_after: "tcp_now (r\<lparr>rr_tcp := w, rr_metrics := tw_metrics w\<rparr>) = w"
  by (simp add: tcp_now_def)

lemma with_tcp_sel:
  assumes "with_tcp f r = (res, r')" and "f (tcp_now r) = (res', w)"
  shows "res = res'" "rr_tcp r' = w" "rr_udp r' = rr_udp r" "rr_protocols r' = rr_protocols r" "tcp_now r' = w"
  using assms by (auto simp: with_tcp_def tcp_now_after)

lemma with_udp_sel:
  assumes "with_udp f r = (res, r')" and "f (udp_now r) = (res', v)"
  shows "res = res'" "rr_tcp r' = rr_tcp r" "rr_udp r' = v" "rr_protocols r' = rr_protocols r" "rr_metrics r' = uw_metrics v"
  using assms by (auto simp: with_udp_def)

lemma relays_ok_udp:
  assumes "relays_ok r" and "with_udp f r = (res, r')" and "tcp_part (uw_metrics (snd (f (udp_now r)))) = tcp_part (rr_metrics r)"
    and "utable_ok (snd (f (udp_now r)))"
  shows "relays_ok r'"
proof -
  obtain res' v where run: "f (udp_now r) = (res', v)" by fastforce
  note sel = with_udp_sel [OF assms(2) run]
  have "tcp_now r' = (tcp_now r)\<lparr>tw_metrics := uw_metrics v\<rparr>" using sel by (simp add: tcp_now_def)
  moreover have "tcp_inv ((tcp_now r)\<lparr>tw_metrics := uw_metrics v\<rparr>)"
    by (rule tcp_inv_metrics) (use assms(1,3) run in \<open>simp_all add: relays_ok_def tcp_part_def tcp_now_def\<close>)
  ultimately show ?thesis using sel assms(4) run by (simp add: relays_ok_def)
qed

lemma tcp_opened:
  assumes ok: "relays_ok r" and a: "a_protocol a = Tcp" and free: "real_tcp r (a_id a) = None"
    and run: "with_tcp (tcp_create a t) r = (res, r') \<or> with_tcp (tcp_restore a t) r = (res, r')"
  shows "relays_ok r' \<and> real_tcp r' = (if res = Inr () then (real_tcp r)(a_id a \<mapsto> a_port a) else real_tcp r) \<and>
    (res = Inr () \<longrightarrow> tcp_snapshot (a_id a) (rr_tcp r') = Ok (Some (observed_for a))) \<and> rr_udp r' = rr_udp r \<and> rr_protocols r' = rr_protocols r"
proof -
  have inv: "tcp_inv (tcp_now r)" "tcp_served (tcp_now r) (a_id a) = None" using ok free by (simp_all add: relays_ok_def)
  obtain f res' w where f: "with_tcp f r = (res, r')" "f (tcp_now r) = (res', w)" "f = tcp_create a t \<or> f = tcp_restore a t"
    using run by (metis surj_pair)
  note sel = with_tcp_sel [OF f(1,2)]
  have "tcp_inv w \<and> tcp_served w = (if res' = Inr () then (real_tcp r)(a_id a \<mapsto> a_port a) else real_tcp r) \<and>
      (res' = Inr () \<longrightarrow> tcp_snapshot (a_id a) w = Ok (Some (observed_for a)))"
    using tcp.create_law [OF inv(1) a inv(2), of t res' w] tcp.restore_law [OF inv(1) a inv(2), of t res' w] f(2,3) by auto
  then show ?thesis using sel ok by (simp add: relays_ok_def)
qed

lemma udp_opened:
  assumes ok: "relays_ok r" and a: "a_protocol a = Udp" and free: "real_udp r (a_id a) = None"
    and run: "with_udp (udp_create a t) r = (res, r') \<or> with_udp (udp_restore a t) r = (res, r')"
  shows "relays_ok r' \<and> real_udp r' = (if res = Inr () then (real_udp r)(a_id a \<mapsto> a_port a) else real_udp r) \<and>
    (res = Inr () \<longrightarrow> udp_snapshot (a_id a) (rr_udp r') = Ok (Some (observed_for a))) \<and> rr_tcp r' = rr_tcp r \<and> rr_protocols r' = rr_protocols r"
proof -
  have inv: "utable_ok (udp_now r)" "udp_served (udp_now r) (a_id a) = None" using ok free by (simp_all add: relays_ok_def)
  obtain f res' v where f: "with_udp f r = (res, r')" "f (udp_now r) = (res', v)" "f = udp_create a t \<or> f = udp_restore a t"
    using run by (metis surj_pair)
  note sel = with_udp_sel [OF f(1,2)]
  have v: "utable_ok v \<and> udp_served v = (if res' = Inr () then (real_udp r)(a_id a \<mapsto> a_port a) else real_udp r) \<and>
      (res' = Inr () \<longrightarrow> udp_snapshot (a_id a) v = Ok (Some (observed_for a)))"
    using udp.create_law [OF inv(1) a inv(2), of t res' v] udp.restore_law [OF inv(1) a inv(2), of t res' v] f(2,3) by auto
  have "relays_ok r'" by (rule relays_ok_udp [OF ok f(1)]) (use f v tcp_part_udp(1,2) [of a t "udp_now r"] in auto)
  then show ?thesis using sel v by simp
qed

lemma tcp_updated:
  assumes ok: "relays_ok r" and run: "with_tcp (tcp_update a t) r = (res, r')"
  shows "relays_ok r' \<and> real_tcp r' = real_tcp r \<and> res = (if real_tcp r (a_id a) = None then Inl RuntimeUpdateFailed else Inr ()) \<and>
    (res = Inr () \<longrightarrow> tcp_snapshot (a_id a) (rr_tcp r') = Ok (Some (observed_for a))) \<and> rr_udp r' = rr_udp r \<and> rr_protocols r' = rr_protocols r"
proof -
  obtain res' w where f: "tcp_update a t (tcp_now r) = (res', w)" by fastforce
  note sel = with_tcp_sel [OF run f]
  show ?thesis using tcp.update_law [of "tcp_now r" a t res' w] f sel ok by (simp add: relays_ok_def)
qed

lemma udp_updated:
  assumes ok: "relays_ok r" and run: "with_udp (udp_update a t) r = (res, r')"
  shows "relays_ok r' \<and> real_udp r' = real_udp r \<and> res = (if real_udp r (a_id a) = None then Inl RuntimeUpdateFailed else Inr ()) \<and>
    (res = Inr () \<longrightarrow> udp_snapshot (a_id a) (rr_udp r') = Ok (Some (observed_for a))) \<and> rr_tcp r' = rr_tcp r \<and> rr_protocols r' = rr_protocols r"
proof -
  obtain res' v where f: "udp_update a t (udp_now r) = (res', v)" by fastforce
  note sel = with_udp_sel [OF run f]
  have v: "utable_ok v \<and> udp_served v = real_udp r \<and> res' = (if real_udp r (a_id a) = None then Inl RuntimeUpdateFailed else Inr ()) \<and>
      (res' = Inr () \<longrightarrow> udp_snapshot (a_id a) v = Ok (Some (observed_for a)))"
    using udp.update_law [of "udp_now r" a t res' v] f ok by (simp add: relays_ok_def)
  have "relays_ok r'" by (rule relays_ok_udp [OF ok run]) (use f v tcp_part_udp(3) [of a t "udp_now r"] in auto)
  then show ?thesis using sel v by simp
qed

lemma tcp_deleted:
  assumes ok: "relays_ok r" and run: "with_tcp (tcp_delete i t) r = (res, r')"
  shows "res = Inr () \<and> relays_ok r' \<and> real_tcp r' = (real_tcp r)(i := None) \<and> rr_udp r' = rr_udp r \<and> rr_protocols r' = rr_protocols r"
proof -
  obtain res' w where f: "tcp_delete i t (tcp_now r) = (res', w)" by fastforce
  note sel = with_tcp_sel [OF run f]
  show ?thesis using tcp.delete_law [of "tcp_now r" i t res' w] f sel ok by (simp add: relays_ok_def)
qed

lemma udp_deleted:
  assumes ok: "relays_ok r" and run: "with_udp (udp_delete i t) r = (res, r')"
  shows "res = Inr () \<and> relays_ok r' \<and> real_udp r' = (real_udp r)(i := None) \<and> rr_tcp r' = rr_tcp r \<and> rr_protocols r' = rr_protocols r"
proof -
  obtain res' v where f: "udp_delete i t (udp_now r) = (res', v)" by fastforce
  note sel = with_udp_sel [OF run f]
  have v: "res' = Inr () \<and> utable_ok v \<and> udp_served v = (real_udp r)(i := None)"
    using udp.delete_law [of "udp_now r" i t res' v] f ok by (simp add: relays_ok_def)
  have "relays_ok r'" by (rule relays_ok_udp [OF ok run]) (use f v tcp_part_udp(4) [of i t "udp_now r"] in auto)
  then show ?thesis using sel v by simp
qed

subsection \<open>The contract\<close>

text \<open>The table of protocols says which relays serve an allocation.\<close>

definition protocol_ok :: "protocol option \<Rightarrow> u16 option \<Rightarrow> u16 option \<Rightarrow> bool" where
  "protocol_ok p tcp udp \<longleftrightarrow>
     (case p of
        None \<Rightarrow> tcp = None \<and> udp = None
      | Some Tcp \<Rightarrow> tcp \<noteq> None \<and> udp = None
      | Some Udp \<Rightarrow> tcp = None \<and> udp \<noteq> None
      | Some Both \<Rightarrow> tcp \<noteq> None \<and> udp = tcp)"

definition real_inv :: "real_runtime \<Rightarrow> bool" where
  "real_inv r \<longleftrightarrow> relays_ok r \<and> (\<forall>i. protocol_ok (map_of (rr_protocols r) i) (real_tcp r i) (real_udp r i))"

definition real_served :: "real_runtime \<Rightarrow> string \<Rightarrow> (protocol \<times> u16) option" where
  "real_served r i =
     (case (real_tcp r i, real_udp r i) of
        (Some p, Some _) \<Rightarrow> Some (Both, p) | (Some p, None) \<Rightarrow> Some (Tcp, p) | (None, Some p) \<Rightarrow> Some (Udp, p) | (None, None) \<Rightarrow> None)"

lemma real_protocol: "real_inv r \<Longrightarrow> protocol_ok (map_of (rr_protocols r) i) (real_tcp r i) (real_udp r i)"
  by (simp add: real_inv_def)

lemma real_protocol_cases:
  fixes p :: "protocol option"
  obtains "p = None" | "p = Some Tcp" | "p = Some Udp" | "p = Some Both"
  by (metis option.exhaust protocol.exhaust)

lemma real_served_None: "real_inv r \<Longrightarrow> real_served r i = None \<longleftrightarrow> map_of (rr_protocols r) i = None"
  using real_protocol [of r i] by (cases rule: real_protocol_cases [of "map_of (rr_protocols r) i"])
    (auto simp: real_served_def protocol_ok_def split: option.splits)

lemma real_served_free:
  assumes "real_served r i = None" shows "real_tcp r i = None" "real_udp r i = None"
  using assms by (simp_all add: real_served_def split: option.splits)

lemma protocol_of_served:
  assumes "real_inv r" and "real_served r i = Some (p, port)"
  shows "map_of (rr_protocols r) i = Some p" "p \<noteq> Udp \<Longrightarrow> real_tcp r i = Some port" "p \<noteq> Tcp \<Longrightarrow> real_udp r i = Some port"
proof -
  have "protocol_ok (map_of (rr_protocols r) i) (real_tcp r i) (real_udp r i)" using real_protocol [OF assms(1)] .
  then show "map_of (rr_protocols r) i = Some p" "p \<noteq> Udp \<Longrightarrow> real_tcp r i = Some port" "p \<noteq> Tcp \<Longrightarrow> real_udp r i = Some port"
    using assms(2) by (cases rule: real_protocol_cases [of "map_of (rr_protocols r) i"];
        auto simp: real_served_def protocol_ok_def split: option.splits)+
qed

lemma real_inv_same:
  "real_inv r \<Longrightarrow> relays_ok r' \<Longrightarrow> real_tcp r' = real_tcp r \<Longrightarrow> real_udp r' = real_udp r \<Longrightarrow> rr_protocols r' = rr_protocols r \<Longrightarrow>
    real_inv r' \<and> real_served r' = real_served r"
  by (simp add: real_inv_def real_served_def fun_eq_iff)

lemma real_inv_enter:
  assumes inv: "real_inv r" and ok: "relays_ok r'" and tcp: "real_tcp r' = (if p = Udp then real_tcp r else (real_tcp r)(i \<mapsto> port))"
    and udp: "real_udp r' = (if p = Tcp then real_udp r else (real_udp r)(i \<mapsto> port))"
    and table: "map_of (rr_protocols r') = (map_of (rr_protocols r))(i \<mapsto> p)" and free: "real_served r i = None"
  shows "real_inv r' \<and> real_served r' = (real_served r)(i \<mapsto> (p, port))"
proof
  note none = real_served_free [OF free]
  show "real_inv r'" using inv ok none unfolding real_inv_def tcp udp table
    by (cases p) (auto simp: protocol_ok_def)
  show "real_served r' = (real_served r)(i \<mapsto> (p, port))" using none unfolding fun_eq_iff real_served_def tcp udp
    by (cases p) simp_all
qed

lemma as_protocol_sel [simp]: "a_id (as_protocol a p) = a_id a" "a_port (as_protocol a p) = a_port a" "a_protocol (as_protocol a p) = p"
  "observed_for (as_protocol a p) = observed_for a"
  by (simp_all add: as_protocol_def observed_for_def)

lemma relays_ok_protocols [simp]: "relays_ok (r\<lparr>rr_protocols := ps\<rparr>) = relays_ok r"
  by (simp add: relays_ok_def)

lemma set_protocol_sel:
  assumes "set_protocol i p r = (res, r')"
  shows "res = Inr ()" "rr_tcp r' = rr_tcp r" "rr_udp r' = rr_udp r" "map_of (rr_protocols r') = (map_of (rr_protocols r))(i \<mapsto> p)"
    "relays_ok r' = relays_ok r"
  using assms by (auto simp: set_protocol_def update_conv')

lemma served_status:
  assumes "map_of (rr_protocols r) i = Some p" and "p \<noteq> Udp \<Longrightarrow> tcp_snapshot i (rr_tcp r) = Ok (Some (observed_for a))"
    and "p \<noteq> Tcp \<Longrightarrow> udp_snapshot i (rr_udp r) = Ok (Some (observed_for a))"
  shows "status_is (real_snapshot i r) (expected_status a)"
  using assms by (cases p) (simp_all add: real_snapshot_def status_is_def observed_for_status)

text \<open>Creating and restoring differ in what the relays are asked; both undo TCP when UDP fails.\<close>

definition opens :: "(allocation \<Rightarrow> (tcp_world, runtime_error, unit) action) \<Rightarrow> (allocation \<Rightarrow> (udp_world, runtime_error, unit) action) \<Rightarrow> u32 \<Rightarrow> bool" where
  "opens f g t \<longleftrightarrow> (f = (\<lambda>a. tcp_create a t) \<and> g = (\<lambda>a. udp_create a t)) \<or> (f = (\<lambda>a. tcp_restore a t) \<and> g = (\<lambda>a. udp_restore a t))"

lemma open_single:
  assumes o: "opens f g t" and inv: "real_inv r" and free: "real_served r (a_id a) = None" and p: "a_protocol a = p" "p \<noteq> Both"
    and run: "and_then (if p = Tcp then with_tcp (f a) else with_udp (g a)) (\<lambda>_. set_protocol (a_id a) p) r = (res, r')"
  shows "real_inv r' \<and> real_served r' = (if res = Inr () then (real_served r)(a_id a \<mapsto> alloc_key a) else real_served r) \<and>
    (res = Inr () \<longrightarrow> status_is (real_snapshot (a_id a) r') (expected_status a))"
proof -
  note none = real_served_free [OF free]
  have ok: "relays_ok r" using inv by (simp add: real_inv_def)
  obtain res1 r1 where first: "(if p = Tcp then with_tcp (f a) else with_udp (g a)) r = (res1, r1)" by fastforce
  have op: "relays_ok r1 \<and> rr_protocols r1 = rr_protocols r \<and>
      real_tcp r1 = (if p = Tcp \<and> res1 = Inr () then (real_tcp r)(a_id a \<mapsto> a_port a) else real_tcp r) \<and>
      real_udp r1 = (if p = Udp \<and> res1 = Inr () then (real_udp r)(a_id a \<mapsto> a_port a) else real_udp r) \<and>
      (res1 = Inr () \<longrightarrow> (p = Tcp \<longrightarrow> tcp_snapshot (a_id a) (rr_tcp r1) = Ok (Some (observed_for a))) \<and>
         (p = Udp \<longrightarrow> udp_snapshot (a_id a) (rr_udp r1) = Ok (Some (observed_for a))))"
    using first o p none tcp_opened [OF ok, of a t res1 r1] udp_opened [OF ok, of a t res1 r1]
    by (cases p) (auto simp: opens_def)
  show ?thesis
  proof (cases res1)
    case (Inl e)
    then have "res = Inl e" "r' = r1" using run first by (simp_all add: and_then_def)
    then show ?thesis using real_inv_same [OF inv, of r1] op Inl by simp
  next
    case (Inr u)
    then have set: "set_protocol (a_id a) p r1 = (res, r')" using run first by (simp add: and_then_def)
    note sel = set_protocol_sel [OF set]
    have "real_inv r' \<and> real_served r' = (real_served r)(a_id a \<mapsto> (p, a_port a))"
      by (rule real_inv_enter [OF inv]) (use op sel Inr p free in \<open>cases p; simp\<close>)+
    moreover have "status_is (real_snapshot (a_id a) r') (expected_status a)"
      by (rule served_status [of r' "a_id a" p]) (use op sel Inr p in \<open>cases p; simp\<close>)+
    ultimately show ?thesis using sel(1) p by (simp add: alloc_key_def)
  qed
qed

lemma open_both:
  assumes o: "opens f g t" and inv: "real_inv r" and free: "real_served r (a_id a) = None" and p: "a_protocol a = Both"
    and run: "and_then (with_tcp (f (as_protocol a Tcp))) (\<lambda>_ r. case with_udp (g (as_protocol a Udp)) r of
        (Inl e, r1) \<Rightarrow> (Err (h e), snd (with_tcp (tcp_delete (a_id a) t) r1)) | (Inr _, r1) \<Rightarrow> set_protocol (a_id a) Both r1) r = (res, r')"
  shows "real_inv r' \<and> real_served r' = (if res = Inr () then (real_served r)(a_id a \<mapsto> alloc_key a) else real_served r) \<and>
    (res = Inr () \<longrightarrow> status_is (real_snapshot (a_id a) r') (expected_status a))"
proof -
  note none = real_served_free [OF free]
  have ok: "relays_ok r" using inv by (simp add: real_inv_def)
  obtain res1 r1 where first: "with_tcp (f (as_protocol a Tcp)) r = (res1, r1)" by fastforce
  have tcp: "relays_ok r1 \<and> real_tcp r1 = (if res1 = Inr () then (real_tcp r)(a_id a \<mapsto> a_port a) else real_tcp r) \<and>
      (res1 = Inr () \<longrightarrow> tcp_snapshot (a_id a) (rr_tcp r1) = Ok (Some (observed_for a))) \<and> rr_udp r1 = rr_udp r \<and> rr_protocols r1 = rr_protocols r"
    using tcp_opened [OF ok, of "as_protocol a Tcp" t res1 r1] first o none by (auto simp: opens_def)
  show ?thesis
  proof (cases res1)
    case (Inl e)
    then have "res = Inl e" "r' = r1" using run first by (simp_all add: and_then_def)
    then show ?thesis using real_inv_same [OF inv, of r1] tcp Inl by simp
  next
    case (Inr u)
    obtain res2 r2 where second: "with_udp (g (as_protocol a Udp)) r1 = (res2, r2)" by fastforce
    have udp: "relays_ok r2 \<and> real_udp r2 = (if res2 = Inr () then (real_udp r)(a_id a \<mapsto> a_port a) else real_udp r) \<and>
        (res2 = Inr () \<longrightarrow> udp_snapshot (a_id a) (rr_udp r2) = Ok (Some (observed_for a))) \<and> rr_tcp r2 = rr_tcp r1 \<and> rr_protocols r2 = rr_protocols r"
      using udp_opened [of r1 "as_protocol a Udp" t res2 r2] second tcp o none by (auto simp: opens_def)
    show ?thesis
    proof (cases res2)
      case (Inl e)
      obtain res3 r3 where undo: "with_tcp (tcp_delete (a_id a) t) r2 = (res3, r3)" by fastforce
      have "res = Inl (h e)" "r' = r3" using run first Inr second Inl undo by (simp_all add: and_then_def)
      moreover have "real_tcp r3 = real_tcp r" "real_udp r3 = real_udp r" "relays_ok r3" "rr_protocols r3 = rr_protocols r"
        using tcp_deleted [OF _ undo] udp tcp Inr Inl none by (auto simp: fun_upd_idem)
      ultimately show ?thesis using real_inv_same [OF inv, of r3] by simp
    next
      case (Inr v)
      then have set: "set_protocol (a_id a) Both r2 = (res, r')" using run first \<open>res1 = Inr u\<close> second by (simp add: and_then_def)
      note sel = set_protocol_sel [OF set]
      have "real_inv r' \<and> real_served r' = (real_served r)(a_id a \<mapsto> (Both, a_port a))"
        by (rule real_inv_enter [OF inv]) (use udp tcp sel Inr \<open>res1 = Inr u\<close> free in simp_all)
      moreover have "status_is (real_snapshot (a_id a) r') (expected_status a)"
        by (rule served_status [of r' "a_id a" Both]) (use udp tcp sel Inr \<open>res1 = Inr u\<close> in simp_all)
      ultimately show ?thesis using sel(1) p by (simp add: alloc_key_def)
    qed
  qed
qed

lemma real_open_law:
  assumes inv: "real_inv r" and free: "real_served r (a_id a) = None"
    and run: "real_create a t r = (res, r') \<or> real_restore a t r = (res, r')"
  shows "real_inv r' \<and> real_served r' = (if res = Inr () then (real_served r)(a_id a \<mapsto> alloc_key a) else real_served r) \<and>
    (res = Inr () \<longrightarrow> status_is (real_snapshot (a_id a) r') (expected_status a))"
proof -
  have o: "opens (\<lambda>a. tcp_create a t) (\<lambda>a. udp_create a t) t" "opens (\<lambda>a. tcp_restore a t) (\<lambda>a. udp_restore a t) t"
    by (simp_all add: opens_def)
  note single = open_single [OF o(1) inv free] open_single [OF o(2) inv free]
    and both = open_both [OF o(1) inv free] open_both [OF o(2) inv free]
  show ?thesis
  proof (cases "a_protocol a")
    case Both
    then show ?thesis using run both [of "\<lambda>e. e"] both(2) [of "\<lambda>_. RuntimeRestoreFailed"]
      by (auto simp: real_create_def real_restore_def cong: prod.case_cong)
  qed (use run single in \<open>auto simp: real_create_def real_restore_def\<close>)
qed

lemma real_update_law:
  assumes inv: "real_inv r" and served: "real_served r (a_id a) = Some (alloc_key a)" and run: "real_update a t r = (res, r')"
  shows "real_inv r' \<and> real_served r' = real_served r \<and> res = Inr () \<and> status_is (real_snapshot (a_id a) r') (expected_status a)"
proof -
  have ok: "relays_ok r" using inv by (simp add: real_inv_def)
  note has = protocol_of_served [OF inv served [unfolded alloc_key_def]]
  have "relays_ok r' \<and> real_tcp r' = real_tcp r \<and> real_udp r' = real_udp r \<and> rr_protocols r' = rr_protocols r \<and> res = Inr () \<and>
      (a_protocol a \<noteq> Udp \<longrightarrow> tcp_snapshot (a_id a) (rr_tcp r') = Ok (Some (observed_for a))) \<and>
      (a_protocol a \<noteq> Tcp \<longrightarrow> udp_snapshot (a_id a) (rr_udp r') = Ok (Some (observed_for a)))"
  proof (cases "a_protocol a")
    case Tcp
    then show ?thesis using tcp_updated [OF ok, of a t res r'] run has by (simp add: real_update_def)
  next
    case Udp
    then show ?thesis using udp_updated [OF ok, of a t res r'] run has by (simp add: real_update_def)
  next
    case Both
    obtain res1 r1 where first: "with_tcp (tcp_update (as_protocol a Tcp) t) r = (res1, r1)" by fastforce
    note tcp = tcp_updated [OF ok first]
    have "res1 = Inr ()" using tcp has Both by simp
    then have "with_udp (udp_update (as_protocol a Udp) t) r1 = (res, r')" using run first Both by (simp add: real_update_def and_then_def)
    from udp_updated [OF _ this] tcp \<open>res1 = Inr ()\<close> has Both show ?thesis by simp
  qed
  then show ?thesis using real_inv_same [OF inv, of r'] served_status [of r' "a_id a" "a_protocol a" a] has by simp
qed

lemma real_delete_law:
  assumes inv: "real_inv r" and run: "real_delete i t r = (res, r')"
  shows "res = Inr () \<and> real_inv r' \<and> real_served r' = (real_served r)(i := None)"
proof -
  let ?r0 = "r\<lparr>rr_protocols := AList.delete i (rr_protocols r)\<rparr>"
  obtain res1 r1 where first: "with_tcp (tcp_delete i t) ?r0 = (res1, r1)" by fastforce
  obtain res2 r2 where second: "with_udp (udp_delete i t) r1 = (res2, r2)" by fastforce
  have ok: "relays_ok ?r0" using inv by (simp add: real_inv_def)
  note tcp = tcp_deleted [OF ok first]
  have udp: "res2 = Inr () \<and> relays_ok r2 \<and> real_udp r2 = (real_udp r)(i := None) \<and> rr_tcp r2 = rr_tcp r1 \<and> rr_protocols r2 = rr_protocols r1"
    using udp_deleted [OF _ second] tcp by simp
  have "res = Inr ()" "r' = r2" using run first second tcp udp by (simp_all add: real_delete_def)
  moreover have "real_inv r2" using inv tcp udp by (auto simp: real_inv_def delete_conv' protocol_ok_def)
  moreover have "real_served r2 = (real_served r)(i := None)" using tcp udp by (simp add: real_served_def fun_eq_iff)
  ultimately show ?thesis by simp
qed

lemma real_snapshot_law:
  assumes "real_inv r"
  shows "\<exists>obs. real_snapshot i r = Inr obs \<and> (obs = None \<longleftrightarrow> real_served r i = None)"
proof -
  have inv: "tcp_inv (tcp_now r)" "utable_ok (rr_udp r)" using assms by (simp_all add: real_inv_def relays_ok_def)
  obtain t where t: "tcp_snapshot i (rr_tcp r) = Inr t" "t = None \<longleftrightarrow> real_tcp r i = None" using tcp.snapshot_law [OF inv(1), of i] by auto
  obtain u where u: "udp_snapshot i (rr_udp r) = Inr u" "u = None \<longleftrightarrow> real_udp r i = None" using udp.snapshot_law [OF inv(2), of i] by auto
  show ?thesis using real_protocol [OF assms, of i] t u
    by (cases t; cases u; cases rule: real_protocol_cases [of "map_of (rr_protocols r) i"])
      (auto simp: real_snapshot_def protocol_ok_def real_served_def)
qed

interpretation real: runtime_contract real_facade real_inv real_served
proof (unfold_locales, unfold real_facade_sel)
  fix r r' t res and a :: allocation and i
  assume iv: "real_inv r"
  show "real_inv r' \<and> real_served r' = real_served r" if "real_initialize t r = (res, r')"
    using that iv by (simp add: real_initialize_def return_def)
  show "real_inv r' \<and> real_served r' = (if res = Inr () then (real_served r)(a_id a \<mapsto> alloc_key a) else real_served r)"
    if "real_served r (a_id a) = None" "real_create a t r = (res, r')"
    using real_open_law [OF iv that(1)] that(2) by blast
  show "real_inv r' \<and> real_served r' = real_served r" if "real_served r (a_id a) = Some (alloc_key a)" "real_update a t r = (res, r')"
    using real_update_law [OF iv that] by simp
  show "real_inv r' \<and> real_served r' = (if res = Inr () then (real_served r)(i := None) else real_served r)" if "real_delete i t r = (res, r')"
    using real_delete_law [OF iv that] by simp
  show "real_inv r' \<and> (real_served r' = (real_served r)(a_id a \<mapsto> alloc_key a) \<or> res \<noteq> Inr () \<and> real_served r' = real_served r)"
    if "real_served r (a_id a) = None" "real_restore a t r = (res, r')"
    using real_open_law [OF iv that(1), of t res r'] that(2) by auto
  show "status_is (real_snapshot (a_id a) r') (expected_status a)" if "real_served r (a_id a) = None" "real_create a t r = (Inr (), r')"
    using real_open_law [OF iv that(1)] that(2) by blast
  show "status_is (real_snapshot (a_id a) r') (expected_status a)"
    if "real_served r (a_id a) = Some (alloc_key a)" "real_update a t r = (Inr (), r')"
    using real_update_law [OF iv that] by simp
  show "status_is (real_snapshot (a_id a) r') (expected_status a)" if "real_served r (a_id a) = None" "real_restore a t r = (Inr (), r')"
    using real_open_law [OF iv that(1)] that(2) by blast
  show "\<exists>obs. real_snapshot i r = Inr obs \<and> (obs = None \<longleftrightarrow> real_served r i = None)" by (rule real_snapshot_law [OF iv])
qed

lemma real_inv_new: "real_inv (real_runtime_new config metrics_default tcp_grants udp_grants connects)"
  using tcp_inv_new
  by (simp add: real_inv_def relays_ok_def real_runtime_new_def tcp_now_def tcp_runtime_new_def udp_runtime_new_def utable_ok_def
      protocol_ok_def tcp_served_def udp_served_def)

subsection \<open>Tasks in the background\<close>

text \<open>
  Between two calls of the facade the tasks of the relays run: steps of a relay's transition system that leave its table of
  listeners alone. A step of the UDP relay does not count TCP sessions.
\<close>

inductive real_task :: "real_runtime \<Rightarrow> real_runtime \<Rightarrow> bool" where
  tcp_task: "tcp_step (tcp_now r) w \<Longrightarrow> tw_entries w = tw_entries (rr_tcp r) \<Longrightarrow> map te_port (tw_heap w) = map te_port (tw_heap (rr_tcp r)) \<Longrightarrow>
    real_task r (r\<lparr>rr_tcp := w, rr_metrics := tw_metrics w\<rparr>)"
| udp_task: "udp_step (udp_now r) v \<Longrightarrow> uw_entries v = uw_entries (rr_udp r) \<Longrightarrow> map ue_port (uw_heap v) = map ue_port (uw_heap (rr_udp r)) \<Longrightarrow>
    tcp_part (uw_metrics v) = tcp_part (rr_metrics r) \<Longrightarrow> real_task r (r\<lparr>rr_udp := v, rr_metrics := uw_metrics v\<rparr>)"

lemma real_task_keeps: "real_task x y \<Longrightarrow> real_inv x \<Longrightarrow> real_inv y \<and> real_served y = real_served x"
proof (induction rule: real_task.induct)
  case (tcp_task r w)
  have ok: "tcp_inv (tcp_now r)" "utable_ok (rr_udp r)" using tcp_task.prems by (simp_all add: real_inv_def relays_ok_def)
  have "tcp_inv w" using tcp_step_inv [OF tcp_task.hyps(1) ok(1)] .
  moreover have "tcp_served w = real_tcp r"
    using tcp_served_cong [of w "tcp_now r"] tcp_task.hyps(2,3) ok(1) by (simp add: now_heap)
  ultimately show ?case using ok(2) by (intro real_inv_same [OF tcp_task.prems]) (simp_all add: relays_ok_def tcp_now_after)
next
  case (udp_task r v)
  let ?y = "r\<lparr>rr_udp := v, rr_metrics := uw_metrics v\<rparr>"
  have ok: "tcp_inv (tcp_now r)" "utable_ok (udp_now r)" using udp_task.prems by (simp_all add: real_inv_def relays_ok_def)
  have "tcp_inv ((tcp_now r)\<lparr>tw_metrics := uw_metrics v\<rparr>)"
    by (rule tcp_inv_metrics [OF ok(1)]) (use udp_task.hyps(4) in \<open>simp_all add: tcp_part_def tcp_now_def\<close>)
  moreover have "tcp_now ?y = (tcp_now r)\<lparr>tw_metrics := uw_metrics v\<rparr>" by (simp add: tcp_now_def)
  moreover have "utable_ok v" using udp_step_utable [OF udp_task.hyps(1) ok(2)] .
  moreover have "udp_served v = real_udp r"
    using udp_served_cong [of v "udp_now r"] udp_task.hyps(2,3) ok(2) by (simp add: now_heap)
  ultimately show ?case by (intro real_inv_same [OF udp_task.prems]) (simp_all add: relays_ok_def)
qed

subsection \<open>Properties\<close>

text \<open>
  C37. An allocation of both protocols is created or not at all: when creation succeeds, both relays listen on its port and the
  runtime reports one state; when either bind fails, both relays listen exactly where they did before.
\<close>

theorem real_create_both_atomic:
  assumes "real_inv r" and "real_served r (a_id a) = None" and "a_protocol a = Both" and "real_create a timeout_ms r = (res, r')"
  shows "(res = Ok () \<and> tcp_served (rr_tcp r') = (tcp_served (rr_tcp r))(a_id a \<mapsto> a_port a) \<and>
      udp_served (rr_udp r') = (udp_served (rr_udp r))(a_id a \<mapsto> a_port a) \<and> real_snapshot (a_id a) r' = Ok (Some (observed_for a))) \<or>
    (\<exists>e. res = Err e \<and> tcp_served (rr_tcp r') = tcp_served (rr_tcp r) \<and> udp_served (rr_udp r') = udp_served (rr_udp r))"
proof -
  note none = real_served_free [OF assms(2)]
  have ok: "relays_ok r" using assms(1) by (simp add: real_inv_def)
  obtain res1 r1 where first: "with_tcp (tcp_create (as_protocol a Tcp) timeout_ms) r = (res1, r1)" by fastforce
  note tcp = tcp_opened [OF ok, of "as_protocol a Tcp" timeout_ms res1 r1, simplified, OF none(1) disjI1, OF first]
  show ?thesis
  proof (cases res1)
    case (Inl e)
    then show ?thesis using assms(3,4) first tcp by (auto simp: real_create_def and_then_def)
  next
    case (Inr u)
    obtain res2 r2 where second: "with_udp (udp_create (as_protocol a Udp) timeout_ms) r1 = (res2, r2)" by fastforce
    have udp: "relays_ok r2 \<and> real_udp r2 = (if res2 = Inr () then (real_udp r)(a_id a \<mapsto> a_port a) else real_udp r) \<and>
        (res2 = Inr () \<longrightarrow> udp_snapshot (a_id a) (rr_udp r2) = Ok (Some (observed_for a))) \<and> rr_tcp r2 = rr_tcp r1"
      using udp_opened [of r1 "as_protocol a Udp" timeout_ms res2 r2] second tcp none by simp
    show ?thesis
    proof (cases res2)
      case (Inl e)
      obtain res3 r3 where undo: "with_tcp (tcp_delete (a_id a) timeout_ms) r2 = (res3, r3)" by fastforce
      have "res = Inl e" "r' = r3" using assms(3,4) first Inr second Inl undo by (simp_all add: real_create_def and_then_def)
      moreover have "real_tcp r3 = real_tcp r" "real_udp r3 = real_udp r"
        using tcp_deleted [OF _ undo] udp tcp Inr Inl none by (auto simp: fun_upd_idem)
      ultimately show ?thesis by simp
    next
      case (Inr v)
      then have set: "set_protocol (a_id a) Both r2 = (res, r')"
        using assms(3,4) first \<open>res1 = Inr u\<close> second by (simp add: real_create_def and_then_def)
      note sel = set_protocol_sel [OF set]
      then show ?thesis using udp tcp Inr \<open>res1 = Inr u\<close> by (simp add: real_snapshot_def)
    qed
  qed
qed

text \<open>
  The rows of the userspace runtime are those of the TCP and of the UDP relay, sorted by port and protocol name.
\<close>

lemma real_listener_metrics_sorted:
  "\<exists>tcp udp rows. tcp_snapshot_listener_metrics (rr_tcp r) = Ok tcp \<and> udp_snapshot_listener_metrics (rr_udp r) = Ok udp \<and>
     real_snapshot_listener_metrics r = Ok rows \<and> mset rows = mset tcp + mset udp \<and>
     sorted (map (\<lambda>row. (lms_port row, protocol_as_str (lms_protocol row))) rows)"
  by (simp add: real_snapshot_listener_metrics_def tcp_snapshot_listener_metrics_def udp_snapshot_listener_metrics_def tcp_now_def udp_now_def)

definition real_started :: real_runtime where
  "real_started = real_runtime_new real_loopback metrics_default (\<lambda>_ _. True) (\<lambda>_ _. False) (\<lambda>_. True)"

theorem real_create_both_atomic_witness:
  "\<exists>r'. real_create \<lparr>a_id = ''b'', a_protocol = Both, a_port = 3000, a_target_port = None, a_host = None, a_created_at_ms = 0, a_updated_at_ms = 0\<rparr> 0
       real_started = (Err RuntimeCreateFailed, r') \<and> tcp_served (rr_tcp r') ''b'' = None"
proof -
  let ?a = "\<lparr>a_id = ''b'', a_protocol = Both, a_port = 3000, a_target_port = None, a_host = None, a_created_at_ms = 0, a_updated_at_ms = 0\<rparr>"
  have start: "real_inv real_started" "real_served real_started ''b'' = None" "tcp_served (rr_tcp real_started) ''b'' = None"
    using real_inv_new by (simp_all add: real_started_def real_served_def real_runtime_new_def tcp_runtime_new_def udp_runtime_new_def
        tcp_served_def udp_served_def)
  obtain res r' where run: "real_create ?a 0 real_started = (res, r')" by fastforce
  have "res = Err RuntimeCreateFailed"
    using run loopback_parses
    by (auto simp: real_create_def and_then_def with_tcp_def with_udp_def tcp_create_def bind_entry_def tcp_bind_addr_def tcp_bind_def
        real_started_def real_runtime_new_def tcp_now_def udp_now_def tcp_runtime_new_def udp_runtime_new_def real_loopback_def
        real_with_bind_host_def tcp_with_bind_host_def with_force_tcp_copy_fallback_def with_tcp_splice_enabled_def alloc_entry_def
        udp_create_def udp_open_def udp_bind_entry_def udp_bind_addr_def udp_bind_def udp_with_bind_host_def with_session_ttl_def
        with_udp_max_sessions_def with_udp_batch_enabled_def as_protocol_def Let_def)
  then show ?thesis using real_create_both_atomic [OF start(1) _ _ run] start(2,3) run by simp
qed

end
