(* ===== verification/Relayd_Prometheus.thy ===== *)
theory Relayd_Prometheus
  imports Relayd_Facade
begin

unbundle bit_operations_syntax

text \<open>
  Prometheus export (\<open>src/src/prometheus.rs\<close>): per-listener rates from the byte totals of two scrapes, and the text
  exposition. Floating point numbers are abstract: \<open>f64_ops\<close> holds the conversions, the division and the display
  that the code uses.
\<close>

record 'f f64_ops =
  f64_of_u64 :: "u64 \<Rightarrow> 'f"
  f64_of_i64 :: "i64 \<Rightarrow> 'f"
  f64_div :: "'f \<Rightarrow> 'f \<Rightarrow> 'f"
  f64_display :: "'f \<Rightarrow> string"

definition prometheus_content_type :: string where
  "prometheus_content_type = ''text/plain; version=0.0.4; charset=utf-8''"

record 'f listener_metrics_rate =
  lr_port :: u16
  lr_protocol :: protocol
  lr_connections_current :: u64
  lr_rx_bytes_per_second :: 'f
  lr_tx_bytes_per_second :: 'f

subsection \<open>The hasher of the sample table\<close>

definition packed_key_write :: "u8 list \<Rightarrow> u64 \<Rightarrow> u64" where
  "packed_key_write bytes state =
     foldl (\<lambda>hash byte. (hash XOR ucast byte) * 0x00000100000001b3) 0xcbf29ce484222325 bytes"

definition packed_key_write_u32 :: "u32 \<Rightarrow> u64 \<Rightarrow> u64" where
  "packed_key_write_u32 value state = ucast value"

fun protocol_code :: "protocol \<Rightarrow> u32" where
  "protocol_code Tcp = 0"
| "protocol_code Udp = 1"
| "protocol_code Both = 2"

definition listener_key :: "u16 \<Rightarrow> protocol \<Rightarrow> u32" where
  "listener_key port p = push_bit 2 (ucast port) OR protocol_code p"

subsection \<open>Rates\<close>

record sample =
  sa_rx_bytes_total :: u64
  sa_tx_bytes_total :: u64
  sa_timestamp_ms :: i64
  sa_generation :: u64

record rate_calculator =
  rc_samples :: "(u32 \<times> sample) list"
  rc_generation :: u64

definition rate_calculator_default :: rate_calculator where
  "rate_calculator_default = \<lparr>rc_samples = [], rc_generation = 0\<rparr>"

definition bytes_per_second :: "'f f64_ops \<Rightarrow> u64 \<Rightarrow> u64 \<Rightarrow> 'f \<Rightarrow> 'f" where
  "bytes_per_second f current previous elapsed_seconds =
     (if current \<le> previous then f64_of_i64 f 0 else f64_div f (f64_of_u64 f (current - previous)) elapsed_seconds)"

definition calculate_rate :: "'f f64_ops \<Rightarrow> listener_metrics_snapshot \<Rightarrow> sample option \<Rightarrow> i64 \<Rightarrow> 'f listener_metrics_rate" where
  "calculate_rate f s previous timestamp_ms =
     (let zero = f64_of_i64 f 0;
          (rx, tx) =
            (case previous of
               None \<Rightarrow> (zero, zero)
             | Some p \<Rightarrow>
                 let elapsed_ms = saturating_sub_i64 timestamp_ms (sa_timestamp_ms p)
                 in if 0 < elapsed_ms
                    then let elapsed_seconds = f64_div f (f64_of_i64 f elapsed_ms) (f64_of_i64 f 1000)
                         in (bytes_per_second f (lms_rx_bytes_total s) (sa_rx_bytes_total p) elapsed_seconds,
                             bytes_per_second f (lms_tx_bytes_total s) (sa_tx_bytes_total p) elapsed_seconds)
                    else (zero, zero))
      in \<lparr>lr_port = lms_port s, lr_protocol = lms_protocol s, lr_connections_current = lms_connections_current s,
          lr_rx_bytes_per_second = rx, lr_tx_bytes_per_second = tx\<rparr>)"

definition sample_of :: "listener_metrics_snapshot \<Rightarrow> i64 \<Rightarrow> u64 \<Rightarrow> sample" where
  "sample_of s timestamp_ms generation =
     \<lparr>sa_rx_bytes_total = lms_rx_bytes_total s, sa_tx_bytes_total = lms_tx_bytes_total s, sa_timestamp_ms = timestamp_ms,
      sa_generation = generation\<rparr>"

fun calculate_each :: "'f f64_ops \<Rightarrow> i64 \<Rightarrow> u64 \<Rightarrow> listener_metrics_snapshot list \<Rightarrow> (u32 \<times> sample) list \<Rightarrow>
    'f listener_metrics_rate list \<times> (u32 \<times> sample) list" where
  "calculate_each f timestamp_ms generation [] samples = ([], samples)"
| "calculate_each f timestamp_ms generation (s # rest) samples =
     (let key = listener_key (lms_port s) (lms_protocol s);
          previous = map_of samples key;
          (rates, samples') = calculate_each f timestamp_ms generation rest (AList.update key (sample_of s timestamp_ms generation) samples)
      in (calculate_rate f s previous timestamp_ms # rates, samples'))"

definition calculate :: "'f f64_ops \<Rightarrow> listener_metrics_snapshot list \<Rightarrow> i64 \<Rightarrow> rate_calculator \<Rightarrow> 'f listener_metrics_rate list \<times> rate_calculator" where
  "calculate f snapshots timestamp_ms c =
     (let generation = rc_generation c + 1;
          (rates, samples) = calculate_each f timestamp_ms generation snapshots (rc_samples c)
      in (rates, \<lparr>rc_samples = filter (\<lambda>(_, s). sa_generation s = generation) samples, rc_generation = generation\<rparr>))"

definition sample_count :: "rate_calculator \<Rightarrow> nat" where
  "sample_count c = length (rc_samples c)"

subsection \<open>Rendering\<close>

definition render_line :: "string \<Rightarrow> u16 \<Rightarrow> protocol \<Rightarrow> string \<Rightarrow> string" where
  "render_line name port p value =
     name @ ''{port='' @ [CHR 34] @ show_nat (unat port) @ [CHR 34] @ '',protocol='' @ [CHR 34] @ protocol_as_str p @ [CHR 34] @ ''} '' @
     value @ [CHR 10]"

definition render_rates :: "'f f64_ops \<Rightarrow> 'f listener_metrics_rate list \<Rightarrow> string" where
  "render_rates f rows =
     ''# TYPE relayd_connections_current gauge'' @ [CHR 10] @
     concat (map (\<lambda>r. render_line ''relayd_connections_current'' (lr_port r) (lr_protocol r) (show_nat (unat (lr_connections_current r)))) rows) @
     ''# TYPE relayd_rx_bytes_per_second gauge'' @ [CHR 10] @
     concat (map (\<lambda>r. render_line ''relayd_rx_bytes_per_second'' (lr_port r) (lr_protocol r) (f64_display f (lr_rx_bytes_per_second r))) rows) @
     ''# TYPE relayd_tx_bytes_per_second gauge'' @ [CHR 10] @
     concat (map (\<lambda>r. render_line ''relayd_tx_bytes_per_second'' (lr_port r) (lr_protocol r) (f64_display f (lr_tx_bytes_per_second r))) rows)"

definition render :: "'f f64_ops \<Rightarrow> listener_metrics_snapshot list \<Rightarrow> string" where
  "render f rows = render_rates f (fst (calculate f rows 0 rate_calculator_default))"

subsection \<open>Keys\<close>

lemma bit_protocol_code: "bit (protocol_code p) n \<Longrightarrow> n < 2"
  by (cases p) (auto simp: bit_1_iff bit_2_iff)

lemma listener_key_port: "drop_bit 2 (listener_key port p) = ucast port"
proof (rule bit_word_eqI)
  fix n
  show "bit (drop_bit 2 (listener_key port p)) n = bit (ucast port :: u32) n" if "n < LENGTH(32)"
    using that bit_protocol_code [of p "2 + n"] bit_imp_le_length [of port n] by (auto simp: listener_key_def bit_simps)
qed

lemma listener_key_protocol: "take_bit 2 (listener_key port p) = protocol_code p"
proof (rule bit_word_eqI)
  fix n
  show "bit (take_bit 2 (listener_key port p)) n = bit (protocol_code p) n" if "n < LENGTH(32)"
    using that bit_protocol_code [of p n] by (auto simp: listener_key_def bit_simps)
qed

lemma listener_key_inject: "listener_key port p = listener_key port' p' \<longleftrightarrow> port = port' \<and> p = p'"
proof
  assume eq: "listener_key port p = listener_key port' p'"
  have ports: "(ucast port :: u32) = ucast port'" using listener_key_port [of port p] listener_key_port [of port' p'] eq by simp
  have "port = port'"
  proof (rule bit_word_eqI)
    show "bit port n = bit port' n" if "n < LENGTH(16)" for n
      using arg_cong [OF ports, of "\<lambda>w. bit w n"] that by (simp add: bit_ucast_iff)
  qed
  moreover have "protocol_code p = protocol_code p'"
    using listener_key_protocol [of port p] listener_key_protocol [of port' p'] eq by simp
  then have "p = p'" by (cases p; cases p') simp_all
  ultimately show "port = port' \<and> p = p'" by simp
qed simp

subsection \<open>Rates\<close>

text \<open>Between scrapes every sample is of the last one, so a listener that was not in it has none.\<close>

definition snapshot_key :: "listener_metrics_snapshot \<Rightarrow> u32" where
  "snapshot_key s = listener_key (lms_port s) (lms_protocol s)"

definition rates_ok :: "rate_calculator \<Rightarrow> bool" where
  "rates_ok c \<longleftrightarrow> distinct (map fst (rc_samples c)) \<and> (\<forall>(_, s) \<in> set (rc_samples c). sa_generation s = rc_generation c)"

lemma rates_ok_default: "rates_ok rate_calculator_default"
  by (simp add: rates_ok_def rate_calculator_default_def)

lemma map_of_filter_value:
  "distinct (map fst xs) \<Longrightarrow> map_of (filter (\<lambda>(_, v). P v) xs) k = (case map_of xs k of Some v \<Rightarrow> if P v then Some v else None | None \<Rightarrow> None)"
  by (induction xs) (auto simp: map_of_eq_None_iff split: option.splits intro: rev_image_eqI)

lemma calculate_each_exact:
  assumes "distinct (map snapshot_key snapshots)" and "distinct (map fst samples)"
  shows "fst (calculate_each f t g snapshots samples) = map (\<lambda>s. calculate_rate f s (map_of samples (snapshot_key s)) t) snapshots \<and>
    map_of (snd (calculate_each f t g snapshots samples)) = map_of samples ++ map_of (map (\<lambda>s. (snapshot_key s, sample_of s t g)) snapshots) \<and>
    distinct (map fst (snd (calculate_each f t g snapshots samples)))"
  using assms
proof (induction snapshots arbitrary: samples)
  case (Cons s rest)
  let ?samples = "AList.update (snapshot_key s) (sample_of s t g) samples"
  obtain rates samples' where rec: "calculate_each f t g rest ?samples = (rates, samples')" by fastforce
  have d: "distinct (map fst ?samples)" using Cons.prems(2) by (rule distinct_update)
  have new: "snapshot_key s \<notin> snapshot_key ` set rest" using Cons.prems(1) by simp
  have same: "map_of ?samples (snapshot_key x) = map_of samples (snapshot_key x)" if "x \<in> set rest" for x
  proof -
    have "snapshot_key x \<noteq> snapshot_key s" using new that by (metis imageI)
    then show ?thesis by (simp add: update_conv')
  qed
  have old: "map_of (map (\<lambda>s. (snapshot_key s, sample_of s t g)) rest) (snapshot_key s) = None"
    using new by (auto simp: map_of_eq_None_iff)
  have IH: "rates = map (\<lambda>x. calculate_rate f x (map_of ?samples (snapshot_key x)) t) rest"
    "map_of samples' = map_of ?samples ++ map_of (map (\<lambda>s. (snapshot_key s, sample_of s t g)) rest)" "distinct (map fst samples')"
    using Cons.IH [OF _ d] Cons.prems(1) rec by simp_all
  have run: "calculate_each f t g (s # rest) samples = (calculate_rate f s (map_of samples (snapshot_key s)) t # rates, samples')"
    using rec by (simp add: snapshot_key_def Let_def)
  have "rates = map (\<lambda>x. calculate_rate f x (map_of samples (snapshot_key x)) t) rest" unfolding IH(1) using same by simp
  moreover have "map_of samples' = map_of samples ++ map_of (map (\<lambda>s. (snapshot_key s, sample_of s t g)) (s # rest))"
    unfolding IH(2) using old by (simp add: update_conv' fun_eq_iff map_add_def split: option.split)
  ultimately show ?case unfolding run fst_conv snd_conv list.map(2) [of "\<lambda>s. calculate_rate f s (map_of samples (snapshot_key s)) t"]
    using IH(3) by blast
qed (simp add: map_of_map)

text \<open>
  C38. Rates are computed against the previous scrape: for a snapshot with one row per listener, the rate of each row is computed from
  the sample the listener had, which exists exactly when the listener was in the previous scrape; afterwards the
  calculator holds exactly one sample per row, with its totals, whatever listeners came and went.
\<close>

theorem calculate_exact:
  assumes "rates_ok c" and "distinct (map (\<lambda>s. (lms_port s, lms_protocol s)) snapshots)" and "calculate f snapshots timestamp_ms c = (rates, c')"
  shows "rates = map (\<lambda>s. calculate_rate f s (map_of (rc_samples c) (listener_key (lms_port s) (lms_protocol s))) timestamp_ms) snapshots \<and>
    map_of (rc_samples c') =
      map_of (map (\<lambda>s. (listener_key (lms_port s) (lms_protocol s), sample_of s timestamp_ms (rc_generation c'))) snapshots) \<and>
    sample_count c' = length snapshots \<and> rates_ok c'"
proof -
  let ?g = "rc_generation c + 1" and ?new = "map (\<lambda>s. (snapshot_key s, sample_of s timestamp_ms (rc_generation c + 1))) snapshots"
  have keys: "distinct (map snapshot_key snapshots)"
    using assms(2) by (auto simp: distinct_map snapshot_key_def listener_key_inject inj_on_def)
  obtain samples where each: "calculate_each f timestamp_ms ?g snapshots (rc_samples c) = (rates, samples)"
    and c': "c' = \<lparr>rc_samples = filter (\<lambda>(_, s). sa_generation s = ?g) samples, rc_generation = ?g\<rparr>"
    using assms(3) by (auto simp: calculate_def Let_def split: prod.splits)
  have spec: "rates = map (\<lambda>s. calculate_rate f s (map_of (rc_samples c) (snapshot_key s)) timestamp_ms) snapshots"
    "map_of samples = map_of (rc_samples c) ++ map_of ?new" "distinct (map fst samples)"
    using calculate_each_exact [OF keys, of "rc_samples c" f timestamp_ms ?g] each assms(1) by (simp_all add: rates_ok_def)
  have stale: "sa_generation s \<noteq> ?g" if "map_of (rc_samples c) k = Some s" for k s
  proof -
    have "sa_generation s = rc_generation c" using that assms(1) map_of_SomeD by (fastforce simp: rates_ok_def)
    then show ?thesis by simp
  qed
  have fresh: "sa_generation s = ?g" if "map_of ?new k = Some s" for k s
    using map_of_SomeD [OF that] by (auto simp: sample_of_def)
  have kept: "map_of (rc_samples c') k = map_of ?new k" for k
  proof -
    have "map_of (filter (\<lambda>(_, s). sa_generation s = ?g) samples) k = (case map_of samples k of Some s \<Rightarrow> if sa_generation s = ?g then Some s else None | None \<Rightarrow> None)"
      using map_of_filter_value [OF spec(3)] by simp
    then show ?thesis using spec(2) stale fresh by (auto simp: c' map_add_def split: option.splits)
  qed
  have dist: "distinct (map fst (rc_samples c'))" using spec(3) by (simp add: c' distinct_map_filter)
  have "set (map fst (rc_samples c')) = snapshot_key ` set snapshots"
  proof -
    have "map_of (rc_samples c') = map_of ?new" using kept by (rule ext)
    then have "fst ` set (rc_samples c') = fst ` set ?new" by (metis dom_map_of_conv_image_fst)
    then show ?thesis by (simp add: image_image)
  qed
  then have "length (rc_samples c') = length snapshots"
    using distinct_card [OF dist] distinct_card [OF keys] by simp
  moreover have "rates_ok c'" using dist by (auto simp: rates_ok_def c')
  ultimately show ?thesis using spec(1) kept by (simp add: snapshot_key_def sample_count_def c' fun_eq_iff)
qed

text \<open>A scrape of one listener 1000 milliseconds after another.\<close>

definition example_snapshot :: "u64 \<Rightarrow> listener_metrics_snapshot" where
  "example_snapshot rx = \<lparr>lms_port = 1000, lms_protocol = Tcp, lms_connections_current = 1, lms_rx_bytes_total = rx, lms_tx_bytes_total = 0\<rparr>"

definition example_f64 :: "int f64_ops" where
  "example_f64 = \<lparr>f64_of_u64 = uint, f64_of_i64 = (\<lambda>n. n), f64_div = (div), f64_display = (\<lambda>n. show_nat (nat n))\<rparr>"

theorem calculate_exact_witness:
  "\<exists>c' rates c''. calculate example_f64 [example_snapshot 5] 0 rate_calculator_default = (rates, c') \<and> rates_ok c' \<and>
     map lr_rx_bytes_per_second (fst (calculate example_f64 [example_snapshot 25] 2000 c')) = [10] \<and>
     snd (calculate example_f64 [example_snapshot 25] 2000 c') = c'' \<and> sample_count c'' = 1"
proof -
  obtain rates c' where one: "calculate example_f64 [example_snapshot 5] 0 rate_calculator_default = (rates, c')" by fastforce
  obtain rates' c'' where two: "calculate example_f64 [example_snapshot 25] 2000 c' = (rates', c'')" by fastforce
  have ok: "rates_ok c'" and first: "map_of (rc_samples c') = map_of [(listener_key 1000 Tcp, sample_of (example_snapshot 5) 0 (rc_generation c'))]"
    using calculate_exact [OF rates_ok_default _ one] by (simp_all add: example_snapshot_def)
  have "rates' = [calculate_rate example_f64 (example_snapshot 25) (map_of (rc_samples c') (listener_key 1000 Tcp)) 2000]" "sample_count c'' = 1"
    using calculate_exact [OF ok _ two] by (simp_all add: example_snapshot_def)
  then have "map lr_rx_bytes_per_second rates' = [10]"
    by (simp add: first calculate_rate_def bytes_per_second_def sample_of_def example_snapshot_def example_f64_def saturating_sub_i64_def)
  then show ?thesis using one two ok \<open>sample_count c'' = 1\<close> by simp
qed

end
