(* ===== verification/Relayd_Http.thy ===== *)
theory Relayd_Http
  imports Relayd_Consistency Relayd_Prometheus Relayd_Metrics
begin

text \<open>
  The HTTP control plane (\<open>src/src/http/control_plane.rs\<close>): the routes, bearer authentication, decoding of
  request bodies, one handler per endpoint and the answer to every service error. A handler is an action whose early
  returns are its errors; both carry a response. The web framework and the JSON decoder are parameters: \<open>web\<close> holds what
  the handlers use of them.
\<close>

unbundle bit_operations_syntax

section \<open>Requests, responses and the framework\<close>

datatype http_method = GET | HEAD | POST | PUT | DELETE | OtherMethod string

record 'body http_request =
  rq_method :: http_method
  rq_path :: string
  rq_authorization :: "u8 list option"
  rq_body :: 'body

datatype json_value =
    JsonMetrics json_metrics
  | JsonResources "allocation_resource list"
  | JsonResource allocation_resource
  | JsonBinding binding_view
  | JsonViews "allocation_view list"
  | JsonView allocation_view

datatype response_body = EmptyBody | TextBody string | JsonBody json_value

text \<open>\<open>rs_content_type\<close> is the content type a handler sets itself.\<close>

record http_response =
  rs_status :: nat
  rs_content_type :: "string option"
  rs_body :: response_body

record allocation_create_request =
  acr_protocol :: string

record binding_put_request =
  bpr_host :: string
  bpr_target_port :: u32

record port_create_request =
  pcr_protocol :: string
  pcr_target_port :: u32

record target_request =
  tr_id :: string
  tr_host :: string

record update_request =
  ur_target_port :: "u32 option"
  ur_host :: "string option"

text \<open>
  What the handlers use of axum and serde: \<open>match_path\<close> finds the pattern of the table that a path matches and its
  captured segment, \<open>serves\<close> whether a route of a method answers a request method, \<open>path_param\<close> decodes the captured
  segment or gives the framework's rejection, \<open>header_to_str\<close> reads a header value as text, \<open>to_bytes\<close> collects a body up
  to a limit, and one decoder per request type.
\<close>

record 'body web =
  match_path :: "string list \<Rightarrow> string \<Rightarrow> (string \<times> string) option"
  serves :: "http_method \<Rightarrow> http_method \<Rightarrow> bool"
  path_param :: "string \<Rightarrow> http_response + string"
  header_to_str :: "u8 list \<Rightarrow> string option"
  to_bytes :: "'body \<Rightarrow> nat \<Rightarrow> u8 list option"
  de_allocation_create :: "u8 list \<Rightarrow> allocation_create_request option"
  de_binding_put :: "u8 list \<Rightarrow> binding_put_request option"
  de_port_create :: "u8 list \<Rightarrow> port_create_request option"
  de_target :: "u8 list \<Rightarrow> target_request option"
  de_update :: "u8 list \<Rightarrow> update_request option"

text \<open>
  \<open>AppState\<close>. The metrics are shared with the runtime, so the state holds where to read them in it.
\<close>

record 'rt app_state =
  as_service :: "'rt service"
  as_metrics :: "'rt \<Rightarrow> metrics"
  as_auth_token :: string
  as_prometheus_rates :: rate_calculator

definition app_state_new :: "'rt service \<Rightarrow> ('rt \<Rightarrow> metrics) \<Rightarrow> string \<Rightarrow> 'rt app_state" where
  "app_state_new service m token =
     \<lparr>as_service = service, as_metrics = m, as_auth_token = token, as_prometheus_rates = rate_calculator_default\<rparr>"

type_synonym ('rt, 'a) handler = "('rt app_state, http_response, 'a) action"

section \<open>Responses\<close>

definition json_response :: "nat \<Rightarrow> json_value \<Rightarrow> http_response" where
  "json_response status value = \<lparr>rs_status = status, rs_content_type = None, rs_body = JsonBody value\<rparr>"

definition text_response :: "nat \<Rightarrow> string \<Rightarrow> http_response" where
  "text_response status body = \<lparr>rs_status = status, rs_content_type = None, rs_body = TextBody body\<rparr>"

definition status_response :: "nat \<Rightarrow> http_response" where
  "status_response status = \<lparr>rs_status = status, rs_content_type = None, rs_body = EmptyBody\<rparr>"

record http_text_error =
  hte_status :: nat
  hte_body :: string

definition into_response :: "http_text_error \<Rightarrow> http_response" where
  "into_response e = text_response (hte_status e) (hte_body e)"

fun service_error_response :: "service_error \<Rightarrow> http_response" where
  "service_error_response NotFound = text_response 404 ''NotFound''"
| "service_error_response NoAvailablePort = text_response 409 ''NoAvailablePort''"
| "service_error_response ServiceInvalidHost = text_response 400 ''InvalidHost''"
| "service_error_response ServiceTimeout = text_response 503 ''Timeout''"
| "service_error_response (RuntimeFailed RuntimeCreateFailed) = text_response 503 ''RuntimeCreateFailed''"
| "service_error_response (RuntimeFailed RuntimeUpdateFailed) = text_response 503 ''RuntimeUpdateFailed''"
| "service_error_response (RuntimeFailed RuntimeDeleteFailed) = text_response 503 ''RuntimeDeleteFailed''"
| "service_error_response (RuntimeFailed RuntimeRestoreFailed) = text_response 503 ''RuntimeRestoreFailed''"
| "service_error_response (RuntimeFailed RuntimeApplyFailed) = text_response 503 ''RuntimeApplyFailed''"
| "service_error_response (RuntimeFailed RuntimeTimeout) = text_response 503 ''Timeout''"
| "service_error_response DeletePersistenceFailed = text_response 500 ''DeletePersistenceFailed''"
| "service_error_response (RepositoryFailed _) = text_response 500 ''internal server error''"

section \<open>Authentication\<close>

definition as_bytes :: "string \<Rightarrow> u8 list" where
  "as_bytes s = map of_char s"

definition constant_time_eq :: "u8 list \<Rightarrow> u8 list \<Rightarrow> bool" where
  "constant_time_eq a b =
     (if length a \<noteq> length b then False
      else fold (\<lambda>(x, y) diff. diff OR (x XOR y)) (zip a b) 0 = 0)"

definition from_request_parts :: "'body web \<Rightarrow> 'body http_request \<Rightarrow> 'rt app_state \<Rightarrow> http_text_error + unit" where
  "from_request_parts w rq state =
     (case Option.bind (rq_authorization rq) (header_to_str w) of
        None \<Rightarrow> Err \<lparr>hte_status = 401, hte_body = ''unauthorized''\<rparr>
      | Some value \<Rightarrow>
          (case strip_prefix ''Bearer '' value of
             None \<Rightarrow> Err \<lparr>hte_status = 401, hte_body = ''unauthorized''\<rparr>
           | Some provided \<Rightarrow>
               if constant_time_eq (as_bytes provided) (as_bytes (as_auth_token state)) then Ok ()
               else Err \<lparr>hte_status = 401, hte_body = ''unauthorized''\<rparr>))"

section \<open>Extractors and validation\<close>

text \<open>The extractors of a handler run in the order of its arguments; a rejection is its response.\<close>

definition authed :: "'body web \<Rightarrow> 'body http_request \<Rightarrow> ('rt, unit) handler" where
  "authed w rq s = (map_err into_response (from_request_parts w rq s), s)"

definition path_id :: "'body web \<Rightarrow> string \<Rightarrow> ('rt, string) handler" where
  "path_id w seg s = (path_param w seg, s)"

definition or_text_error :: "http_text_error + 'a \<Rightarrow> ('rt, 'a) handler" where
  "or_text_error r s = (map_err into_response r, s)"

definition call_service :: "('rt service, service_error, 'a) action \<Rightarrow> ('rt, 'a) handler" where
  "call_service = zoom as_service (\<lambda>v s. s\<lparr>as_service := v\<rparr>) service_error_response"

definition http_parse_protocol :: "string \<Rightarrow> http_text_error + protocol" where
  "http_parse_protocol value =
     (case protocol_from_str value of
        Inl _ \<Rightarrow> Err \<lparr>hte_status = 400, hte_body = ''invalid protocol''\<rparr>
      | Inr p \<Rightarrow> Ok p)"

definition parse_request_port :: "u32 \<Rightarrow> http_text_error + u16" where
  "parse_request_port port =
     (case parse_port (show_nat (unat port)) of
        Inl _ \<Rightarrow> Err \<lparr>hte_status = 400, hte_body = ''invalid port''\<rparr>
      | Inr p \<Rightarrow> Ok p)"

definition read_json :: "'body web \<Rightarrow> ('body web \<Rightarrow> u8 list \<Rightarrow> 'a option) \<Rightarrow> 'body http_request \<Rightarrow> http_text_error + 'a" where
  "read_json w de rq =
     (case to_bytes w (rq_body rq) 4096 of
        None \<Rightarrow> Err \<lparr>hte_status = 400, hte_body = ''invalid request body''\<rparr>
      | Some bytes \<Rightarrow>
          (case de w bytes of
             None \<Rightarrow> Err \<lparr>hte_status = 400, hte_body = ''invalid request body''\<rparr>
           | Some value \<Rightarrow> Ok value))"

definition http_current_time_ms :: "('rt, i64) handler" where
  "http_current_time_ms = call_service now_ms"

section \<open>Handlers\<close>

definition prometheus_metrics_handler ::
    "'f f64_ops \<Rightarrow> 'body web \<Rightarrow> 'rt runtime_facade \<Rightarrow> 'body http_request \<Rightarrow> ('rt, http_response) handler" where
  "prometheus_metrics_handler f w rt rq =
     and_then (authed w rq) (\<lambda>_.
     and_then (call_service (snapshot_listener_metrics rt)) (\<lambda>rows.
     and_then http_current_time_ms (\<lambda>timestamp_ms s.
       case calculate f rows timestamp_ms (as_prometheus_rates s) of
         (rates, rc) \<Rightarrow>
           (Ok \<lparr>rs_status = 200, rs_content_type = Some prometheus_content_type, rs_body = TextBody (render_rates f rates)\<rparr>,
            s\<lparr>as_prometheus_rates := rc\<rparr>))))"

definition json_metrics_handler :: "'body web \<Rightarrow> 'body http_request \<Rightarrow> ('rt, http_response) handler" where
  "json_metrics_handler w rq =
     and_then (authed w rq) (\<lambda>_ s.
       (Ok (json_response 200 (JsonMetrics (metrics_snapshot (as_metrics s (runtime (as_service s)))))), s))"

definition list_allocations_handler :: "'body web \<Rightarrow> 'body http_request \<Rightarrow> ('rt, http_response) handler" where
  "list_allocations_handler w rq =
     and_then (authed w rq) (\<lambda>_.
     and_then (call_service list_allocation_resources) (\<lambda>resources. return (json_response 200 (JsonResources resources))))"

definition create_allocation_handler ::
    "'body web \<Rightarrow> 'rt runtime_facade \<Rightarrow> 'body http_request \<Rightarrow> ('rt, http_response) handler" where
  "create_allocation_handler w rt rq =
     and_then (authed w rq) (\<lambda>_.
     and_then (or_text_error (read_json w de_allocation_create rq)) (\<lambda>body.
     and_then (or_text_error (http_parse_protocol (acr_protocol body))) (\<lambda>p.
     and_then (call_service (create_allocation rt p None)) (\<lambda>a.
       return (json_response 201 (JsonResource (allocation_resource_of a)))))))"

definition found_or_404 :: "('a \<Rightarrow> json_value) \<Rightarrow> 'a option \<Rightarrow> http_response" where
  "found_or_404 json found =
     (case found of Some v \<Rightarrow> json_response 200 (json v) | None \<Rightarrow> text_response 404 ''NotFound'')"

definition get_allocation_handler :: "'body web \<Rightarrow> string \<Rightarrow> 'body http_request \<Rightarrow> ('rt, http_response) handler" where
  "get_allocation_handler w seg rq =
     and_then (authed w rq) (\<lambda>_.
     and_then (path_id w seg) (\<lambda>aid.
     and_then (call_service (get_allocation_resource aid)) (\<lambda>found. return (found_or_404 JsonResource found))))"

definition delete_allocation_handler ::
    "'body web \<Rightarrow> 'rt runtime_facade \<Rightarrow> string \<Rightarrow> 'body http_request \<Rightarrow> ('rt, http_response) handler" where
  "delete_allocation_handler w rt seg rq =
     and_then (authed w rq) (\<lambda>_.
     and_then (path_id w seg) (\<lambda>aid.
     and_then (call_service (delete_allocation rt aid)) (\<lambda>_. return (status_response 204))))"

definition get_binding_handler ::
    "'body web \<Rightarrow> 'rt runtime_facade \<Rightarrow> string \<Rightarrow> 'body http_request \<Rightarrow> ('rt, http_response) handler" where
  "get_binding_handler w rt seg rq =
     and_then (authed w rq) (\<lambda>_.
     and_then (path_id w seg) (\<lambda>aid.
     and_then (call_service (get_binding_view rt aid)) (\<lambda>found. return (found_or_404 JsonBinding found))))"

definition put_binding_handler ::
    "'body web \<Rightarrow> 'rt runtime_facade \<Rightarrow> string \<Rightarrow> 'body http_request \<Rightarrow> ('rt, http_response) handler" where
  "put_binding_handler w rt seg rq =
     and_then (authed w rq) (\<lambda>_.
     and_then (path_id w seg) (\<lambda>aid.
     and_then (or_text_error (read_json w de_binding_put rq)) (\<lambda>body.
     and_then (or_text_error (parse_request_port (bpr_target_port body))) (\<lambda>target_port.
     and_then (call_service (put_binding rt aid (bpr_host body) target_port)) (\<lambda>b.
     and_then (call_service (binding_view_for rt b)) (\<lambda>view. return (json_response 200 (JsonBinding view))))))))"

definition delete_binding_handler ::
    "'body web \<Rightarrow> 'rt runtime_facade \<Rightarrow> string \<Rightarrow> 'body http_request \<Rightarrow> ('rt, http_response) handler" where
  "delete_binding_handler w rt seg rq =
     and_then (authed w rq) (\<lambda>_.
     and_then (path_id w seg) (\<lambda>aid.
     and_then (call_service (delete_binding rt aid)) (\<lambda>_. return (status_response 204))))"

definition aggregate_view :: "'rt runtime_facade \<Rightarrow> allocation \<Rightarrow> nat \<Rightarrow> ('rt, http_response) handler" where
  "aggregate_view rt a status =
     and_then (call_service (allocation_view_for rt a)) (\<lambda>view. return (json_response status (JsonView view)))"

definition list_ports_handler :: "'body web \<Rightarrow> 'rt runtime_facade \<Rightarrow> 'body http_request \<Rightarrow> ('rt, http_response) handler" where
  "list_ports_handler w rt rq =
     and_then (authed w rq) (\<lambda>_.
     and_then (call_service (list_allocations rt)) (\<lambda>views. return (json_response 200 (JsonViews views))))"

definition create_port_handler :: "'body web \<Rightarrow> 'rt runtime_facade \<Rightarrow> 'body http_request \<Rightarrow> ('rt, http_response) handler" where
  "create_port_handler w rt rq =
     and_then (authed w rq) (\<lambda>_.
     and_then (or_text_error (read_json w de_port_create rq)) (\<lambda>body.
     and_then (or_text_error (http_parse_protocol (pcr_protocol body))) (\<lambda>p.
     and_then (or_text_error (parse_request_port (pcr_target_port body))) (\<lambda>target_port.
     and_then (call_service (create_allocation rt p (Some target_port))) (\<lambda>a. aggregate_view rt a 201)))))"

definition set_target_handler :: "'body web \<Rightarrow> 'rt runtime_facade \<Rightarrow> 'body http_request \<Rightarrow> ('rt, http_response) handler" where
  "set_target_handler w rt rq =
     and_then (authed w rq) (\<lambda>_.
     and_then (or_text_error (read_json w de_target rq)) (\<lambda>body.
     and_then (call_service (set_target rt (tr_id body) (tr_host body))) (\<lambda>a. aggregate_view rt a 200)))"

definition parse_optional_port :: "u32 option \<Rightarrow> http_text_error + u16 option" where
  "parse_optional_port port =
     (case port of
        Some n \<Rightarrow> (case parse_request_port n of Inr v \<Rightarrow> Ok (Some v) | Inl e \<Rightarrow> Err e)
      | None \<Rightarrow> Ok None)"

definition update_port_handler ::
    "'body web \<Rightarrow> 'rt runtime_facade \<Rightarrow> string \<Rightarrow> 'body http_request \<Rightarrow> ('rt, http_response) handler" where
  "update_port_handler w rt seg rq =
     and_then (authed w rq) (\<lambda>_.
     and_then (path_id w seg) (\<lambda>aid.
     and_then (or_text_error (read_json w de_update rq)) (\<lambda>body.
     and_then (or_text_error (parse_optional_port (ur_target_port body))) (\<lambda>target_port.
       if target_port = None \<and> ur_host body = None then throw (text_response 400 ''empty update'')
       else and_then (call_service (update_allocation rt aid target_port (ur_host body))) (\<lambda>a. aggregate_view rt a 200)))))"

definition delete_port_handler ::
    "'body web \<Rightarrow> 'rt runtime_facade \<Rightarrow> string \<Rightarrow> 'body http_request \<Rightarrow> ('rt, http_response) handler" where
  "delete_port_handler w rt seg rq =
     and_then (authed w rq) (\<lambda>_.
     and_then (path_id w seg) (\<lambda>aid.
     and_then (call_service (delete_allocation rt aid)) (\<lambda>_. return (status_response 204))))"

definition not_found_handler :: "'body web \<Rightarrow> 'body http_request \<Rightarrow> ('rt, http_response) handler" where
  "not_found_handler w rq = and_then (authed w rq) (\<lambda>_. return (text_response 404 ''not found''))"

section \<open>Routes\<close>

datatype endpoint =
    PrometheusMetrics | GetJsonMetrics | ListAllocations | CreateAllocation | GetAllocation | DeleteAllocation
  | GetBinding | PutBinding | DeleteBinding | ListPorts | CreatePort | SetTarget | UpdatePort | DeletePort | Fallback

definition routes :: "(string \<times> (http_method \<times> endpoint) list) list" where
  "routes =
     [(''/metrics'', [(GET, PrometheusMetrics)]),
      (''/v1/metrics'', [(GET, GetJsonMetrics)]),
      (''/v1/allocations'', [(GET, ListAllocations), (POST, CreateAllocation)]),
      (''/v1/allocations/{id}'', [(GET, GetAllocation), (DELETE, DeleteAllocation)]),
      (''/v1/allocations/{id}/binding'', [(GET, GetBinding), (PUT, PutBinding), (DELETE, DeleteBinding)]),
      (''/v1/ports'', [(GET, ListPorts), (POST, CreatePort)]),
      (''/v1/ports/target'', [(POST, SetTarget)]),
      (''/v1/ports/{id}'', [(POST, UpdatePort), (DELETE, DeletePort)])]"

text \<open>An unknown path and a method the path has no route for both go to the fallback.\<close>

definition route :: "'body web \<Rightarrow> 'body http_request \<Rightarrow> endpoint \<times> string" where
  "route w rq =
     (case match_path w (map fst routes) (rq_path rq) of
        None \<Rightarrow> (Fallback, [])
      | Some (pattern, seg) \<Rightarrow>
          (case map_of routes pattern of
             None \<Rightarrow> (Fallback, seg)
           | Some methods \<Rightarrow>
               (case find (\<lambda>(m, _). serves w m (rq_method rq)) methods of
                  None \<Rightarrow> (Fallback, seg)
                | Some (_, e) \<Rightarrow> (e, seg))))"

fun handler_of :: "'f f64_ops \<Rightarrow> 'body web \<Rightarrow> 'rt runtime_facade \<Rightarrow> 'body http_request \<Rightarrow> string \<Rightarrow> endpoint \<Rightarrow>
    ('rt, http_response) handler" where
  "handler_of f w rt rq seg PrometheusMetrics = prometheus_metrics_handler f w rt rq"
| "handler_of f w rt rq seg GetJsonMetrics = json_metrics_handler w rq"
| "handler_of f w rt rq seg ListAllocations = list_allocations_handler w rq"
| "handler_of f w rt rq seg CreateAllocation = create_allocation_handler w rt rq"
| "handler_of f w rt rq seg GetAllocation = get_allocation_handler w seg rq"
| "handler_of f w rt rq seg DeleteAllocation = delete_allocation_handler w rt seg rq"
| "handler_of f w rt rq seg GetBinding = get_binding_handler w rt seg rq"
| "handler_of f w rt rq seg PutBinding = put_binding_handler w rt seg rq"
| "handler_of f w rt rq seg DeleteBinding = delete_binding_handler w rt seg rq"
| "handler_of f w rt rq seg ListPorts = list_ports_handler w rt rq"
| "handler_of f w rt rq seg CreatePort = create_port_handler w rt rq"
| "handler_of f w rt rq seg SetTarget = set_target_handler w rt rq"
| "handler_of f w rt rq seg UpdatePort = update_port_handler w rt seg rq"
| "handler_of f w rt rq seg DeletePort = delete_port_handler w rt seg rq"
| "handler_of f w rt rq seg Fallback = not_found_handler w rq"

fun respond :: "http_response + http_response \<Rightarrow> http_response" where
  "respond (Inl r) = r"
| "respond (Inr r) = r"

definition router :: "'f f64_ops \<Rightarrow> 'body web \<Rightarrow> 'rt runtime_facade \<Rightarrow> 'body http_request \<Rightarrow> 'rt app_state \<Rightarrow>
    http_response \<times> 'rt app_state" where
  "router f w rt rq s =
     (case route w rq of (e, seg) \<Rightarrow> (case handler_of f w rt rq seg e s of (r, s') \<Rightarrow> (respond r, s')))"

section \<open>Authentication is equality of the token\<close>

lemma or_eq_0: "(a :: u8) OR b = 0 \<longleftrightarrow> a = 0 \<and> b = 0"
  by (auto simp: bit_eq_iff bit_simps)

lemma xor_eq_0: "(a :: u8) XOR b = 0 \<longleftrightarrow> a = b"
  by (auto simp: bit_eq_iff bit_simps)

lemma fold_diff_eq_0:
  "fold (\<lambda>(x, y) diff. diff OR (x XOR y)) zs (d :: u8) = 0 \<longleftrightarrow> d = 0 \<and> (\<forall>(x, y) \<in> set zs. x = y)"
  by (induction zs arbitrary: d) (auto simp: or_eq_0 xor_eq_0)

lemma constant_time_eq_iff: "constant_time_eq a b \<longleftrightarrow> a = b"
  unfolding constant_time_eq_def fold_diff_eq_0
  by (auto simp: list_eq_iff_nth_eq set_zip)

lemma of_char_u8_inject: "(of_char c :: u8) = of_char d \<longleftrightarrow> c = d"
proof
  assume eq: "(of_char c :: u8) = of_char d"
  have val: "unat (of_char x :: u8) = of_char x" for x
  proof -
    have "(of_char x :: u8) = of_nat (of_char x)" by (simp only: of_nat_of_char)
    moreover have "of_char x < (256 :: nat)" by simp
    ultimately show ?thesis by (simp only: unat_of_nat) simp
  qed
  show "c = d" using arg_cong [OF eq, of unat] unfolding val by simp
qed simp

lemma as_bytes_inject: "as_bytes s = as_bytes t \<longleftrightarrow> s = t"
  unfolding as_bytes_def by (rule inj_map_eq_map) (simp add: inj_def of_char_u8_inject)

text \<open>A request carries the token when its authorization header reads as \<open>Bearer\<close>, a space and exactly the token.\<close>

definition carries_token :: "'body web \<Rightarrow> 'body http_request \<Rightarrow> string \<Rightarrow> bool" where
  "carries_token w rq token \<longleftrightarrow> Option.bind (rq_authorization rq) (header_to_str w) = Some (''Bearer '' @ token)"

definition unauthorized :: http_text_error where
  "unauthorized = \<lparr>hte_status = 401, hte_body = ''unauthorized''\<rparr>"

lemma from_request_parts_eq:
  "from_request_parts w rq s = (if carries_token w rq (as_auth_token s) then Ok () else Err unauthorized)"
proof (cases "Option.bind (rq_authorization rq) (header_to_str w)")
  case (Some v)
  show ?thesis
  proof (cases "strip_prefix ''Bearer '' v")
    case None
    then have "\<not> carries_token w rq (as_auth_token s)"
      using strip_prefix_Some [of "''Bearer ''" v "as_auth_token s"] Some by (auto simp: carries_token_def)
    then show ?thesis using None Some by (simp add: from_request_parts_def unauthorized_def)
  next
    case (Some provided)
    then have "v = ''Bearer '' @ provided" by (simp only: strip_prefix_Some)
    then show ?thesis using \<open>Option.bind _ _ = _\<close> Some
      by (simp add: from_request_parts_def carries_token_def unauthorized_def constant_time_eq_iff as_bytes_inject)
  qed
qed (simp add: from_request_parts_def carries_token_def unauthorized_def)

section \<open>What every handler keeps\<close>

text \<open>
  The extractors leave the state alone, and what a service call keeps of the service the handler keeps of it. A handler
  with its authentication done is a chain of such calls.
\<close>

abbreviation kept :: "('s \<Rightarrow> bool) \<Rightarrow> ('s, 'e, 'a) action \<Rightarrow> bool" where
  "kept I m \<equiv> valid I m (\<lambda>_. I) (\<lambda>_. I)"

definition on_service :: "('rt service \<Rightarrow> bool) \<Rightarrow> 'rt app_state \<Rightarrow> bool" where
  "on_service I s \<longleftrightarrow> I (as_service s)"

lemma valid_if: "valid P a Q E \<Longrightarrow> valid P b Q E \<Longrightarrow> valid P (if c then a else b) Q E"
  by simp

lemma extractors_kept: "kept I (authed w rq)" "kept I (path_id w seg)" "kept I (or_text_error r)"
  by (rule validI; simp add: authed_def path_id_def or_text_error_def)+

lemma call_service_kept: "kept I m \<Longrightarrow> kept (on_service I) (call_service m)"
proof -
  assume m: "kept I m"
  have "on_service I s'" if "on_service I s" "call_service m s = (res, s')" for s res s'
  proof -
    obtain out v where run: "m (as_service s) = (out, v)" by fastforce
    then have "I v" using valid_result [OF m] that(1) by (simp add: on_service_def)
    then show ?thesis using that(2) run by (auto simp: call_service_def zoom_def on_service_def)
  qed
  then show ?thesis by (intro validI)
qed

text \<open>The service calls of the handlers, each a run of the transition system of the service.\<close>

definition runs :: "'rt runtime_facade \<Rightarrow> ('rt \<Rightarrow> 'rt \<Rightarrow> bool) \<Rightarrow> 'rt service \<Rightarrow> 'rt service \<Rightarrow> bool" where
  "runs rt R s0 s \<longleftrightarrow> (service_step rt R)\<^sup>*\<^sup>* s0 s"

lemma one_step_runs: "(\<And>s res s'. m s = (res, s') \<Longrightarrow> service_step rt R s s') \<Longrightarrow> kept (runs rt R s0) m"
  by (rule validI) (auto simp: runs_def intro: rtranclp.rtrancl_into_rtrancl)

lemma ask_runtime_kept: "kept I (ask_runtime q)"
  by (rule validI) (simp_all add: ask_runtime_def)

lemma calls_run:
  "kept (runs rt R s0) (create_allocation rt p tp)"
  "kept (runs rt R s0) (put_binding rt aid host tpo)"
  "kept (runs rt R s0) (delete_binding rt aid)"
  "kept (runs rt R s0) (update_allocation rt aid tp ho)"
  "kept (runs rt R s0) (set_target rt aid host)"
  "kept (runs rt R s0) (delete_allocation rt aid)"
  "kept (runs rt R s0) list_allocation_resources"
  "kept (runs rt R s0) (list_allocations rt)"
  "kept (runs rt R s0) (get_allocation_resource aid)"
  "kept (runs rt R s0) (get_binding_view rt aid)"
  "kept (runs rt R s0) now_ms"
  unfolding set_target_def
  by (rule one_step_runs, erule service_step.intros)+

lemma views_kept: "kept I (allocation_view_for rt a)" "kept I (binding_view_for rt b)" "kept I (snapshot_listener_metrics rt)"
  unfolding allocation_view_for_def binding_view_for_def snapshot_listener_metrics_def
  by (rule valid_and_then [OF ask_runtime_kept valid_return], assumption)+ (rule ask_runtime_kept)

lemmas handler_defs = prometheus_metrics_handler_def json_metrics_handler_def list_allocations_handler_def
  create_allocation_handler_def get_allocation_handler_def delete_allocation_handler_def get_binding_handler_def
  put_binding_handler_def delete_binding_handler_def list_ports_handler_def create_port_handler_def
  set_target_handler_def update_port_handler_def delete_port_handler_def not_found_handler_def

lemma handlers_run: "kept (on_service (runs rt R s0)) (handler_of f w rt rq seg e)"
proof -
  note calls = calls_run [THEN call_service_kept] views_kept [THEN call_service_kept]
  have scrape: "kept (on_service I) (\<lambda>s. case calculate f rows t (as_prometheus_rates s) of (rates, rc) \<Rightarrow> (Ok (r rates), s\<lparr>as_prometheus_rates := rc\<rparr>))"
    for I rows t r
    by (rule validI) (auto simp: on_service_def split: prod.splits)
  have read: "kept I (\<lambda>s. (Ok (g s), s))" for I g
    by (rule validI) simp_all
  note rules = extractors_kept [THEN valid_and_then] calls [THEN valid_and_then] scrape read valid_if valid_return valid_throw
  show ?thesis
    by (cases e; simp only: handler_of.simps handler_defs aggregate_view_def http_current_time_ms_def; (rule rules | assumption)+)
qed

lemma call_service_keeps_token: "kept (\<lambda>s. as_auth_token s = token) (call_service m)"
  by (rule validI) (auto simp: call_service_def zoom_def split: prod.splits)

lemma handlers_keep_token: "kept (\<lambda>s. as_auth_token s = token) (handler_of f w rt rq seg e)"
proof -
  have scrape: "kept (\<lambda>s. as_auth_token s = token)
      (\<lambda>s. case calculate f rows t (as_prometheus_rates s) of (rates, rc) \<Rightarrow> (Ok (r rates), s\<lparr>as_prometheus_rates := rc\<rparr>))" for rows t r
    by (rule validI) (auto split: prod.splits)
  have read: "kept I (\<lambda>s. (Ok (g s), s))" for I g
    by (rule validI) simp_all
  show ?thesis
    by (cases e; simp only: handler_of.simps handler_defs aggregate_view_def http_current_time_ms_def;
        (rule extractors_kept [THEN valid_and_then] call_service_keeps_token [THEN valid_and_then] scrape read valid_if valid_return valid_throw | assumption)+)
qed

end
