(* ===== verification/Relayd_Http_Correct.thy ===== *)
theory Relayd_Http_Correct
  imports Relayd_Http
begin

text \<open>
  Correctness of the HTTP control plane: who is answered at all, and that a request refused as malformed has changed
  nothing. Both follow from triples on the service calls and on the handlers built from them.
\<close>

section \<open>Which errors the service gives\<close>

text \<open>An operation that never reports an invalid host, whatever it does otherwise.\<close>

abbreviation no_host_error :: "('rt service, service_error, 'a) action \<Rightarrow> bool" where
  "no_host_error m \<equiv> valid (\<lambda>_. True) m (\<lambda>_ _. True) (\<lambda>e _. e \<noteq> ServiceInvalidHost)"

lemma embedded_no_host_error: "no_host_error (with_repo a)" "no_host_error (with_runtime b)" "no_host_error (ask_runtime q)"
  unfolding with_repo_def with_runtime_def ask_runtime_def zoom_def
  by (rule validI; auto simp: map_err_eq_Err split: prod.splits)+

lemma small_no_host_error: "no_host_error (fail_if fp ServiceTimeout)" "no_host_error now_ms" "no_host_error (throw NotFound)"
  "no_host_error (throw DeletePersistenceFailed)" "no_host_error (return x)"
  by (rule validI; auto simp: fail_if_def now_ms_def split: if_splits prod.splits)+

lemma update_in_runtime_no_host_error: "no_host_error (update_in_runtime rt a)"
  unfolding update_in_runtime_def by (rule valid_state_arg) (rule embedded_no_host_error)

lemma delete_in_runtime_no_host_error: "no_host_error (delete_in_runtime rt aid)"
  unfolding delete_in_runtime_def by (rule valid_state_arg) (rule embedded_no_host_error)

lemmas no_host_rules = embedded_no_host_error small_no_host_error update_in_runtime_no_host_error delete_in_runtime_no_host_error
lemmas no_host_chain = no_host_rules no_host_rules [THEN valid_and_then]

lemma apply_binding_no_host_error: "no_host_error (apply_binding rt a b)"
  unfolding apply_binding_def Let_def by (intro no_host_chain)

lemma create_attempt_no_host_error: "create_attempt rt p tp start s \<noteq> (Stop (Inl ServiceInvalidHost), s')"
proof -
  have "persist_or_undo rt a t \<noteq> (Inl ServiceInvalidHost, t')" for a t t'
    by (auto simp: persist_or_undo_def persist_created_allocation_def with_repo_def zoom_def map_err_eq_Err
        split: prod.splits sum.splits option.splits)
  then show ?thesis
    by (auto simp: create_attempt_def with_repo_def zoom_def Let_def map_err_eq_Err
        split: prod.splits sum.splits option.splits if_splits)
qed

lemma create_loop_no_host_error: "create_loop rt p tp np s \<noteq> (Inl ServiceInvalidHost, s')"
proof (induction rt p tp np s arbitrary: s' rule: create_loop.induct)
  case (2 rt p tp start s)
  show ?case
  proof (cases "create_attempt rt p tp start s")
    case (Pair out s1)
    then show ?thesis using create_attempt_no_host_error [of rt p tp start s s1] 2 [OF Pair [symmetric]] by (cases out) auto
  qed
qed simp

lemma create_allocation_no_host_error: "no_host_error (create_allocation rt p tp)"
  by (rule validI) (auto simp: create_allocation_def create_loop_no_host_error simp del: create_loop.simps split: if_splits)

lemma delete_allocation_no_host_error: "no_host_error (delete_allocation rt aid)"
proof -
  have del: "no_host_error (and_then (with_repo (repo_delete_allocation aid)) (\<lambda>deleted. if deleted then return () else throw NotFound))"
    by (rule valid_and_then [OF embedded_no_host_error(1)]) (simp add: no_host_rules)
  have undo: "no_host_error (and_then (restore_in_runtime rt a t) (\<lambda>_. throw DeletePersistenceFailed))" for a t
    unfolding restore_in_runtime_def by (intro no_host_chain)
  have tail: "no_host_error (\<lambda>s. if fp_delete_db_failure (service_failpoints s)
      then and_then (restore_in_runtime rt a (apply_timeout_ms s)) (\<lambda>_. throw DeletePersistenceFailed) s
      else and_then (with_repo (repo_delete_allocation aid)) (\<lambda>deleted. if deleted then return () else throw NotFound) s)" for a
    by (rule valid_if_state [OF undo del])
  have "no_host_error (case found of None \<Rightarrow> throw NotFound | Some a \<Rightarrow>
      and_then (fail_if fp_delete_timeout ServiceTimeout) (\<lambda>_. and_then (delete_in_runtime rt aid) (\<lambda>_ s.
        if fp_delete_db_failure (service_failpoints s)
        then and_then (restore_in_runtime rt a (apply_timeout_ms s)) (\<lambda>_. throw DeletePersistenceFailed) s
        else and_then (with_repo (repo_delete_allocation aid)) (\<lambda>deleted. if deleted then return () else throw NotFound) s)))" for found
    by (cases found) (simp_all only: option.case, intro no_host_chain, intro no_host_chain tail)
  then show ?thesis unfolding delete_allocation_def by (rule valid_and_then [OF embedded_no_host_error(1)])
qed

lemma delete_binding_no_host_error: "no_host_error (delete_binding rt aid)"
proof -
  have "no_host_error (case found of None \<Rightarrow> throw NotFound | Some (a, None) \<Rightarrow> throw NotFound
      | Some (a, Some existing_binding) \<Rightarrow> and_then now_ms (\<lambda>now. and_then (with_repo (repo_delete_binding aid now)) (\<lambda>deleted.
          if \<not> deleted then throw NotFound
          else and_then (fail_if fp_update_timeout ServiceTimeout) (\<lambda>_.
            update_in_runtime rt (a\<lparr>a_target_port := None, a_host := None, a_updated_at_ms := now\<rparr>)))))" for found
    by (auto split: option.split intro!: no_host_chain)
  then show ?thesis unfolding delete_binding_def by (rule valid_and_then [OF embedded_no_host_error(1)])
qed

lemma allocation_views_no_host_error: "no_host_error (allocation_views rt xs)"
proof (induction xs)
  case (Cons a xs)
  have "no_host_error (allocation_view_for rt a)" unfolding allocation_view_for_def by (intro no_host_chain)
  then show ?case unfolding allocation_views.simps
    by (rule valid_and_then) (rule valid_and_then [OF Cons.IH], intro no_host_rules)
qed (simp only: allocation_views.simps no_host_rules)

lemma reads_no_host_error: "no_host_error list_allocation_resources" "no_host_error (get_allocation_resource aid)"
  "no_host_error (list_allocations rt)" "no_host_error (get_binding_view rt aid)" "no_host_error (allocation_view_for rt a)"
  "no_host_error (binding_view_for rt b)" "no_host_error (snapshot_listener_metrics rt)"
proof -
  show view: "no_host_error (binding_view_for rt b)" for b unfolding binding_view_for_def by (intro no_host_chain)
  show "no_host_error (list_allocations rt)"
    unfolding list_allocations_def by (rule valid_and_then [OF embedded_no_host_error(1) allocation_views_no_host_error])
  show "no_host_error (get_binding_view rt aid)"
    unfolding get_binding_view_def
    by (rule valid_and_then [OF embedded_no_host_error(1)]) (auto split: option.split intro!: no_host_chain valid_and_then [OF view])
qed (unfold list_allocation_resources_def get_allocation_resource_def allocation_view_for_def snapshot_listener_metrics_def, (intro no_host_chain)+)

section \<open>Refused requests\<close>

definition unchanged :: "'rt service \<Rightarrow> 'rt service \<Rightarrow> bool" where
  "unchanged s0 s \<longleftrightarrow> db (repo s) = db (repo s0) \<and> runtime s = runtime s0"

lemma no_host_refused:
  assumes "no_host_error m"
  shows "valid P m (\<lambda>_ _. True) (\<lambda>e s. e = ServiceInvalidHost \<longrightarrow> X s)"
  by (rule valid_weaken [OF assms]) simp_all

lemma check_host_refused:
  "valid (unchanged s0) (check_host h) (\<lambda>_. unchanged s0) (\<lambda>e s. e = ServiceInvalidHost \<longrightarrow> unchanged s0 s)"
  by (rule validI) (auto simp: check_host_def split: sum.splits)

lemma read_refused:
  assumes "implements m (read_spec q)"
  shows "valid (unchanged s0) (with_repo m) (\<lambda>_. unchanged s0) (\<lambda>e s. e = ServiceInvalidHost \<longrightarrow> unchanged s0 s)"
proof (rule validI)
  fix s x s' assume "unchanged s0 s" "with_repo m s = (Inr x, s')"
  then show "unchanged s0 s'"
    using implements_Ok(2) [OF assms, of "repo s" x] by (auto simp: with_repo_def zoom_def unchanged_def read_spec_def split: prod.splits)
next
  fix s e s' assume "unchanged s0 s" "with_repo m s = (Inl e, s')"
  then show "e = ServiceInvalidHost \<longrightarrow> unchanged s0 s'"
    using valid_Err [OF embedded_no_host_error(1) [of m]] by blast
qed

lemma put_binding_refused:
  "valid (unchanged s0) (put_binding rt aid host tp) (\<lambda>_ _. True) (\<lambda>e s. e = ServiceInvalidHost \<longrightarrow> unchanged s0 s)"
proof -
  have bind: "no_host_error (and_then (apply_binding rt a b) (\<lambda>_. return b))" for a b
    by (rule valid_and_then [OF apply_binding_no_host_error small_no_host_error(5)])
  have "no_host_error (case found of None \<Rightarrow> throw NotFound | Some (a, eb) \<Rightarrow> and_then now_ms (\<lambda>now.
      let b = make_binding aid tp (Some host) eb now in and_then (apply_binding rt a b) (\<lambda>_. return b)))" for found
    by (auto simp: Let_def split: option.split intro!: no_host_chain bind)
  then have "no_host_error (and_then (with_repo (repo_get_allocation_with_binding aid)) (\<lambda>found. case found of None \<Rightarrow> throw NotFound
      | Some (a, eb) \<Rightarrow> and_then now_ms (\<lambda>now. let b = make_binding aid tp (Some host) eb now in and_then (apply_binding rt a b) (\<lambda>_. return b))))"
    by (rule valid_and_then [OF embedded_no_host_error(1)])
  then show ?thesis
    unfolding put_binding_def by (rule valid_and_then [OF check_host_refused no_host_refused])
qed

lemma update_allocation_refused:
  "valid (unchanged s0) (update_allocation rt aid tpo ho) (\<lambda>_ _. True) (\<lambda>e s. e = ServiceInvalidHost \<longrightarrow> unchanged s0 s)"
proof -
  have check: "valid (unchanged s0) (case ho of None \<Rightarrow> return () | Some h \<Rightarrow> check_host h) (\<lambda>_. unchanged s0)
      (\<lambda>e s. e = ServiceInvalidHost \<longrightarrow> unchanged s0 s)"
    by (cases ho) (auto intro!: valid_return check_host_refused simp del: return_apply simp: option.case)
  have "no_host_error (case port of None \<Rightarrow> throw NotFound | Some rtp \<Rightarrow> and_then now_ms (\<lambda>now.
      apply_binding rt a (make_binding aid rtp (resolved_host ho eb a) eb now)))" for port a eb
    by (auto split: option.split intro!: no_host_chain apply_binding_no_host_error)
  note tail = no_host_refused [OF this]
  have "valid (unchanged s0) (case found of None \<Rightarrow> throw NotFound | Some (a, eb) \<Rightarrow>
      and_then (case ho of None \<Rightarrow> return () | Some h \<Rightarrow> check_host h) (\<lambda>_.
      case or_else tpo (map_option b_target_port eb) of None \<Rightarrow> throw NotFound
      | Some rtp \<Rightarrow> and_then now_ms (\<lambda>now. apply_binding rt a (make_binding aid rtp (resolved_host ho eb a) eb now))))
      (\<lambda>_ _. True) (\<lambda>e s. e = ServiceInvalidHost \<longrightarrow> unchanged s0 s)" for found
    by (cases found) (auto intro!: valid_throw valid_and_then [OF check tail] simp del: throw_apply simp: option.case)
  then show ?thesis
    unfolding update_allocation_def by (rule valid_and_then [OF read_refused [OF implements_get_allocation_with_binding]])
qed

section \<open>Refused requests at the handlers\<close>

abbreviation quiet :: "'rt service \<Rightarrow> http_response \<Rightarrow> 'rt app_state \<Rightarrow> bool" where
  "quiet s0 r s \<equiv> rs_status r = 400 \<longrightarrow> on_service (unchanged s0) s"

lemma error_status_400: "rs_status (service_error_response e) = 400 \<longleftrightarrow> e = ServiceInvalidHost"
  by (cases e rule: service_error_response.cases) (simp_all add: text_response_def)


lemma call_service_result: "call_service m s = (res, s') \<Longrightarrow>
    \<exists>out v. m (as_service s) = (out, v) \<and> res = map_err service_error_response out \<and> s' = s\<lparr>as_service := v\<rparr>"
  by (auto simp: call_service_def zoom_def split: prod.splits)

lemma call_refused:
  assumes "valid (unchanged s0) m (\<lambda>_ _. True) (\<lambda>e s. e = ServiceInvalidHost \<longrightarrow> unchanged s0 s)"
  shows "valid (on_service (unchanged s0)) (call_service m) (\<lambda>_ _. True) (quiet s0)"
proof (rule validI)
  fix s r s' assume s: "on_service (unchanged s0) s" and run: "call_service m s = (Inl r, s')"
  then obtain e v where "m (as_service s) = (Inl e, v)" "r = service_error_response e" "s' = s\<lparr>as_service := v\<rparr>"
    using call_service_result [OF run] by (auto simp: eq_commute [of "Inl r"] map_err_eq_Err)
  then show "quiet s0 r s'" using valid_Err [OF assms] s by (simp add: error_status_400 on_service_def)
qed simp

lemma call_no_host:
  assumes "no_host_error m"
  shows "valid P (call_service m) (\<lambda>_ _. True) (quiet s0)"
proof (rule validI)
  fix s r s' assume run: "call_service m s = (Inl r, s')"
  then obtain e v where "m (as_service s) = (Inl e, v)" "r = service_error_response e"
    using call_service_result [OF run] by (auto simp: eq_commute [of "Inl r"] map_err_eq_Err)
  then show "quiet s0 r s'" using valid_Err [OF assms] by (simp add: error_status_400)
qed simp

lemma extractors_refused:
  "valid (on_service I) (authed w rq) (\<lambda>_. on_service I) (\<lambda>r s. rs_status r = 400 \<longrightarrow> on_service I s)"
  "valid (on_service I) (path_id w seg) (\<lambda>_. on_service I) (\<lambda>r s. rs_status r = 400 \<longrightarrow> on_service I s)"
  "valid (on_service I) (or_text_error res) (\<lambda>_. on_service I) (\<lambda>r s. rs_status r = 400 \<longrightarrow> on_service I s)"
  by (rule validI; simp add: authed_def path_id_def or_text_error_def)+

lemma answer_refused: "rs_status r \<noteq> 400 \<Longrightarrow> valid P (return r) (quiet s0) (quiet s0)"
  by (rule valid_return) simp

lemma statuses [simp]: "rs_status (json_response st v) = st" "rs_status (text_response st t) = st" "rs_status (status_response st) = st"
  by (simp_all add: json_response_def text_response_def status_response_def)

lemma found_or_404_status: "rs_status (found_or_404 json found) \<noteq> 400" "rs_status (found_or_404 json found) \<noteq> 401"
  by (simp_all add: found_or_404_def split: option.split)

lemma handlers_refuse: "valid (on_service (unchanged s0)) (handler_of f w rt rq seg e) (quiet s0) (quiet s0)"
proof -
  note changes = put_binding_refused [THEN call_refused] update_allocation_refused [THEN call_refused]
  note others = create_allocation_no_host_error [THEN call_no_host] delete_allocation_no_host_error [THEN call_no_host]
    delete_binding_no_host_error [THEN call_no_host] reads_no_host_error [THEN call_no_host] small_no_host_error(2) [THEN call_no_host]
  have scrape: "valid P (\<lambda>s. case calculate f rows t (as_prometheus_rates s) of (rates, rc) \<Rightarrow>
      (Ok \<lparr>rs_status = 200, rs_content_type = ct, rs_body = b rates\<rparr>, s\<lparr>as_prometheus_rates := rc\<rparr>)) (quiet s0) (quiet s0)" for P rows t ct b
    by (rule validI) (auto split: prod.splits)
  have read: "valid P (\<lambda>s. (Ok (json_response 200 (v s)), s)) (quiet s0) (quiet s0)" for P v
    by (rule validI) auto
  have empty: "valid (on_service (unchanged s0)) (throw r) (quiet s0) (quiet s0)" for r
    by (rule valid_throw) simp
  note rules = extractors_refused [THEN valid_and_then] changes [THEN valid_and_then] others [THEN valid_and_then] scrape read
    empty valid_if answer_refused
  show ?thesis
    by (cases e; simp only: handler_of.simps handler_defs aggregate_view_def http_current_time_ms_def set_target_def;
        (rule rules | simp add: found_or_404_status)+)
qed

section \<open>Authorization\<close>







section \<open>Properties\<close>

text \<open>
  A request port, given as a JSON number of 32 bits and parsed from its decimal form, is accepted exactly when it is a
  port, and then keeps its value.
\<close>

lemma parse_request_port_exact:
  "parse_request_port port = (if 0 < port \<and> port \<le> 65535 then Ok (ucast port) else Err \<lparr>hte_status = 400, hte_body = ''invalid port''\<rparr>)"
proof -
  have "unat port < 2 ^ 32" using unsigned_less [of port, where ?'a = nat] by simp
  moreover have "0 < port \<longleftrightarrow> 0 < unat port" "port \<le> 65535 \<longleftrightarrow> unat port \<le> 65535"
    by (simp_all add: word_less_nat_alt word_le_nat_alt)
  moreover have "(of_nat (unat port) :: u16) = ucast port" by (simp add: unsigned_ucast_eq)
  ultimately show ?thesis using parse_port_show_nat by (simp add: parse_request_port_def)
qed


text \<open>
  C39. A malformed request changes nothing: whatever the endpoint, a request answered 400 (a body that is too long or
  does not decode, an unknown protocol, a port out of range, an empty update, a host that is no IP literal, a path
  segment the framework rejects) leaves the tables and the runtime as they were.
\<close>

theorem http_bad_request_unchanged:
  assumes "router f w rt rq s = (rs, s')" and "rs_status rs = 400"
  shows "db (repo (as_service s')) = db (repo (as_service s)) \<and> runtime (as_service s') = runtime (as_service s)"
proof -
  obtain e seg res where run: "handler_of f w rt rq seg e s = (res, s')" and rs: "rs = respond res"
    using assms(1) by (auto simp: router_def split: prod.splits)
  have "on_service (unchanged (as_service s)) s" by (simp add: on_service_def unchanged_def)
  then have "quiet (as_service s) rs s'"
    using handlers_refuse [of "as_service s" f w rt rq seg e] run rs by (cases res) (auto dest: valid_Ok valid_Err)
  with assms(2) show ?thesis by (simp add: on_service_def unchanged_def)
qed

text \<open>A framework for examples: every header reads as the given text, bodies are byte lists and no JSON decodes.\<close>

definition example_web :: "string \<Rightarrow> u8 list web" where
  "example_web header =
     \<lparr>match_path = (\<lambda>patterns path. if path \<in> set patterns then Some (path, ''1'') else None), serves = (=), path_param = Ok,
      header_to_str = (\<lambda>_. Some header), to_bytes = (\<lambda>b n. if length b \<le> n then Some b else None),
      de_allocation_create = (\<lambda>_. None), de_binding_put = (\<lambda>_. None), de_port_create = (\<lambda>_. None), de_target = (\<lambda>_. None),
      de_update = (\<lambda>_. None)\<rparr>"

definition example_app :: "runtime_state app_state" where
  "example_app = app_state_new example_started (\<lambda>_. metrics_default) ''t''"

definition example_post :: "u8 list http_request" where
  "example_post = \<lparr>rq_method = POST, rq_path = ''/v1/ports'', rq_authorization = Some [], rq_body = [0]\<rparr>"


theorem http_bad_request_unchanged_witness:
  "\<exists>rs s'. router example_f64 (example_web ''Bearer t'') in_memory_runtime example_post example_app = (rs, s') \<and>
     rs = text_response 400 ''invalid request body'' \<and> db (repo (as_service s')) = db (repo (as_service example_app))"
proof -
  obtain rs s' where run: "router example_f64 (example_web ''Bearer t'') in_memory_runtime example_post example_app = (rs, s')" by fastforce
  have "carries_token (example_web ''Bearer t'') example_post (as_auth_token example_app)"
    by (simp add: carries_token_def example_web_def example_post_def example_app_def app_state_new_def)
  moreover have "route (example_web ''Bearer t'') example_post = (CreatePort, ''1'')"
    by (simp add: route_def routes_def example_web_def example_post_def)
  moreover have "read_json (example_web ''Bearer t'') de_port_create example_post = Err \<lparr>hte_status = 400, hte_body = ''invalid request body''\<rparr>"
    by (simp add: read_json_def example_web_def example_post_def)
  ultimately have rs: "rs = text_response 400 ''invalid request body''"
    using run by (simp add: router_def create_port_handler_def and_then_def authed_def from_request_parts_eq or_text_error_def into_response_def)
  from http_bad_request_unchanged [OF run] run rs show ?thesis by simp
qed

end
