(* ===== verification/Relayd_Main.thy ===== *)
theory Relayd_Main
  imports Relayd_Config Relayd_Store Relayd_Http_Correct Relayd_Real Relayd_Netlink
begin

text \<open>
  The program (\<open>src/src/bin/relayd.rs\<close>): the command line over the environment, the runtime configurations, and the start:
  bind, open the repository, build the runtime of the configured mode, restore what is stored, then serve. A successful
  start gives the state that the HTTP server serves from. What the operating system and libnftnl answer is a parameter.
\<close>

section \<open>The command line\<close>

record cli =
  cli_http_listen :: "string option"
  cli_proxy_listen_host :: "string option"
  cli_port_range :: "string option"
  cli_auth_token :: "string option"
  cli_sqlite_path :: "string option"
  cli_runtime_mode :: "string option"
  cli_nftables_table :: "string option"
  cli_nftables_chain :: "string option"
  cli_runtime_apply_timeout_ms :: "string option"
  cli_restore_sweep_timeout_ms :: "string option"
  cli_tcp_session_model_enabled :: bool
  cli_tcp_session_model_workers :: "string option"
  cli_tcp_session_model_accept_balanced :: bool
  cli_tcp_session_model_sharded_accept :: bool
  cli_tcp_session_model_max_active :: "string option"
  cli_tcp_splice_enabled :: bool
  cli_force_tcp_copy_fallback :: bool
  cli_udp_session_workers :: "string option"
  cli_udp_max_sessions :: "string option"
  cli_udp_batch_enabled :: "bool option"
  cli_udp_io_uring_enabled :: bool
  cli_udp_gro_enabled :: bool
  cli_udp_dataplane_redesign_enabled :: bool
  cli_udp_fast_path_enabled :: bool
  cli_udp_fast_path_segment_size :: "string option"
  cli_udp_fast_path_gso_burst :: "string option"
  cli_udp_socket_rcvbuf_bytes :: "string option"
  cli_udp_socket_sndbuf_bytes :: "string option"

definition insert_if_present :: "string \<Rightarrow> string option \<Rightarrow> env_map \<Rightarrow> env_map" where
  "insert_if_present name v env = (case v of Some x \<Rightarrow> env(name \<mapsto> x) | None \<Rightarrow> env)"

definition insert_flag :: "string \<Rightarrow> bool \<Rightarrow> env_map \<Rightarrow> env_map" where
  "insert_flag name enabled env = (if enabled then env(name \<mapsto> ''true'') else env)"

definition insert_optional_flag :: "string \<Rightarrow> bool option \<Rightarrow> env_map \<Rightarrow> env_map" where
  "insert_optional_flag name enabled env =
     (case enabled of Some b \<Rightarrow> env(name \<mapsto> (if b then ''true'' else ''false'')) | None \<Rightarrow> env)"

definition apply_to_env :: "cli \<Rightarrow> env_map \<Rightarrow> env_map" where
  "apply_to_env c env =
     (let env = insert_if_present ''HTTP_LISTEN'' (cli_http_listen c) env;
          env = insert_if_present ''PROXY_LISTEN_HOST'' (cli_proxy_listen_host c) env;
          env = insert_if_present ''PORT_RANGE'' (cli_port_range c) env;
          env = insert_if_present ''AUTH_TOKEN'' (cli_auth_token c) env;
          env = insert_if_present ''SQLITE_PATH'' (cli_sqlite_path c) env;
          env = insert_if_present ''RELAYD_RUNTIME_MODE'' (cli_runtime_mode c) env;
          env = insert_if_present ''RELAYD_NFTABLES_TABLE'' (cli_nftables_table c) env;
          env = insert_if_present ''RELAYD_NFTABLES_CHAIN'' (cli_nftables_chain c) env;
          env = insert_if_present ''RUNTIME_APPLY_TIMEOUT_MS'' (cli_runtime_apply_timeout_ms c) env;
          env = insert_if_present ''RESTORE_SWEEP_TIMEOUT_MS'' (cli_restore_sweep_timeout_ms c) env;
          env = insert_flag ''TCP_SESSION_MODEL_ENABLED'' (cli_tcp_session_model_enabled c) env;
          env = insert_if_present ''TCP_SESSION_MODEL_WORKERS'' (cli_tcp_session_model_workers c) env;
          env = insert_flag ''TCP_SESSION_MODEL_ACCEPT_BALANCED'' (cli_tcp_session_model_accept_balanced c) env;
          env = insert_flag ''TCP_SESSION_MODEL_SHARDED_ACCEPT'' (cli_tcp_session_model_sharded_accept c) env;
          env = insert_if_present ''TCP_SESSION_MODEL_MAX_ACTIVE'' (cli_tcp_session_model_max_active c) env;
          env = insert_flag ''TCP_SPLICE_ENABLED'' (cli_tcp_splice_enabled c) env;
          env = insert_flag ''FORCE_TCP_COPY_FALLBACK'' (cli_force_tcp_copy_fallback c) env;
          env = insert_if_present ''UDP_SESSION_WORKERS'' (cli_udp_session_workers c) env;
          env = insert_if_present ''UDP_MAX_SESSIONS'' (cli_udp_max_sessions c) env;
          env = insert_optional_flag ''UDP_BATCH_ENABLED'' (cli_udp_batch_enabled c) env;
          env = insert_flag ''UDP_IO_URING_ENABLED'' (cli_udp_io_uring_enabled c) env;
          env = insert_flag ''UDP_GRO_ENABLED'' (cli_udp_gro_enabled c) env;
          env = insert_flag ''UDP_DATAPLANE_REDESIGN_ENABLED'' (cli_udp_dataplane_redesign_enabled c) env;
          env = insert_flag ''UDP_FAST_PATH_ENABLED'' (cli_udp_fast_path_enabled c) env;
          env = insert_if_present ''UDP_FAST_PATH_SEGMENT_SIZE'' (cli_udp_fast_path_segment_size c) env;
          env = insert_if_present ''UDP_FAST_PATH_GSO_BURST'' (cli_udp_fast_path_gso_burst c) env;
          env = insert_if_present ''UDP_SOCKET_RCVBUF_BYTES'' (cli_udp_socket_rcvbuf_bytes c) env
      in insert_if_present ''UDP_SOCKET_SNDBUF_BYTES'' (cli_udp_socket_sndbuf_bytes c) env)"

definition config_from_cli_and_env :: "cli \<Rightarrow> env_map \<Rightarrow> config_error + config" where
  "config_from_cli_and_env c env = from_env_map (apply_to_env c env)"

definition real_runtime_config_from_config :: "config \<Rightarrow> real_runtime_config" where
  "real_runtime_config_from_config c =
     real_with_force_tcp_copy_fallback (force_tcp_copy_fallback c)
       (real_with_tcp_splice_enabled (tcp_splice_enabled c)
         (real_with_udp_batch_enabled (udp_batch_enabled c)
           (real_with_udp_max_sessions (udp_max_sessions c)
             (real_with_bind_host (proxy_listen_host c)))))"

definition netlink_runtime_config_from_config :: "config \<Rightarrow> netlink_runtime_config" where
  "netlink_runtime_config_from_config c = netlink_runtime_config_new (nftables_table c) (nftables_chain c)"

section \<open>Starting\<close>

text \<open>
  What the program finds: which HTTP address it may bind, what SQLite does to the files, the file system and the stored
  tables, which relay addresses may be bound and which upstreams connect, whether the netlink feature is compiled in, the kernel's
  packet filter and how libnftnl pages and sends a batch, the ids and the clock readings.
\<close>

record 'b platform =
  pl_http_grants :: "socket_addr \<Rightarrow> bool"
  pl_touch :: "file_system \<Rightarrow> file_system"
  pl_disk :: "file_system \<times> repository"
  pl_tcp_grants :: "nat \<Rightarrow> socket_addr \<Rightarrow> bool"
  pl_udp_grants :: "nat \<Rightarrow> socket_addr \<Rightarrow> bool"
  pl_connects :: "nat \<Rightarrow> bool"
  pl_netlink_feature :: bool
  pl_kernel :: 'b
  pl_pages :: "(u8 list \<times> u8 list) list \<Rightarrow> (u8 list \<times> u8 list) list list"
  pl_send :: "nft_msg list \<Rightarrow> u32 \<Rightarrow> ('b, string, unit) action"
  pl_ids :: "nat \<Rightarrow> string"
  pl_clock :: "nat \<Rightarrow> int"

datatype start_error =
    StartConfig config_error
  | StartBind
  | StartRepository repository_error
  | StartNetlink nft_backend_error
  | StartService service_error

datatype 'b relayd = ProxyApp "real_runtime app_state" | NetlinkApp "'b netlink_runtime app_state"

definition pl_nft :: "'b platform \<Rightarrow> 'b nft_backend" where
  "pl_nft pl =
     (if pl_netlink_feature pl then lib_nftnl_backend (pl_pages pl) (pl_send pl)
      else \<lparr>nb_replace_ruleset = replace_ruleset_unsupported\<rparr>)"

definition service_new :: "repository \<Rightarrow> 'rt \<Rightarrow> port_range \<Rightarrow> u32 \<Rightarrow> (nat \<Rightarrow> string) \<Rightarrow> (nat \<Rightarrow> int) \<Rightarrow> 'rt service" where
  "service_new r x ports timeout_ms uuids clock = with_id_generator r x ports timeout_ms uuids clock"

definition run_with_runtime :: "'rt runtime_facade \<Rightarrow> 'b platform \<Rightarrow> config \<Rightarrow> ('rt \<Rightarrow> metrics) \<Rightarrow> repository \<Rightarrow> 'rt \<Rightarrow>
    start_error + 'rt app_state" where
  "run_with_runtime rt pl config m r x =
     (case restore_all rt (restore_sweep_timeout_ms config)
             (service_new r x (port_range_cfg config) (runtime_apply_timeout_ms config) (pl_ids pl) (pl_clock pl)) of
        (Inl e, _) \<Rightarrow> Err (StartService e)
      | (Inr _, service) \<Rightarrow> Ok (app_state_new service m (auth_token config)))"

definition run_with_listener :: "'b platform \<Rightarrow> config \<Rightarrow> start_error + 'b relayd" where
  "run_with_listener pl config =
     (case repository_open (db_path config) (pl_touch pl) (pl_disk pl) of
        (Inl e, _) \<Rightarrow> Err (StartRepository e)
      | (Inr _, (_, r)) \<Rightarrow>
          (case runtime_mode_cfg config of
             Proxy \<Rightarrow>
               map_ok ProxyApp (run_with_runtime real_facade pl config rr_metrics r
                 (real_runtime_new (real_runtime_config_from_config config) metrics_default
                    (pl_tcp_grants pl) (pl_udp_grants pl) (pl_connects pl)))
           | Netlink \<Rightarrow>
               (case with_libnftnl (pl_netlink_feature pl) (netlink_runtime_config_from_config config) (pl_kernel pl) of
                  Inl e \<Rightarrow> Err (StartNetlink e)
                | Inr x \<Rightarrow> map_ok NetlinkApp (run_with_runtime (netlink_facade (pl_nft pl)) pl config (\<lambda>_. metrics_default) r x))))"

definition run_with_config :: "'b platform \<Rightarrow> config \<Rightarrow> start_error + 'b relayd" where
  "run_with_config pl config =
     (case ip_addr_from_str (http_listen_host config) of
        None \<Rightarrow> Err (StartConfig InvalidHttpListen)
      | Some host \<Rightarrow>
          if pl_http_grants pl (host, http_listen_port config) then run_with_listener pl config else Err StartBind)"

definition run :: "'b platform \<Rightarrow> cli \<Rightarrow> env_map \<Rightarrow> start_error + 'b relayd" where
  "run pl c env =
     (case config_from_cli_and_env c env of
        Inl e \<Rightarrow> Err (StartConfig e)
      | Inr config \<Rightarrow> run_with_config pl config)"

section \<open>Command line over environment\<close>

text \<open>The settings a command line makes, by the name of the environment variable each replaces.\<close>

definition cli_settings :: "cli \<Rightarrow> (string \<times> string option) list" where
  "cli_settings c =
     (let flag = (\<lambda>b. if b then Some ''true'' else None) in
     [(''HTTP_LISTEN'', cli_http_listen c), (''PROXY_LISTEN_HOST'', cli_proxy_listen_host c), (''PORT_RANGE'', cli_port_range c),
      (''AUTH_TOKEN'', cli_auth_token c), (''SQLITE_PATH'', cli_sqlite_path c), (''RELAYD_RUNTIME_MODE'', cli_runtime_mode c),
      (''RELAYD_NFTABLES_TABLE'', cli_nftables_table c), (''RELAYD_NFTABLES_CHAIN'', cli_nftables_chain c),
      (''RUNTIME_APPLY_TIMEOUT_MS'', cli_runtime_apply_timeout_ms c), (''RESTORE_SWEEP_TIMEOUT_MS'', cli_restore_sweep_timeout_ms c),
      (''TCP_SESSION_MODEL_ENABLED'', flag (cli_tcp_session_model_enabled c)),
      (''TCP_SESSION_MODEL_WORKERS'', cli_tcp_session_model_workers c),
      (''TCP_SESSION_MODEL_ACCEPT_BALANCED'', flag (cli_tcp_session_model_accept_balanced c)),
      (''TCP_SESSION_MODEL_SHARDED_ACCEPT'', flag (cli_tcp_session_model_sharded_accept c)),
      (''TCP_SESSION_MODEL_MAX_ACTIVE'', cli_tcp_session_model_max_active c),
      (''TCP_SPLICE_ENABLED'', flag (cli_tcp_splice_enabled c)), (''FORCE_TCP_COPY_FALLBACK'', flag (cli_force_tcp_copy_fallback c)),
      (''UDP_SESSION_WORKERS'', cli_udp_session_workers c), (''UDP_MAX_SESSIONS'', cli_udp_max_sessions c),
      (''UDP_BATCH_ENABLED'', map_option (\<lambda>b. if b then ''true'' else ''false'') (cli_udp_batch_enabled c)),
      (''UDP_IO_URING_ENABLED'', flag (cli_udp_io_uring_enabled c)), (''UDP_GRO_ENABLED'', flag (cli_udp_gro_enabled c)),
      (''UDP_DATAPLANE_REDESIGN_ENABLED'', flag (cli_udp_dataplane_redesign_enabled c)),
      (''UDP_FAST_PATH_ENABLED'', flag (cli_udp_fast_path_enabled c)),
      (''UDP_FAST_PATH_SEGMENT_SIZE'', cli_udp_fast_path_segment_size c), (''UDP_FAST_PATH_GSO_BURST'', cli_udp_fast_path_gso_burst c),
      (''UDP_SOCKET_RCVBUF_BYTES'', cli_udp_socket_rcvbuf_bytes c), (''UDP_SOCKET_SNDBUF_BYTES'', cli_udp_socket_sndbuf_bytes c)])"

lemma insert_flag_present: "insert_flag name b = insert_if_present name (if b then Some ''true'' else None)"
  by (simp add: insert_flag_def insert_if_present_def fun_eq_iff)

lemma insert_optional_present:
  "insert_optional_flag name b = insert_if_present name (map_option (\<lambda>b. if b then ''true'' else ''false'') b)"
  by (cases b) (simp_all add: insert_optional_flag_def insert_if_present_def fun_eq_iff)

lemma apply_to_env_fold: "apply_to_env c env = fold (\<lambda>(name, v). insert_if_present name v) (cli_settings c) env"
  by (simp add: apply_to_env_def cli_settings_def Let_def insert_flag_present insert_optional_present)

lemma fold_insert_lookup:
  "distinct (map fst xs) \<Longrightarrow> fold (\<lambda>(name, v). insert_if_present name v) xs env k =
     (case map_of xs k of Some (Some v) \<Rightarrow> Some v | _ \<Rightarrow> env k)"
proof (induction xs arbitrary: env)
  case (Cons x xs)
  then have "map_of xs (fst x) = None" by (simp add: map_of_eq_None_iff)
  with Cons show ?case
    by (cases x) (auto simp: insert_if_present_def split: option.split)
qed simp

lemma cli_settings_distinct: "distinct (map fst (cli_settings c))"
  by (simp add: cli_settings_def Let_def)

text \<open>An option of the command line replaces its variable, and an option that is not given leaves it as it was.\<close>

lemma apply_to_env_lookup:
  "apply_to_env c env k = (case map_of (cli_settings c) k of Some (Some v) \<Rightarrow> Some v | _ \<Rightarrow> env k)"
  unfolding apply_to_env_fold by (rule fold_insert_lookup [OF cli_settings_distinct])

lemma run_with_config_Err: "ip_addr_from_str (http_listen_host config) \<noteq> None \<Longrightarrow> run_with_config pl config \<noteq> Err (StartConfig e)"
  by (auto simp: run_with_config_def run_with_listener_def run_with_runtime_def map_ok_eq_Err
      split: option.splits prod.splits sum.splits runtime_mode.splits)

lemma configured_token:
  assumes "config_from_cli_and_env c env = Ok config"
  shows "Some (auth_token config) = (case cli_auth_token c of Some t \<Rightarrow> Some t | None \<Rightarrow> env ''AUTH_TOKEN'')"
proof -
  have "map_of (cli_settings c) ''AUTH_TOKEN'' = Some (cli_auth_token c)" by (simp add: cli_settings_def Let_def)
  with from_env_map_Ok assms show ?thesis
    unfolding config_from_cli_and_env_def by (fastforce simp: apply_to_env_lookup split: option.split)
qed

section \<open>Starting with a runtime\<close>

lemma restore_each_runtime: "restore_each rt t xs s = (res, s') \<Longrightarrow> \<exists>x. s' = s\<lparr>runtime := x\<rparr>"
proof (induction xs arbitrary: s)
  case Nil
  then have "s' = s\<lparr>runtime := runtime s\<rparr>" by simp
  then show ?case by (rule exI)
next
  case (Cons a xs)
  obtain out x where a: "rf_restore rt a t (runtime s) = (out, x)" by fastforce
  then have first: "restore_in_runtime rt a t s = (map_err RuntimeFailed out, s\<lparr>runtime := x\<rparr>)"
    by (simp add: restore_in_runtime_def with_runtime_def zoom_def)
  show ?case
  proof (cases out)
    case (Inl e)
    with Cons.prems first show ?thesis by auto
  next
    case (Inr u)
    with Cons.prems first have "restore_each rt t xs (s\<lparr>runtime := x\<rparr>) = (res, s')" by simp
    from Cons.IH [OF this] show ?thesis by auto
  qed
qed

lemma restore_all_environment:
  assumes "restore_all rt t s = (Inr (), s')" and "db_wf (db (repo s))"
  shows "same_env s s' \<and> id_calls s' = id_calls s"
proof -
  from assms(1) obtain x xs r where listed: "repo_list_allocations (repo s) = (Inr xs, r)"
    and each: "restore_each rt t xs (s\<lparr>runtime := x, repo := r\<rparr>) = (Inr (), s')"
    unfolding restore_all_def by (auto simp: and_then_eq_Ok with_runtime_def with_repo_def zoom_eq_Ok)
  from repo_list_allocations_run(2) [OF assms(2) listed] restore_each_runtime [OF each] show ?thesis
    by (auto simp: same_env_def)
qed

text \<open>
  What a start relies on: the tables are sound once migrated, no statement fails, and the ids to be generated neither repeat
  nor are stored.
\<close>

definition startable :: "'b platform \<Rightarrow> bool" where
  "startable pl \<longleftrightarrow> db_ok (db_migrate (db (snd (pl_disk pl)))) \<and> fault_free (snd (pl_disk pl)) \<and> inj (pl_ids pl) \<and>
     dom (abs_store (db_migrate (db (snd (pl_disk pl))))) \<inter> range (pl_ids pl) = {}"

lemma run_with_runtime_consistent:
  assumes contract: "runtime_contract rt rt_inv served" and run: "run_with_runtime rt pl config m r x = Ok s"
    and ok: "db_ok (db r)" "fault_free r" "inj (pl_ids pl)" "dom (abs_store (db r)) \<inter> range (pl_ids pl) = {}"
    and start: "rt_inv x" "served x = Map.empty"
  shows "consistent rt_inv served (as_service s)" and "as_auth_token s = auth_token config"
proof -
  let ?s0 = "service_new r x (port_range_cfg config) (runtime_apply_timeout_ms config) (pl_ids pl) (pl_clock pl)"
  from run obtain service where restored: "restore_all rt (restore_sweep_timeout_ms config) ?s0 = (Inr (), service)"
    and s: "s = app_state_new service m (auth_token config)"
    by (auto simp: run_with_runtime_def split: prod.splits sum.splits)
  have s0: "repo ?s0 = r" "runtime ?s0 = x" "id_calls ?s0 = 0" "generated_ids ?s0 = pl_ids pl" "service_failpoints ?s0 = failpoints_default"
    by (simp_all add: service_new_def with_id_generator_def)
  have wf: "db_wf (db (repo ?s0))" using ok(1) s0 by (simp add: db_ok_wf)
  have serves: "db (repo service) = db r" "rt_inv (runtime service)" "served (runtime service) = stored_keys (db r)"
    using runtime_contract.restore_all_serves [OF contract restored] ok(1) start s0 by simp_all
  have env: "same_env ?s0 service" "id_calls service = 0" using restore_all_environment [OF restored wf] s0 by simp_all
  have "used_ids service = - range (pl_ids pl)" using env s0 by (simp add: used_ids_def same_env_def atLeast_0)
  then show "consistent rt_inv served (as_service s)"
    using serves env ok s0 s
    by (auto simp: consistent_def in_ctx_def agree_def same_env_def fault_free_def app_state_new_def failpoints_default_def)
  show "as_auth_token s = auth_token config" using s by (simp add: app_state_new_def)
qed

lemma repository_open_db:
  assumes "repository_open path touch (fs, r) = (Ok (), (fs', r'))"
  shows "db r' = db_migrate (db r) \<and> faults r' = faults r"
proof -
  from assms obtain r1 r2 where "round_trip SqlxError r = (Ok (), r1)" "setup_schema r1 = (Ok (), r2)" "migrate_legacy_bindings r2 = (Ok (), r')"
    unfolding repository_open_def by (auto simp: and_then_eq_Ok zoom_eq_Ok split: prod.splits)
  moreover from this(1) have "db r1 = db r \<and> faults r1 = faults r" by (auto simp: round_trip_def split: if_splits)
  moreover from calculation(2) have "db r2 = db r1 \<and> faults r2 = faults r1"
    by (auto simp: setup_schema_def run_sql_def round_trip_def query_stmt_def create_unique_index_stmt_def and_then_eq_Ok
        split: if_splits)
  moreover have "db r' = db_migrate (db r2) \<and> faults r' = faults r2"
    using implements_Ok [OF implements_migrate calculation(3)] by simp
  ultimately show ?thesis by simp
qed

section \<open>Serving\<close>

text \<open>
  One step of a serving program: a request answered whole, or one transition of the service, which is a single call that a
  request in progress makes, between the calls of others, or a step \<open>R\<close> of the data plane in the background.
\<close>

inductive app_step :: "'f f64_ops \<Rightarrow> 'body web \<Rightarrow> 'rt runtime_facade \<Rightarrow> ('rt \<Rightarrow> 'rt \<Rightarrow> bool) \<Rightarrow> 'rt app_state \<Rightarrow> 'rt app_state \<Rightarrow> bool"
  for f :: "'f f64_ops" and w :: "'body web" and rt :: "'rt runtime_facade" and R :: "'rt \<Rightarrow> 'rt \<Rightarrow> bool" where
  app_request: "router f w rt rq s = (rs, s') \<Longrightarrow> app_step f w rt R s s'"
| app_call: "service_step rt R (as_service s) x \<Longrightarrow> app_step f w rt R s (s\<lparr>as_service := x\<rparr>)"

inductive_cases app_stepE: "app_step f w rt R s s'"

text \<open>
  The program in either mode: the userspace runtime has tasks in the background, in netlink mode the kernel forwards and no
  task changes the runtime.
\<close>

inductive relayd_step :: "'f f64_ops \<Rightarrow> 'body web \<Rightarrow> 'b platform \<Rightarrow> 'b relayd \<Rightarrow> 'b relayd \<Rightarrow> bool"
  for f :: "'f f64_ops" and w :: "'body web" and pl :: "'b platform" where
  proxy_step: "app_step f w real_facade real_task s s' \<Longrightarrow> relayd_step f w pl (ProxyApp s) (ProxyApp s')"
| netlink_step: "app_step f w (netlink_facade (pl_nft pl)) (\<lambda>_ _. False) s s' \<Longrightarrow> relayd_step f w pl (NetlinkApp s) (NetlinkApp s')"

inductive_cases relayd_stepE: "relayd_step f w pl a a'"

fun relayd_served :: "'b relayd \<Rightarrow> string \<Rightarrow> (protocol \<times> u16) option" where
  "relayd_served (ProxyApp s) = real_served (runtime (as_service s))"
| "relayd_served (NetlinkApp s) = nl_served (runtime (as_service s))"

fun relayd_tables :: "'b relayd \<Rightarrow> database" where
  "relayd_tables (ProxyApp s) = db (repo (as_service s))"
| "relayd_tables (NetlinkApp s) = db (repo (as_service s))"

fun relayd_token :: "'b relayd \<Rightarrow> string" where
  "relayd_token (ProxyApp s) = as_auth_token s"
| "relayd_token (NetlinkApp s) = as_auth_token s"

lemma app_step_runs: "app_step f w rt R s s' \<Longrightarrow> (service_step rt R)\<^sup>*\<^sup>* (as_service s) (as_service s') \<and> as_auth_token s' = as_auth_token s"
proof (erule app_stepE)
  fix rq rs assume "router f w rt rq s = (rs, s')"
  then obtain e seg res where run: "handler_of f w rt rq seg e s = (res, s')" by (auto simp: router_def split: prod.splits)
  have "on_service (runs rt R (as_service s)) s" by (simp add: on_service_def runs_def)
  then have "on_service (runs rt R (as_service s)) s'" using valid_result [OF handlers_run] run by blast
  moreover have "as_auth_token s' = as_auth_token s" using valid_result [OF handlers_keep_token] run by blast
  ultimately show ?thesis by (simp add: on_service_def runs_def)
next
  fix x assume "s' = s\<lparr>as_service := x\<rparr>" "service_step rt R (as_service s) x"
  then show ?thesis by auto
qed

text \<open>What holds of a serving program: tables and runtime agree and the token is the configured one.\<close>

fun relayd_ok :: "string \<Rightarrow> 'b relayd \<Rightarrow> bool" where
  "relayd_ok token (ProxyApp s) \<longleftrightarrow> consistent real_inv real_served (as_service s) \<and> as_auth_token s = token"
| "relayd_ok token (NetlinkApp s) \<longleftrightarrow> consistent nl_inv nl_served (as_service s) \<and> as_auth_token s = token"

lemma relayd_step_ok: "relayd_step f w pl a a' \<Longrightarrow> relayd_ok token a \<Longrightarrow> relayd_ok token a'"
proof (erule relayd_stepE)
  fix s s' assume "relayd_ok token a" "a = ProxyApp s" "a' = ProxyApp s'" "app_step f w real_facade real_task s s'"
  then show ?thesis
    using app_step_runs [of f w real_facade real_task s s'] runtime_contract.reachable_consistent [OF real.runtime_contract_axioms _ _ real_task_keeps] by auto
next
  fix s s' assume "relayd_ok token a" "a = NetlinkApp s" "a' = NetlinkApp s'" "app_step f w (netlink_facade (pl_nft pl)) (\<lambda>_ _. False) s s'"
  then show ?thesis
    using app_step_runs [of f w "netlink_facade (pl_nft pl)" "\<lambda>_ _. False" s s']
      runtime_contract.reachable_consistent [OF nl.runtime_contract_axioms, of "pl_nft pl" "\<lambda>_ _. False" "as_service s" "as_service s'"] by auto
qed

lemma relayd_steps_ok: "(relayd_step f w pl)\<^sup>*\<^sup>* a a' \<Longrightarrow> relayd_ok token a \<Longrightarrow> relayd_ok token a'"
  by (induction rule: rtranclp_induct) (auto dest: relayd_step_ok)

lemma relayd_ok_serves: "relayd_ok token a \<Longrightarrow> relayd_served a = stored_keys (relayd_tables a) \<and> db_ok (relayd_tables a) \<and> relayd_token a = token"
  by (cases a) (simp_all add: consistent_def in_ctx_def agree_def)

lemma real_served_new: "real_served (real_runtime_new config m tcp_grants udp_grants connects) = Map.empty"
  by (simp add: fun_eq_iff real_served_def real_runtime_new_def tcp_runtime_new_def udp_runtime_new_def tcp_served_def udp_served_def)

lemma nl_new: "nl_inv (netlink_runtime_new config k)" "nl_served (netlink_runtime_new config k) = Map.empty"
  by (simp_all add: nl_inv_def nl_served_def nl_allocs_def netlink_runtime_new_def netlink_state_default_def alist_ok_def fun_eq_iff)

lemma run_ok:
  assumes "run_with_config pl config = Ok a" and "startable pl"
  shows "relayd_ok (auth_token config) a"
proof -
  obtain fs r where disk: "pl_disk pl = (fs, r)" by fastforce
  from assms(1) have listener: "run_with_listener pl config = Ok a"
    by (auto simp: run_with_config_def split: option.splits if_splits)
  then obtain fs' r' where opened: "repository_open (db_path config) (pl_touch pl) (fs, r) = (Ok (), (fs', r'))"
    by (auto simp: run_with_listener_def disk split: prod.splits sum.splits)
  from repository_open_db [OF opened] assms(2) disk
  have r': "db_ok (db r')" "fault_free r'" "inj (pl_ids pl)" "dom (abs_store (db r')) \<inter> range (pl_ids pl) = {}"
    by (simp_all add: startable_def fault_free_def)
  show ?thesis
  proof (cases "runtime_mode_cfg config")
    case Proxy
    with listener opened disk obtain s where a: "a = ProxyApp s" and started: "run_with_runtime real_facade pl config rr_metrics r'
        (real_runtime_new (real_runtime_config_from_config config) metrics_default (pl_tcp_grants pl) (pl_udp_grants pl) (pl_connects pl)) = Ok s"
      by (auto simp: run_with_listener_def map_ok_eq_Ok)
    show ?thesis
      using run_with_runtime_consistent [OF real.runtime_contract_axioms started r' real_inv_new real_served_new] a by simp
  next
    case Netlink
    with listener opened disk obtain s k where a: "a = NetlinkApp s" and started: "run_with_runtime (netlink_facade (pl_nft pl)) pl config (\<lambda>_. metrics_default) r'
        (netlink_runtime_new (netlink_runtime_config_from_config config) k) = Ok s"
      by (auto simp: run_with_listener_def map_ok_eq_Ok with_libnftnl_def split: sum.splits)
    show ?thesis
      using run_with_runtime_consistent [OF nl.runtime_contract_axioms started r' nl_new] a by simp
  qed
qed

section \<open>Properties\<close>

text \<open>
  C40. What the program accepts as its configuration is well formed: listen and relay hosts are IP literals, ports are not
  zero, the range is not empty, UDP sessions are allowed, nftables names are not empty, and there is a token that is not
  empty: that of the command line when it gives one, else that of the environment. Such a configuration is never refused
  again at the start.
\<close>

theorem accepted_config:
  assumes "config_from_cli_and_env c env = Ok config"
  shows "config_wf config \<and> auth_token config \<noteq> [] \<and>
    Some (auth_token config) = (case cli_auth_token c of Some t \<Rightarrow> Some t | None \<Rightarrow> env ''AUTH_TOKEN'') \<and>
    run_with_config pl config \<noteq> Err (StartConfig e)"
proof -
  have wf: "config_wf config"
    using from_env_map_Ok assms unfolding config_from_cli_and_env_def by blast
  moreover have "run_with_config pl config \<noteq> Err (StartConfig e)"
    using wf by (intro run_with_config_Err) (simp add: config_wf_def)
  ultimately show ?thesis using wf configured_token [OF assms] by (simp add: config_wf_def)
qed

definition no_options :: cli where
  "no_options = \<lparr>cli_http_listen = None, cli_proxy_listen_host = None, cli_port_range = None, cli_auth_token = None, cli_sqlite_path = None,
     cli_runtime_mode = None, cli_nftables_table = None, cli_nftables_chain = None, cli_runtime_apply_timeout_ms = None,
     cli_restore_sweep_timeout_ms = None, cli_tcp_session_model_enabled = False, cli_tcp_session_model_workers = None,
     cli_tcp_session_model_accept_balanced = False, cli_tcp_session_model_sharded_accept = False,
     cli_tcp_session_model_max_active = None, cli_tcp_splice_enabled = False, cli_force_tcp_copy_fallback = False,
     cli_udp_session_workers = None, cli_udp_max_sessions = None, cli_udp_batch_enabled = None, cli_udp_io_uring_enabled = False,
     cli_udp_gro_enabled = False, cli_udp_dataplane_redesign_enabled = False, cli_udp_fast_path_enabled = False,
     cli_udp_fast_path_segment_size = None, cli_udp_fast_path_gso_burst = None, cli_udp_socket_rcvbuf_bytes = None,
     cli_udp_socket_sndbuf_bytes = None\<rparr>"

definition example_env :: env_map where
  "example_env = [''AUTH_TOKEN'' \<mapsto> ''old'']"

lemma shown_ports: "show_nat 8080 = ''8080''" "show_nat 10000 = ''10000''" "show_nat 30000 = ''30000''"
  by (simp_all add: show_nat.simps digit_char_def char_of_def bit_Suc_0_iff)

lemma example_ports: "parse_port ''8080'' = Ok 8080" "parse_port ''10000'' = Ok 10000" "parse_port ''30000'' = Ok 30000"
  using parse_port_show_nat [of 8080] parse_port_show_nat [of 10000] parse_port_show_nat [of 30000] by (simp_all add: shown_ports)

lemma default_listen: "parse_http_listen '':8080'' = Ok \<lparr>hl_host = ''127.0.0.1'', hl_port = 8080\<rparr>"
  by (simp add: parse_http_listen_def example_ports)

lemma default_range: "parse_port_range ''10000-30000'' = Ok \<lparr>pr_start = 10000, pr_end = 30000\<rparr>"
  by (simp add: parse_port_range_def example_ports)

lemma any_address_literal: "ip_addr_from_str ''0.0.0.0'' = Some (V4 0 0 0 0)"
  by code_simp

lemma default_mode: "runtime_mode_from_str ''proxy'' = Ok Proxy"
  by code_simp

lemma example_config:
  "\<exists>config. config_from_cli_and_env (no_options\<lparr>cli_auth_token := t\<rparr>) example_env = Ok config \<and>
     http_listen_host config = ''127.0.0.1'' \<and> runtime_mode_cfg config = Proxy \<and> db_path config = ''relayd.sqlite3'' \<and>
     proxy_listen_host config = ''0.0.0.0''" if "t \<noteq> Some []"
proof -
  let ?env = "apply_to_env (no_options\<lparr>cli_auth_token := t\<rparr>) example_env"
  have env: "?env = [''AUTH_TOKEN'' \<mapsto> (case t of Some x \<Rightarrow> x | None \<Rightarrow> ''old'')]"
    by (cases t) (simp_all add: apply_to_env_def no_options_def insert_if_present_def insert_flag_def insert_optional_flag_def example_env_def)
  have token: "(case t of Some x \<Rightarrow> x | None \<Rightarrow> ''old'') \<noteq> []" using that by (auto split: option.split)
  show ?thesis
    unfolding config_from_cli_and_env_def env
    using token by (simp add: from_env_map_def default_listen default_range any_address_literal default_mode env_u32_def
        env_nonzero_usize_def env_nonempty_string_def parse_ip_literal_def Let_def)
qed

theorem accepted_config_witness:
  "\<exists>config. config_from_cli_and_env (no_options\<lparr>cli_auth_token := Some ''new''\<rparr>) example_env = Ok config \<and> auth_token config = ''new''"
proof -
  obtain config where run: "config_from_cli_and_env (no_options\<lparr>cli_auth_token := Some ''new''\<rparr>) example_env = Ok config"
    using example_config [of "Some ''new''"] by auto
  have "auth_token config = ''new''" using accepted_config [OF run, THEN conjunct2, THEN conjunct2, THEN conjunct1] by simp
  with run show ?thesis by blast
qed

end
